theory Spec2Isabelle
  imports Main "HOL-Library.Word"
begin

chapter \<open>The ABI codec of src/123.ts\<close>

text \<open>
  The development follows the order of the source file. Conventions of the embedding:
  \<^item> a thrown JavaScript exception is the left summand of a sum type, so a function
    that may throw returns \<open>error + 'a\<close>;
  \<^item> a \<open>Uint8Array\<close> is a list of 8-bit words;
  \<^item> a JavaScript string that the code scans with ASCII regular expressions (type
    strings, names, hex data, addresses, messages) is a HOL \<open>string\<close>; a string
    value handed to the codec is a list of UTF-16 code units;
  \<^item> a \<open>BigNumber\<close> is identified with the integer it denotes (its \<open>_hex\<close>
    field is the canonical hex spelling of that integer, built by \<open>toHex\<close>);
  \<^item> a JavaScript \<open>number\<close> is an integer (the codec rejects every other number);
    \<open>null\<close> and \<open>undefined\<close> are one value, since the code only compares
    them with \<open>== null\<close>;
  \<^item> the libraries that are imported and not part of the file (\<open>bn\<close>,
    \<open>js-sha3\<close>) and the properties every JavaScript array inherits are taken as
    they are documented: the big-integer operations are written out on integers, the hash
    function and the set of inherited property names are parameters (record
    \<open>platform\<close>).
\<close>

section \<open>Errors (class Logger, lines 1--358)\<close>

datatype ErrorCode =
    UNKNOWN_ERROR | NOT_IMPLEMENTED | UNSUPPORTED_OPERATION | NETWORK_ERROR | SERVER_ERROR
  | TIMEOUT | BUFFER_OVERRUN | NUMERIC_FAULT | MISSING_NEW | INVALID_ARGUMENT
  | MISSING_ARGUMENT | UNEXPECTED_ARGUMENT | CALL_EXCEPTION | INSUFFICIENT_FUNDS
  | NONCE_EXPIRED | REPLACEMENT_UNDERPRICED | UNPREDICTABLE_GAS_LIMIT | TRANSACTION_REPLACED

text \<open>
  An error object: how it was made (by \<open>Logger.makeError\<close> with a code, by
  \<open>new Error\<close>, or by the runtime as a \<open>TypeError\<close>), its \<open>reason\<close>
  (the message before the details are appended), and the three properties
  \<open>baseType\<close>, \<open>name\<close>, \<open>type\<close> that \<open>unpack\<close> writes on an
  error it captures.
\<close>

datatype error_kind = Logged ErrorCode | PlainError | TypeError

datatype error = Error (kind: error_kind) (reason: string) (tag: "(string \<times> string \<times> string) option")

definition code :: "error \<Rightarrow> ErrorCode option" where
  "code e = (case kind e of Logged c \<Rightarrow> Some c | _ \<Rightarrow> None)"

definition makeError :: "string \<Rightarrow> ErrorCode \<Rightarrow> error" where
  "makeError message c = Error (Logged c) message None"

definition throwError :: "string \<Rightarrow> ErrorCode \<Rightarrow> error + 'a" where
  "throwError message c = Inl (makeError message c)"

definition throwArgumentError :: "string \<Rightarrow> error + 'a" where
  "throwArgumentError message = throwError message INVALID_ARGUMENT"

definition throwFault :: "string \<Rightarrow> string \<Rightarrow> error + 'a" where
  "throwFault fault operation = throwError fault NUMERIC_FAULT"

text \<open>Sequencing of calls that may throw.\<close>

definition bindE :: "'e + 'a \<Rightarrow> ('a \<Rightarrow> 'e + 'b) \<Rightarrow> 'e + 'b" where
  "bindE m f = (case m of Inl e \<Rightarrow> Inl e | Inr x \<Rightarrow> f x)"

lemma bindE_Inl [simp]: "bindE (Inl e) f = Inl e"
  by (simp add: bindE_def)

lemma bindE_Inr [simp]: "bindE (Inr x) f = f x"
  by (simp add: bindE_def)

lemma bindE_cong [fundef_cong]:
  "m = m' \<Longrightarrow> (\<And>x. m' = Inr x \<Longrightarrow> f x = g x) \<Longrightarrow> bindE m f = bindE m' g"
  by (cases m') (simp_all add: bindE_def)

lemma bindE_eq_Inr: "bindE m f = Inr y \<longleftrightarrow> (\<exists>x. m = Inr x \<and> f x = Inr y)"
  by (cases m) simp_all

section \<open>Values\<close>

type_synonym byte = "8 word"
type_synonym jsstring = "16 word list"

text \<open>
  A property of an array is either a plain value or an accessor whose getter throws
  (\<open>Object.defineProperty(values, i, { get: () => { throw value } })\<close>).
\<close>

datatype 'a slot = Value 'a | Getter error

datatype val =
    VNull
  | VBool bool
  | VNumber int
  | VBigNumber int
  | VString jsstring
  | VBytes "byte list"
  | VArray "val slot list" "(string \<times> val slot) list"
  | VObject "(string \<times> val) list"
  | VIndexed val

definition widen :: "string \<Rightarrow> jsstring" where
  "widen s = map (\<lambda>c. of_nat (of_char c)) s"

definition narrow :: "jsstring \<Rightarrow> string option" where
  "narrow s = (if \<forall>c \<in> set s. unat c < 256 then Some (map (\<lambda>c. char_of (unat c)) s) else None)"

definition plainArray :: "val list \<Rightarrow> val" where
  "plainArray vs = VArray (map Value vs) []"

text \<open>Whether a value is truthy.\<close>

definition truthy :: "val \<Rightarrow> bool" where
  "truthy v = (case v of
      VNull \<Rightarrow> False
    | VBool b \<Rightarrow> b
    | VNumber n \<Rightarrow> n \<noteq> 0
    | VString s \<Rightarrow> s \<noteq> []
    | _ \<Rightarrow> True)"

text \<open>
  Reading a property of a value under a name that is neither an array index nor
  \<open>length\<close> and that no prototype defines: an own property of a plain object, a
  named property of an array, a field of an \<open>Indexed\<close>. A property that is
  missing reads as \<open>undefined\<close>.
\<close>

fun property :: "val \<Rightarrow> string \<Rightarrow> error + val" where
  "property (VObject kvs) k = Inr (case map_of kvs k of None \<Rightarrow> VNull | Some v \<Rightarrow> v)"
| "property (VArray slots named) k =
     (case map_of named k of None \<Rightarrow> Inr VNull | Some (Value v) \<Rightarrow> Inr v | Some (Getter e) \<Rightarrow> Inl e)"
| "property (VIndexed h) k =
     Inr (if k = ''hash'' then h else if k = ''_isIndexed'' then VBool True else VNull)"
| "property v k = Inr VNull"

section \<open>Decimal and hexadecimal text\<close>

definition HexCharacters :: string where
  "HexCharacters = ''0123456789abcdef''"

definition charCode :: "char \<Rightarrow> nat" where
  "charCode c = of_char c"

definition isDigit :: "char \<Rightarrow> bool" where
  "isDigit c = (48 \<le> charCode c \<and> charCode c \<le> 57)"

definition isLowerHex :: "char \<Rightarrow> bool" where
  "isLowerHex c = (97 \<le> charCode c \<and> charCode c \<le> 102)"

definition isUpperHex :: "char \<Rightarrow> bool" where
  "isUpperHex c = (65 \<le> charCode c \<and> charCode c \<le> 70)"

definition isHexDigit :: "char \<Rightarrow> bool" where
  "isHexDigit c = (isDigit c \<or> isLowerHex c \<or> isUpperHex c)"

definition hexDigitValue :: "char \<Rightarrow> nat" where
  "hexDigitValue c =
     (if isDigit c then charCode c - 48
      else if isLowerHex c then charCode c - 87
      else charCode c - 55)"

definition parseHex :: "string \<Rightarrow> nat" where
  "parseHex s = foldl (\<lambda>a c. a * 16 + hexDigitValue c) 0 s"

definition parseDecimal :: "string \<Rightarrow> nat" where
  "parseDecimal s = foldl (\<lambda>a c. a * 10 + (charCode c - 48)) 0 s"

function showNat :: "nat \<Rightarrow> string" where
  "showNat n = (if n < 10 then [char_of (48 + n)] else showNat (n div 10) @ [char_of (48 + n mod 10)])"
  by pat_completeness auto
termination
  by (relation "measure id") auto

declare showNat.simps [simp del]

text \<open>\<open>isHexString(value, length?)\<close>, lines 753--761, on a string.\<close>

definition isHexString :: "string \<Rightarrow> nat option \<Rightarrow> bool" where
  "isHexString v len =
     (if \<not> (take 2 v = ''0x'' \<and> list_all isHexDigit (drop 2 v)) then False
      else (case len of
              None \<Rightarrow> True
            | Some n \<Rightarrow> \<not> (n \<noteq> 0 \<and> length v \<noteq> 2 + 2 * n)))"

text \<open>\<open>hexlify\<close> on bytes, lines 838--845.\<close>

definition hexlify :: "byte list \<Rightarrow> string" where
  "hexlify bs =
     ''0x'' @ concat (map (\<lambda>v. [HexCharacters ! (unat v div 16), HexCharacters ! (unat v mod 16)]) bs)"

text \<open>\<open>arrayify\<close> on a string, lines 896--914 (no options are ever passed).\<close>

fun hexPairs :: "string \<Rightarrow> byte list" where
  "hexPairs (a # b # rest) = of_nat (hexDigitValue a * 16 + hexDigitValue b) # hexPairs rest"
| "hexPairs _ = []"

definition arrayifyString :: "string \<Rightarrow> error + byte list" where
  "arrayifyString v =
     (if isHexString v None then
        (let hex = drop 2 v in
         if length hex mod 2 \<noteq> 0 then throwArgumentError ''hex data is odd-length''
         else Inr (hexPairs hex))
      else throwArgumentError ''invalid arrayify value'')"

section \<open>The runtime\<close>


text \<open>
  What the file takes from its runtime: \<open>keccak_256\<close> is the digest function of the
  imported \<open>js-sha3\<close> (as bytes; the library returns their hex spelling), and
  \<open>inherited\<close> tells which property names every array inherits from its
  prototype (\<open>map\<close>, \<open>push\<close>, \<open>constructor\<close>, ...), and
  \<open>objectInherited\<close> which names every plain object inherits
  (\<open>toString\<close>, \<open>constructor\<close>, ...): a lookup \<open>table[name]\<close>
  finds those too; \<open>stringify\<close> is the text that \<open>JSON.stringify\<close> makes
  of a value that is not a string of 8-bit characters.
\<close>

record platform =
  keccak_256 :: "byte list \<Rightarrow> byte list"
  inherited :: "string \<Rightarrow> bool"
  objectInherited :: "string \<Rightarrow> bool"
  stringify :: "val \<Rightarrow> string"


section \<open>The type parser (lines 359--579, 609--618)\<close>

record ParseState =
  allowArray :: bool
  allowName :: bool
  allowParams :: bool
  allowType :: bool
  readArray :: bool

text \<open>
  A finished node of the parse tree, and a node under construction: the latter still has
  its \<open>state\<close>, and the nodes of its \<open>components\<close> that are already closed.
  The chain of \<open>parent\<close> pointers is the list of frames above the current one.
\<close>

datatype ParseNode =
  ParseNode (pn_type: string) (pn_name: string) (pn_indexed: "bool option")
            (pn_components: "ParseNode list option")

record frame =
  f_type :: string
  f_name :: string
  f_indexed :: "bool option"
  f_components :: "ParseNode list option"
  f_state :: ParseState

definition ModifiersBytes :: "platform \<Rightarrow> string \<Rightarrow> bool" where
  "ModifiersBytes P name = (name \<in> set [''calldata'', ''memory'', ''storage''] \<or> objectInherited P name)"

definition ModifiersNest :: "platform \<Rightarrow> string \<Rightarrow> bool" where
  "ModifiersNest P name = (name \<in> set [''calldata'', ''memory''] \<or> objectInherited P name)"

definition checkModifier :: "platform \<Rightarrow> string \<Rightarrow> string \<Rightarrow> error + bool" where
  "checkModifier P type name =
     (if (type = ''bytes'' \<or> type = ''string'') \<and> ModifiersBytes P name then Inr True
      else if \<not> (type = ''bytes'' \<or> type = ''string'') \<and> type = ''address'' \<and> name = ''payable'' then Inr True
      else if \<not> (type = ''bytes'' \<or> type = ''string'') \<and> type \<noteq> ''address''
              \<and> (CHR ''['' \<in> set type \<or> type = ''tuple'') \<and> ModifiersNest P name then Inr True
      else if ModifiersBytes P name \<or> name = ''payable'' then throwArgumentError ''invalid modifier''
      else Inr False)"

definition verifyType :: "string \<Rightarrow> string" where
  "verifyType type =
     (if take 4 type = ''uint'' \<and> (case drop 4 type of [] \<Rightarrow> True | c # _ \<Rightarrow> \<not> (49 \<le> charCode c \<and> charCode c \<le> 57))
        then ''uint256'' @ drop 4 type
      else if take 3 type = ''int'' \<and> (case drop 3 type of [] \<Rightarrow> True | c # _ \<Rightarrow> \<not> (49 \<le> charCode c \<and> charCode c \<le> 57))
        then ''int256'' @ drop 3 type
      else type)"

definition unexpectedCharacter :: "nat \<Rightarrow> error + 'a" where
  "unexpectedCharacter i = throwArgumentError (''unexpected character at position '' @ showNat i)"

definition initialState :: ParseState where
  "initialState = \<lparr>allowArray = False, allowName = False, allowParams = False, allowType = True, readArray = False\<rparr>"

definition newNode :: "bool \<Rightarrow> frame" where
  "newNode allowIndexed =
     \<lparr>f_type = [], f_name = [], f_indexed = (if allowIndexed then Some False else None),
      f_components = None, f_state = initialState\<rparr>"

definition rootNode :: frame where
  "rootNode = \<lparr>f_type = [], f_name = [], f_indexed = None, f_components = None, f_state = initialState\<rparr>"

definition toNode :: "frame \<Rightarrow> ParseNode" where
  "toNode f = ParseNode (f_type f) (f_name f) (f_indexed f) (f_components f)"

text \<open>The statements shared by the cases \<open>')'\<close> and \<open>','\<close> (lines 434--448, 462--475).\<close>

definition closeNode :: "platform \<Rightarrow> bool \<Rightarrow> nat \<Rightarrow> frame \<Rightarrow> error + frame" where
  "closeNode P allowIndexed i node =
     bindE (if f_name node = ''indexed''
              then (if \<not> allowIndexed then unexpectedCharacter i
                    else Inr (node\<lparr>f_indexed := Some True, f_name := []\<rparr>))
            else Inr node) (\<lambda>node1.
     bindE (checkModifier P (f_type node1) (f_name node1)) (\<lambda>m.
       Inr ((if m then node1\<lparr>f_name := []\<rparr> else node1)\<lparr>f_type := verifyType (f_type (if m then node1\<lparr>f_name := []\<rparr> else node1))\<rparr>)))"

definition addComponent :: "frame \<Rightarrow> ParseNode \<Rightarrow> frame" where
  "addComponent parent child =
     parent\<lparr>f_components := Some ((case f_components parent of None \<Rightarrow> [] | Some cs \<Rightarrow> cs) @ [child])\<rparr>"

text \<open>
  One turn of the loop over the characters (lines 418--555): the current node and the
  frames of its ancestors, nearest first.
\<close>

definition parseStep ::
  "platform \<Rightarrow> bool \<Rightarrow> nat \<Rightarrow> char \<Rightarrow> frame \<times> frame list \<Rightarrow> error + (frame \<times> frame list)" where
  "parseStep P allowIndexed i c st =
     (case st of (node, parents) \<Rightarrow>
      let state = f_state node in
      if c = CHR ''('' then
        bindE (if allowType state \<and> f_type node = [] then Inr (node\<lparr>f_type := ''tuple''\<rparr>)
               else if \<not> allowParams state then unexpectedCharacter i
               else Inr node) (\<lambda>node1.
          Inr (newNode allowIndexed,
               node1\<lparr>f_state := (f_state node1)\<lparr>allowType := False\<rparr>,
                      f_type := verifyType (f_type node1),
                      f_components := Some []\<rparr> # parents))
      else if c = CHR '')'' then
        bindE (closeNode P allowIndexed i node) (\<lambda>child.
          case parents of
            [] \<Rightarrow> unexpectedCharacter i
          | parent # rest \<Rightarrow>
              Inr ((addComponent parent (toNode child))
                     \<lparr>f_state := (f_state parent)\<lparr>allowParams := False, allowName := True, allowArray := True\<rparr>\<rparr>,
                   rest))
      else if c = CHR '','' then
        bindE (closeNode P allowIndexed i node) (\<lambda>child.
          case parents of
            [] \<Rightarrow> Inl (Error TypeError ''Cannot read properties of undefined (reading components)'' None)
          | parent # rest \<Rightarrow> Inr (newNode allowIndexed, addComponent parent (toNode child) # rest))
      else if c = CHR '' '' then
        (let node1 = (if allowType state \<and> f_type node \<noteq> []
                        then node\<lparr>f_type := verifyType (f_type node),
                                  f_state := state\<lparr>allowType := False, allowName := True, allowParams := True\<rparr>\<rparr>
                      else node);
             state1 = f_state node1 in
         if allowName state1 \<and> f_name node1 \<noteq> [] then
           (if f_name node1 = ''indexed'' then
              (if \<not> allowIndexed then unexpectedCharacter i
               else if f_indexed node1 = Some True then unexpectedCharacter i
               else Inr (node1\<lparr>f_indexed := Some True, f_name := []\<rparr>, parents))
            else
              bindE (checkModifier P (f_type node1) (f_name node1)) (\<lambda>m.
                if m then Inr (node1\<lparr>f_name := []\<rparr>, parents)
                else Inr (node1\<lparr>f_state := state1\<lparr>allowName := False\<rparr>\<rparr>, parents)))
         else Inr (node1, parents))
      else if c = CHR ''['' then
        (if \<not> allowArray state then unexpectedCharacter i
         else Inr (node\<lparr>f_type := f_type node @ [c],
                        f_state := state\<lparr>allowArray := False, allowName := False, readArray := True\<rparr>\<rparr>, parents))
      else if c = CHR '']'' then
        (if \<not> readArray state then unexpectedCharacter i
         else Inr (node\<lparr>f_type := f_type node @ [c],
                        f_state := state\<lparr>readArray := False, allowArray := True, allowName := True\<rparr>\<rparr>, parents))
      else
        (if allowType state then
           Inr (node\<lparr>f_type := f_type node @ [c],
                     f_state := state\<lparr>allowParams := True, allowArray := True\<rparr>\<rparr>, parents)
         else if allowName state then
           Inr (node\<lparr>f_name := f_name node @ [c], f_state := state\<lparr>allowArray := False\<rparr>\<rparr>, parents)
         else if readArray state then
           Inr (node\<lparr>f_type := f_type node @ [c]\<rparr>, parents)
         else unexpectedCharacter i))"

fun parseLoop ::
  "platform \<Rightarrow> bool \<Rightarrow> nat \<Rightarrow> string \<Rightarrow> frame \<times> frame list \<Rightarrow> error + (frame \<times> frame list)" where
  "parseLoop P allowIndexed i [] st = Inr st"
| "parseLoop P allowIndexed i (c # rest) st =
     bindE (parseStep P allowIndexed i c st) (parseLoop P allowIndexed (Suc i) rest)"

definition isWhitespace :: "char \<Rightarrow> bool" where
  "isWhitespace c = (charCode c \<in> set [9, 10, 11, 12, 13, 32, 160])"

definition parseParamType :: "platform \<Rightarrow> string \<Rightarrow> bool \<Rightarrow> error + ParseNode" where
  "parseParamType P originalParam allowIndexed =
     (let param = map (\<lambda>c. if isWhitespace c then CHR '' '' else c) originalParam in
      bindE (parseLoop P allowIndexed 0 param (rootNode, [])) (\<lambda>(node, parents).
        if parents \<noteq> [] then throwArgumentError ''unexpected eof''
        else
          bindE (if f_name node = ''indexed'' then
                   (if \<not> allowIndexed then unexpectedCharacter (length originalParam - 7)
                    else if f_indexed node = Some True then unexpectedCharacter (length originalParam - 7)
                    else Inr (node\<lparr>f_indexed := Some True, f_name := []\<rparr>))
                 else
                   bindE (checkModifier P (f_type node) (f_name node)) (\<lambda>m.
                     Inr (if m then node\<lparr>f_name := []\<rparr> else node))) (\<lambda>node1.
            Inr (toNode (node1\<lparr>f_type := verifyType (f_type node1)\<rparr>)))))"

section \<open>BigNumber (lines 1005--1340)\<close>

definition MAX_SAFE :: int where
  "MAX_SAFE = 0x1fffffffffffff"

text \<open>Big-endian bytes and the number they spell.\<close>

definition beNat :: "byte list \<Rightarrow> nat" where
  "beNat bs = foldl (\<lambda>a b. a * 256 + unat b) 0 bs"

function beBytes :: "nat \<Rightarrow> byte list" where
  "beBytes n = (if n = 0 then [] else beBytes (n div 256) @ [of_nat (n mod 256)])"
  by pat_completeness auto
termination
  by (relation "measure id") auto

declare beBytes.simps [simp del]

text \<open>
  \<open>isBytes\<close>, lines 762--784: a \<open>Uint8Array\<close>, or any array-like whose
  elements are integers from 0 to 255. Reading an element through a throwing getter
  throws. The comparison \<open>i < value.length\<close> converts a \<open>length\<close> that
  is no number: \<open>true\<close> to 1 and \<open>false\<close> to 0; the conversion of a
  string or of an object is not followed, and there the model stops with an error of its
  own, so that it gives an answer only where it follows the code.
\<close>

definition unmodelledLength :: error where
  "unmodelledLength = Error PlainError ''length is neither a number nor a boolean'' None"

fun bytesOfSlots :: "val slot list \<Rightarrow> error + byte list option" where
  "bytesOfSlots [] = Inr (Some [])"
| "bytesOfSlots (Getter e # _) = Inl e"
| "bytesOfSlots (Value (VNumber v) # rest) =
     (if v < 0 \<or> v \<ge> 256 then Inr None
      else bindE (bytesOfSlots rest) (\<lambda>r. Inr (map_option (\<lambda>bs. of_nat (nat v) # bs) r)))"
| "bytesOfSlots (Value _ # _) = Inr None"

text \<open>
  An array-like plain object: the loop \<open>for (let i = 0; i < value.length; i++)\<close>
  over the properties \<open>0\<close>, \<open>1\<close>, ... of an object whose
  \<open>length\<close> is a number.
\<close>

definition bytesOfObject :: "(string \<times> val) list \<Rightarrow> nat \<Rightarrow> byte list option" where
  "bytesOfObject kvs n =
     those (map (\<lambda>i. case map_of kvs (showNat i) of
                          Some (VNumber v) \<Rightarrow> if v < 0 \<or> v \<ge> 256 then None else Some (of_nat (nat v))
                        | _ \<Rightarrow> None) [0 ..< n])"

fun isBytes :: "val \<Rightarrow> error + byte list option" where
  "isBytes (VBytes bs) = Inr (Some bs)"
| "isBytes (VArray slots named) = bytesOfSlots slots"
| "isBytes (VObject kvs) =
     (case map_of kvs ''length'' of
        None \<Rightarrow> Inr None
      | Some VNull \<Rightarrow> Inr None
      | Some (VNumber n) \<Rightarrow> Inr (bytesOfObject kvs (nat n))
      | Some (VBool b) \<Rightarrow> Inr (bytesOfObject kvs (if b then 1 else 0))
      | Some _ \<Rightarrow> Inl unmodelledLength)"
| "isBytes _ = Inr None"

text \<open>
  \<open>toHex\<close> on a string, lines 1025--1064: it knows the prefix \<open>0x\<close> only,
  and puts it before any other string.
\<close>

function trimHex :: "string \<Rightarrow> string" where
  "trimHex v = (if length v > 4 \<and> take 4 v = ''0x00'' then trimHex (''0x'' @ drop 4 v) else v)"
  by pat_completeness auto
termination
  by (relation "measure length") auto

declare trimHex.simps [simp del]

definition toHexUnsigned :: "string \<Rightarrow> string" where
  "toHexUnsigned v =
     (let v1 = (if take 2 v \<noteq> ''0x'' then ''0x'' @ v else v) in
      if v1 = ''0x'' then ''0x00''
      else trimHex (if length v1 mod 2 \<noteq> 0 then ''0x0'' @ drop 2 v1 else v1))"

definition toHex :: "string \<Rightarrow> error + string" where
  "toHex v =
     (if take 1 v = ''-'' then
        (if take 1 (drop 1 v) = ''-'' then throwArgumentError ''invalid hex''
         else
           (let h = toHexUnsigned (drop 1 v) in
            Inr (if h = ''0x00'' then h else ''-'' @ h)))
      else Inr (toHexUnsigned v))"

text \<open>
  \<open>toHexString()\<close> of a BigNumber made from an integer: the spelling that
  \<open>toHex\<close> gives to \<open>value.toString(16)\<close> of the library.
\<close>

definition toHexString :: "int \<Rightarrow> string" where
  "toHexString n =
     (if n < 0 then ''-'' @ hexlify (beBytes (nat (- n)))
      else if n = 0 then ''0x00''
      else hexlify (beBytes (nat n)))"

text \<open>
  \<open>toBN\<close>, lines 1008--1014: the integer that the library \<open>bn\<close> reads
  from the digits of \<open>_hex\<close> in base 16. Its digit of a character that is no
  hex digit is \<open>(c - 48) & 0xf\<close>.
\<close>

definition bnDigit :: "char \<Rightarrow> nat" where
  "bnDigit c =
     (if isLowerHex c then charCode c - 87
      else if isUpperHex c then charCode c - 55
      else (charCode c + 208) mod 16)"

definition bnHex :: "string \<Rightarrow> nat" where
  "bnHex s = foldl (\<lambda>a c. a * 16 + bnDigit c) 0 s"

definition toBN :: "string \<Rightarrow> int" where
  "toBN hex = (if take 1 hex = ''-'' then - int (bnHex (drop 3 hex)) else int (bnHex (drop 2 hex)))"

text \<open>
  \<open>BigNumber.from\<close>, lines 1267--1331: the \<open>_hex\<close> of the BigNumber it
  makes. Bytes go through \<open>hexlify\<close> (line 1303), which first calls a truthy
  \<open>toHexString\<close> of the value (lines 821--823). A BigNumber that is given as a value is identified with the integer it denotes,
  and its \<open>_hex\<close> is the spelling of that integer. The first pattern ignores case,
  so it accepts the prefix \<open>0X\<close>; a decimal string is read by the library.
\<close>

definition BigNumber_hexOfString :: "string \<Rightarrow> error + string" where
  "BigNumber_hexOfString v =
     (let neg = (take 1 v = ''-'');
          body = (if neg then drop 1 v else v);
          sign = (if neg then - 1 else 1) in
      if (take 2 body = ''0x'' \<or> take 2 body = ''0X'') \<and> drop 2 body \<noteq> [] \<and> list_all isHexDigit (drop 2 body)
        then toHex v
      else if body \<noteq> [] \<and> list_all isDigit body
        then Inr (toHexString (sign * int (parseDecimal body)))
      else throwArgumentError ''invalid BigNumber string'')"

text \<open>
  The last branch (lines 1306--1327) for a value that is no BigNumber, string, number or
  byte array: a truthy \<open>toHexString\<close> is called, and no value of the model is a
  function; otherwise \<open>_hex\<close>, or \<open>hex\<close> of an object of type
  \<open>BigNumber\<close>, is read.
\<close>

definition hexOfObject :: "val \<Rightarrow> error + string" where
  "hexOfObject v =
     (if \<not> truthy v then throwArgumentError ''invalid BigNumber value''
      else
        bindE (property v ''toHexString'') (\<lambda>m.
          if truthy m then Inl (Error TypeError ''anyValue.toHexString is not a function'' None)
          else
            bindE (property v ''_hex'') (\<lambda>h0.
            bindE (if h0 = VNull then
                     bindE (property v ''type'') (\<lambda>t.
                       if t = VString (widen ''BigNumber'') then property v ''hex'' else Inr VNull)
                   else Inr h0) (\<lambda>hex.
              (case hex of
                 VString s \<Rightarrow>
                   (case narrow s of
                      None \<Rightarrow> throwArgumentError ''invalid BigNumber value''
                    | Some h \<Rightarrow>
                        if isHexString h None \<or> (take 1 h = ''-'' \<and> isHexString (drop 1 h) None)
                          then BigNumber_hexOfString h
                        else throwArgumentError ''invalid BigNumber value'')
               | _ \<Rightarrow> throwArgumentError ''invalid BigNumber value'')))))"

fun BigNumber_hex :: "val \<Rightarrow> error + string" where
  "BigNumber_hex (VBigNumber n) = Inr (toHexString n)"
| "BigNumber_hex (VString s) =
     (case narrow s of
        None \<Rightarrow> throwArgumentError ''invalid BigNumber string''
      | Some v \<Rightarrow> BigNumber_hexOfString v)"
| "BigNumber_hex (VNumber v) =
     (if v \<ge> MAX_SAFE \<or> v \<le> - MAX_SAFE then throwFault ''overflow'' ''BigNumber.from''
      else Inr (toHexString v))"
| "BigNumber_hex v =
     bindE (isBytes v) (\<lambda>b. case b of
        Some bs \<Rightarrow>
          bindE (property v ''toHexString'') (\<lambda>m.
            if truthy m then Inl (Error TypeError ''value.toHexString is not a function'' None)
            else BigNumber_hexOfString (hexlify bs))
      | None \<Rightarrow> hexOfObject v)"

text \<open>
  The integer that the arithmetic of the file, which goes through \<open>toBN\<close>,
  reads from \<open>BigNumber.from(value)\<close>.
\<close>

definition BigNumber_from :: "val \<Rightarrow> error + int" where
  "BigNumber_from v = bindE (BigNumber_hex v) (\<lambda>hex. Inr (toBN hex))"

definition BigNumber_fromBytes :: "byte list \<Rightarrow> error + int" where
  "BigNumber_fromBytes bs = bindE (BigNumber_hexOfString (hexlify bs)) (\<lambda>hex. Inr (toBN hex))"

text \<open>
  The operations of the imported big-integer library \<open>bn\<close> that the file calls,
  on integers. \<open>inotn(width)\<close> complements the low \<open>width\<close> bits of the
  magnitude, clears the rest of the 26-bit limb that holds bit \<open>width - 1\<close>, and
  keeps the limbs above and the sign.
\<close>

definition bn_notn :: "nat \<Rightarrow> int \<Rightarrow> int" where
  "bn_notn width n =
     (let m = \<bar>n\<bar>;
          limbs = 2 ^ (26 * ((width + 25) div 26));
          r = (m div limbs) * limbs + (2 ^ width - 1 - m mod 2 ^ width)
      in if n < 0 then - r else r)"

definition bn_testn :: "nat \<Rightarrow> int \<Rightarrow> bool" where
  "bn_testn b n = ((\<bar>n\<bar> div 2 ^ b) mod 2 = 1)"

definition bn_toTwos :: "nat \<Rightarrow> int \<Rightarrow> int" where
  "bn_toTwos width n = (if n < 0 then bn_notn width \<bar>n\<bar> + 1 else n)"

definition bn_fromTwos :: "nat \<Rightarrow> int \<Rightarrow> error + int" where
  "bn_fromTwos width n =
     (if width = 0 then Inl (Error PlainError ''Assertion failed'' None)
      else if bn_testn (width - 1) n then Inr (- (bn_notn width n + 1))
      else Inr n)"

definition bn_div :: "int \<Rightarrow> int \<Rightarrow> int" where
  "bn_div a b = sgn a * sgn b * (\<bar>a\<bar> div \<bar>b\<bar>)"

definition bn_umod :: "int \<Rightarrow> int \<Rightarrow> error + int" where
  "bn_umod a b = (if b = 0 then Inl (Error PlainError ''Assertion failed'' None) else Inr (a mod \<bar>b\<bar>))"

definition bn_toNumber :: "int \<Rightarrow> error + int" where
  "bn_toNumber n =
     (if \<bar>n\<bar> < 2 ^ 53 then Inr n
      else Inl (Error PlainError ''Number can only safely store up to 53 bits'' None))"

text \<open>The methods of class BigNumber that the codec and the claims use.\<close>

definition BigNumber_fromTwos :: "int \<Rightarrow> nat \<Rightarrow> error + int" where
  "BigNumber_fromTwos this v = bn_fromTwos v this"

definition BigNumber_toTwos :: "int \<Rightarrow> nat \<Rightarrow> int" where
  "BigNumber_toTwos this v = bn_toTwos v this"

definition BigNumber_div :: "int \<Rightarrow> val \<Rightarrow> error + int" where
  "BigNumber_div this other =
     bindE (BigNumber_from other) (\<lambda>other'.
       if other' = 0 then throwFault ''division by zero'' ''div''
       else Inr (bn_div this other'))"

definition BigNumber_mod :: "int \<Rightarrow> val \<Rightarrow> error + int" where
  "BigNumber_mod this other =
     bindE (BigNumber_from other) (\<lambda>v.
       if v < 0 then throwFault ''cannot modulo negative values'' ''mod''
       else bn_umod this v)"

definition BigNumber_mask :: "int \<Rightarrow> int \<Rightarrow> error + int" where
  "BigNumber_mask this v =
     (if this < 0 \<or> v < 0 then throwFault ''cannot mask negative values'' ''mask''
      else Inr (this mod 2 ^ nat v))"

definition BigNumber_toNumber :: "int \<Rightarrow> error + int" where
  "BigNumber_toNumber this =
     (case bn_toNumber this of
        Inl e \<Rightarrow> throwFault ''overflow'' ''toNumber''
      | Inr n \<Rightarrow> Inr n)"

definition MaxUint256 :: int where
  "MaxUint256 = 2 ^ 256 - 1"

text \<open>
  \<open>arrayify\<close> of a BigNumber, lines 892--914: \<open>toHexString()\<close> of a negative
  number starts with a minus sign and is no hex string; zero is spelt \<open>0x00\<close>.
\<close>

definition arrayifyBigNumber :: "int \<Rightarrow> error + byte list" where
  "arrayifyBigNumber n =
     (if n < 0 then throwArgumentError ''invalid arrayify value''
      else if n = 0 then Inr [0]
      else Inr (beBytes (nat n)))"

section \<open>Writer (lines 936--1004) and Reader (lines 1341--1411)\<close>

definition wordSize :: nat where
  "wordSize = 32"

record Writer =
  w_data :: "byte list list"
  w_dataLength :: nat

definition newWriter :: Writer where
  "newWriter = \<lparr>w_data = [], w_dataLength = 0\<rparr>"

definition padding :: "byte list" where
  "padding = replicate wordSize 0"

definition writeData :: "Writer \<Rightarrow> byte list \<Rightarrow> Writer" where
  "writeData w d = w\<lparr>w_data := w_data w @ [d], w_dataLength := w_dataLength w + length d\<rparr>"

definition appendWriter :: "Writer \<Rightarrow> Writer \<Rightarrow> Writer" where
  "appendWriter w writer = writeData w (concat (w_data writer))"

definition writeBytes :: "Writer \<Rightarrow> byte list \<Rightarrow> Writer" where
  "writeBytes w bytes =
     (let paddingOffset = length bytes mod wordSize in
      if paddingOffset \<noteq> 0 then writeData w (bytes @ drop paddingOffset padding)
      else writeData w bytes)"

text \<open>
  \<open>_getValue\<close>: \<open>arrayify\<close> of the BigNumber reads its \<open>_hex\<close>.
\<close>

definition getValue :: "val \<Rightarrow> error + byte list" where
  "getValue v =
     bindE (BigNumber_hex v) (\<lambda>hex.
     bindE (arrayifyString hex) (\<lambda>bytes.
       if length bytes > wordSize then throwError ''value out-of-bounds'' BUFFER_OVERRUN
       else if length bytes mod wordSize \<noteq> 0
         then Inr (drop (length bytes mod wordSize) padding @ bytes)
       else Inr bytes))"

definition writeValue :: "Writer \<Rightarrow> val \<Rightarrow> error + Writer" where
  "writeValue w v = bindE (getValue v) (\<lambda>bytes. Inr (writeData w bytes))"

definition writeUpdatableValue :: "Writer \<Rightarrow> nat \<times> Writer" where
  "writeUpdatableValue w =
     (length (w_data w),
      w\<lparr>w_data := w_data w @ [padding], w_dataLength := w_dataLength w + wordSize\<rparr>)"

definition updateValue :: "Writer \<Rightarrow> nat \<Rightarrow> val \<Rightarrow> error + Writer" where
  "updateValue w off v = bindE (getValue v) (\<lambda>bytes. Inr (w\<lparr>w_data := (w_data w)[off := bytes]\<rparr>))"

definition writerData :: "Writer \<Rightarrow> string" where
  "writerData w = hexlify (concat (w_data w))"

record Reader =
  r_data :: "byte list"
  r_offset :: nat
  r_allowLoose :: bool

definition newReader :: "byte list \<Rightarrow> bool \<Rightarrow> Reader" where
  "newReader d loose = \<lparr>r_data = d, r_offset = 0, r_allowLoose = loose\<rparr>"

text \<open>
  \<open>Reader.coerce\<close>, lines 1366--1380, for a reader without a coerce function (the
  default coder has none): a value of a type \<open>u?int<digits>\<close> with at most 48 bits
  is turned into a number.
\<close>

definition coerceMatch :: "string \<Rightarrow> bool" where
  "coerceMatch name =
     (let r = (if take 1 name = ''u'' then drop 1 name else name) in
      take 3 r = ''int'' \<and> drop 3 r \<noteq> [] \<and> list_all isDigit (drop 3 r) \<and> parseDecimal (drop 3 r) \<le> 48)"

definition coerce :: "string \<Rightarrow> val \<Rightarrow> error + val" where
  "coerce name v =
     (if coerceMatch name then
        (case v of
           VBigNumber n \<Rightarrow> bindE (BigNumber_toNumber n) (\<lambda>k. Inr (VNumber k))
         | _ \<Rightarrow> Inl (Error TypeError ''value.toNumber is not a function'' None))
      else Inr v)"

definition peekBytes :: "Reader \<Rightarrow> nat \<Rightarrow> nat \<Rightarrow> bool \<Rightarrow> error + byte list" where
  "peekBytes r off len loose =
     (let alignedLength = ((len + wordSize - 1) div wordSize) * wordSize in
      if r_offset r + alignedLength > length (r_data r) then
        (if r_allowLoose r \<and> loose \<and> r_offset r + len \<le> length (r_data r)
           then Inr (take len (drop (r_offset r) (r_data r)))
         else throwError ''data out-of-bounds'' BUFFER_OVERRUN)
      else Inr (take alignedLength (drop (r_offset r) (r_data r))))"

definition subReader :: "Reader \<Rightarrow> nat \<Rightarrow> Reader" where
  "subReader r off = newReader (drop (r_offset r + off) (r_data r)) (r_allowLoose r)"

text \<open>
  A method that reads moves the reader's cursor and may throw after it has moved it; the
  caller that catches the exception goes on with the reader as it then is. So a reading
  returns the outcome together with the reader.
\<close>

type_synonym 'a reading = "Reader \<Rightarrow> (error + 'a) \<times> Reader"

definition bindR :: "'a reading \<Rightarrow> ('a \<Rightarrow> 'b reading) \<Rightarrow> 'b reading" where
  "bindR m f = (\<lambda>r. case m r of (Inl e, r') \<Rightarrow> (Inl e, r') | (Inr x, r') \<Rightarrow> f x r')"

definition liftR :: "error + 'a \<Rightarrow> 'a reading" where
  "liftR m = (\<lambda>r. (m, r))"

lemma bindR_cong [fundef_cong]:
  "m r = m' r' \<Longrightarrow> (\<And>x r1. m' r' = (Inr x, r1) \<Longrightarrow> f x r1 = g x r1) \<Longrightarrow> bindR m f r = bindR m' g r'"
  by (auto simp: bindR_def split: prod.splits sum.splits)

definition readBytes :: "nat \<Rightarrow> bool \<Rightarrow> (byte list) reading" where
  "readBytes len loose r =
     (case peekBytes r 0 len loose of
        Inl e \<Rightarrow> (Inl e, r)
      | Inr bytes \<Rightarrow> (Inr (take len bytes), r\<lparr>r_offset := r_offset r + length bytes\<rparr>))"

definition readValue :: "int reading" where
  "readValue = bindR (readBytes wordSize False) (\<lambda>bytes. liftR (BigNumber_fromBytes bytes))"

section \<open>Addresses (lines 1447--1586)\<close>

definition keccak256 :: "platform \<Rightarrow> byte list \<Rightarrow> string" where
  "keccak256 P d = hexlify (keccak_256 P d)"

text \<open>
  \<open>toLowerCase\<close> and \<open>toUpperCase\<close>: the file applies them only to strings
  it has already matched against an ASCII pattern.
\<close>

definition toLowerChar :: "char \<Rightarrow> char" where
  "toLowerChar c = (if 65 \<le> charCode c \<and> charCode c \<le> 90 then char_of (charCode c + 32) else c)"

definition toUpperChar :: "char \<Rightarrow> char" where
  "toUpperChar c = (if 97 \<le> charCode c \<and> charCode c \<le> 122 then char_of (charCode c - 32) else c)"

definition toLowerCase :: "string \<Rightarrow> string" where
  "toLowerCase s = map toLowerChar s"

definition toUpperCase :: "string \<Rightarrow> string" where
  "toUpperCase s = map toUpperChar s"

text \<open>
  The loop of \<open>getChecksumAddress\<close> (lines 1467--1474): two characters for each
  byte of the hash; a byte missing from the hash reads as \<open>undefined\<close>, whose
  nibbles are 0.
\<close>

fun checksumChars :: "string \<Rightarrow> byte list \<Rightarrow> string" where
  "checksumChars (a # b # rest) hashed =
     (let h = (case hashed of [] \<Rightarrow> 0 | x # _ \<Rightarrow> unat x) in
      (if h div 16 \<ge> 8 then toUpperChar a else a)
      # (if h mod 16 \<ge> 8 then toUpperChar b else b)
      # checksumChars rest (tl hashed))"
| "checksumChars rest hashed = rest"

definition getChecksumAddress :: "platform \<Rightarrow> string \<Rightarrow> error + string" where
  "getChecksumAddress P address =
     (if \<not> isHexString address (Some 20) then throwArgumentError ''invalid address''
      else
        (let chars = drop 2 (toLowerCase address);
             expanded = map (\<lambda>c. of_nat (charCode c)) chars in
         bindE (arrayifyString (keccak256 P expanded)) (\<lambda>hashed.
           Inr (''0x'' @ checksumChars chars hashed))))"

text \<open>\<open>ibanChecksum\<close>, lines 1489--1528; \<open>safeDigits\<close> is 15.\<close>

definition safeDigits :: nat where
  "safeDigits = 15"

definition ibanLookup :: "char \<Rightarrow> string" where
  "ibanLookup c =
     (if isDigit c then [c]
      else if 65 \<le> charCode c \<and> charCode c \<le> 90 then showNat (charCode c - 55)
      else ''undefined'')"

function ibanReduce :: "string \<Rightarrow> string" where
  "ibanReduce expanded =
     (if length expanded \<ge> safeDigits
        then ibanReduce (showNat (parseDecimal (take safeDigits expanded) mod 97) @ drop safeDigits expanded)
      else expanded)"
  by pat_completeness auto

lemma length_showNat_small: "n < 100 \<Longrightarrow> length (showNat n) \<le> 2"
proof -
  assume n: "n < 100"
  show ?thesis
  proof (cases "n < 10")
    case True
    then show ?thesis by (subst showNat.simps) simp
  next
    case False
    have "n div 10 < 10" using n by simp
    then have "length (showNat (n div 10)) = 1" by (subst showNat.simps) simp
    then show ?thesis using False by (subst showNat.simps) simp
  qed
qed

termination ibanReduce
proof (relation "measure length")
  show "wf (measure length)" by simp
next
  fix expanded :: string
  assume a: "safeDigits \<le> length expanded"
  have "length (showNat (parseDecimal (take safeDigits expanded) mod 97)) \<le> 2"
    by (rule length_showNat_small) simp
  then show "(showNat (parseDecimal (take safeDigits expanded) mod 97) @ drop safeDigits expanded, expanded)
               \<in> measure length"
    using a by (simp add: safeDigits_def)
qed

declare ibanReduce.simps [simp del]

definition ibanChecksum :: "string \<Rightarrow> string" where
  "ibanChecksum address0 =
     (let address1 = toUpperCase address0;
          address = drop 4 address1 @ take 2 address1 @ ''00'';
          expanded = ibanReduce (concat (map ibanLookup address));
          checksum = showNat (98 - parseDecimal expanded mod 97)
      in if length checksum < 2 then ''0'' @ checksum else checksum)"

text \<open>\<open>_base36To16\<close>, line 1529: \<open>new BN(value, 36).toString(16)\<close>.\<close>

definition base36DigitValue :: "char \<Rightarrow> nat" where
  "base36DigitValue c =
     (let k = charCode c - 48 in
      if k \<ge> 49 then k - 49 + 10 else if k \<ge> 17 then k - 17 + 10 else k)"

function showHex :: "nat \<Rightarrow> string" where
  "showHex n = (if n < 16 then [HexCharacters ! n] else showHex (n div 16) @ [HexCharacters ! (n mod 16)])"
  by pat_completeness auto
termination
  by (relation "measure id") auto

declare showHex.simps [simp del]

definition base36To16 :: "string \<Rightarrow> string" where
  "base36To16 v = showHex (foldl (\<lambda>a c. a * 36 + base36DigitValue c) 0 v)"

text \<open>The three regular expressions of \<open>getAddress\<close>, lines 1539, 1548 and 1553.\<close>

definition matchesHexAddress :: "string \<Rightarrow> bool" where
  "matchesHexAddress a =
     (let b = (if take 2 a = ''0x'' then drop 2 a else a) in
      length b = 40 \<and> list_all isHexDigit b)"

definition matchesMixedCase :: "string \<Rightarrow> bool" where
  "matchesMixedCase a = (list_ex isUpperHex a \<and> list_ex isLowerHex a)"

definition isAlphaNumeric :: "char \<Rightarrow> bool" where
  "isAlphaNumeric c =
     (isDigit c \<or> (65 \<le> charCode c \<and> charCode c \<le> 90) \<or> (97 \<le> charCode c \<and> charCode c \<le> 122))"

definition matchesIcap :: "string \<Rightarrow> bool" where
  "matchesIcap a =
     (take 2 a = ''XE'' \<and> length (take 2 (drop 2 a)) = 2 \<and> list_all isDigit (take 2 (drop 2 a))
      \<and> (length (drop 4 a) = 30 \<or> length (drop 4 a) = 31) \<and> list_all isAlphaNumeric (drop 4 a))"

definition getAddress :: "platform \<Rightarrow> string \<Rightarrow> error + string" where
  "getAddress P address0 =
     (if matchesHexAddress address0 then
        (let address = (if take 2 address0 \<noteq> ''0x'' then ''0x'' @ address0 else address0) in
         bindE (getChecksumAddress P address) (\<lambda>result.
           if matchesMixedCase address \<and> result \<noteq> address
             then throwArgumentError ''bad address checksum''
           else Inr result))
      else if matchesIcap address0 then
        (if take 2 (drop 2 address0) \<noteq> ibanChecksum address0
           then throwArgumentError ''bad icap checksum''
         else
           (let result = base36To16 (drop 4 address0) in
            getChecksumAddress P (''0x'' @ replicate (40 - length result) CHR ''0'' @ result)))
      else throwArgumentError ''invalid address'')"

text \<open>\<open>hexZeroPad\<close>, lines 1570--1586, on a string.\<close>

definition hexZeroPad :: "string \<Rightarrow> nat \<Rightarrow> error + string" where
  "hexZeroPad v len =
     (if \<not> isHexString v None then throwArgumentError ''invalid hex string''
      else if length v > 2 * len + 2 then throwArgumentError ''value out of range''
      else Inr (''0x'' @ replicate (2 * len + 2 - length v) CHR ''0'' @ drop 2 v))"

section \<open>UTF-8 (lines 1646--1900)\<close>

text \<open>
  \<open>toUtf8Bytes\<close>, lines 1653--1690, on the UTF-16 code units of a string. The bit
  operations on the small non-negative numbers involved are written with \<open>div\<close>
  and \<open>mod\<close>: \<open>c >> 6\<close> is \<open>c div 64\<close>, \<open>c & 0x3f\<close> is
  \<open>c mod 64\<close>, \<open>(c & 0xfc00) == 0xd800\<close> is \<open>c div 1024 = 54\<close>, and
  \<open>x | 0x80\<close> adds 128 to an \<open>x\<close> below 64.
\<close>

definition invalidUtf8String :: error where
  "invalidUtf8String = Error PlainError ''invalid utf-8 string'' None"

fun toUtf8Bytes :: "jsstring \<Rightarrow> error + byte list" where
  "toUtf8Bytes [] = Inr []"
| "toUtf8Bytes (w # rest) =
     (let c = unat w in
      if c < 0x80 then
        bindE (toUtf8Bytes rest) (\<lambda>bs. Inr (of_nat c # bs))
      else if c < 0x800 then
        bindE (toUtf8Bytes rest) (\<lambda>bs. Inr (of_nat (c div 64 + 0xc0) # of_nat (c mod 64 + 0x80) # bs))
      else if c div 1024 = 54 then
        (case rest of
           [] \<Rightarrow> Inl invalidUtf8String
         | w2 # rest' \<Rightarrow>
             (let c2 = unat w2 in
              if c2 div 1024 \<noteq> 55 then Inl invalidUtf8String
              else
                (let pair = 0x10000 + (c mod 1024) * 1024 + c2 mod 1024 in
                 bindE (toUtf8Bytes rest') (\<lambda>bs.
                   Inr (of_nat (pair div 262144 + 0xf0)
                        # of_nat ((pair div 4096) mod 64 + 0x80)
                        # of_nat ((pair div 64) mod 64 + 0x80)
                        # of_nat (pair mod 64 + 0x80) # bs)))))
      else
        bindE (toUtf8Bytes rest) (\<lambda>bs.
          Inr (of_nat (c div 4096 + 0xe0) # of_nat ((c div 64) mod 64 + 0x80) # of_nat (c mod 64 + 0x80) # bs)))"

text \<open>\<open>_toUtf8String\<close>, lines 1691--1701.\<close>

definition codePointUnits :: "nat \<Rightarrow> jsstring" where
  "codePointUnits codePoint =
     (if codePoint \<le> 0xffff then [of_nat codePoint]
      else [of_nat (((codePoint - 0x10000) div 1024) mod 1024 + 0xd800),
            of_nat ((codePoint - 0x10000) mod 1024 + 0xdc00)])"

definition toUtf8String' :: "nat list \<Rightarrow> jsstring" where
  "toUtf8String' codePoints = concat (map codePointUnits codePoints)"

text \<open>
  \<open>getUtf8CodePoints\<close>, lines 1800--1897, with the default \<open>onError\<close>,
  \<open>errorFunc\<close>, which throws on every error. \<open>i\<close> is the index of the first
  byte of the list in the whole array. \<open>codePointAt\<close> is one turn of the
  loop: the code point that starts at \<open>b\<close> and the number of bytes it takes
  after \<open>b\<close>.
\<close>

definition utf8Error :: "nat \<Rightarrow> string \<Rightarrow> error + 'a" where
  "utf8Error off why = throwArgumentError (''invalid codepoint at offset '' @ showNat off @ ''; '' @ why)"

fun continuation :: "nat \<Rightarrow> nat \<Rightarrow> byte list \<Rightarrow> error + nat" where
  "continuation i res [] = Inr res"
| "continuation i res (nextChar # bs) =
     (if unat nextChar div 64 \<noteq> 2 then utf8Error i ''missing continuation byte''
      else continuation (Suc i) (res * 64 + unat nextChar mod 64) bs)"

definition codePointAt :: "nat \<Rightarrow> byte \<Rightarrow> byte list \<Rightarrow> error + (nat \<times> nat)" where
  "codePointAt i b rest =
     (let c = unat b in
      if c div 128 = 0 then Inr (c, 0)
      else if c div 32 \<noteq> 6 \<and> c div 16 \<noteq> 14 \<and> c div 8 \<noteq> 30 then
        (if c div 64 = 2 then utf8Error i ''unexpected continuation byte''
         else utf8Error i ''bad codepoint prefix'')
      else
        (let extraLength = (if c div 32 = 6 then 1 else if c div 16 = 14 then 2 else 3);
             overlongMask = (if c div 32 = 6 then 0x7f else if c div 16 = 14 then 0x7ff else 0xffff) in
         if extraLength > length rest then utf8Error i ''string overrun''
         else
           bindE (continuation (Suc i) (c mod 2 ^ (7 - extraLength)) (take extraLength rest)) (\<lambda>res.
             if res > 0x10ffff then utf8Error i ''out of UTF-8 range''
             else if res \<ge> 0xd800 \<and> res \<le> 0xdfff then utf8Error i ''UTF-16 surrogate''
             else if res \<le> overlongMask then utf8Error i ''overlong representation''
             else Inr (res, extraLength))))"

fun getUtf8CodePoints :: "nat \<Rightarrow> byte list \<Rightarrow> error + nat list" where
  "getUtf8CodePoints i [] = Inr []"
| "getUtf8CodePoints i (b # rest) =
     bindE (codePointAt i b rest) (\<lambda>(res, extraLength).
     bindE (getUtf8CodePoints (Suc i + extraLength) (drop extraLength rest)) (\<lambda>r. Inr (res # r)))"

definition toUtf8String :: "byte list \<Rightarrow> error + jsstring" where
  "toUtf8String bytes = bindE (getUtf8CodePoints 0 bytes) (\<lambda>cps. Inr (toUtf8String' cps))"

section \<open>Byte data of a value\<close>

text \<open>\<open>arrayify\<close>, lines 868--921, on a value.\<close>

fun arrayify :: "val \<Rightarrow> error + byte list" where
  "arrayify (VNumber v) =
     (if v < 0 \<or> v \<ge> 0x1fffffffffffff then throwError ''invalid arrayify value'' NUMERIC_FAULT
      else if v = 0 then Inr [0]
      else Inr (beBytes (nat v)))"
| "arrayify VNull = Inl (Error TypeError ''Cannot read properties of null (reading toHexString)'' None)"
| "arrayify (VString s) =
     (case narrow s of
        None \<Rightarrow> throwArgumentError ''invalid arrayify value''
      | Some h \<Rightarrow> arrayifyString h)"
| "arrayify (VBigNumber n) = arrayifyBigNumber n"
| "arrayify v =
     bindE (property v ''toHexString'') (\<lambda>m.
       if truthy m then Inl (Error TypeError ''value.toHexString is not a function'' None)
       else
         bindE (isBytes v) (\<lambda>b. case b of
            Some bs \<Rightarrow> Inr bs
          | None \<Rightarrow> throwArgumentError ''invalid arrayify value''))"

text \<open>
  \<open>toUtf8Bytes\<close> called with a value that need not be a string: it reads
  \<open>str.length\<close> and calls \<open>str.charCodeAt\<close>.
\<close>

fun toUtf8BytesOf :: "val \<Rightarrow> error + byte list" where
  "toUtf8BytesOf (VString s) = toUtf8Bytes s"
| "toUtf8BytesOf VNull = Inl (Error TypeError ''Cannot read properties of null (reading length)'' None)"
| "toUtf8BytesOf (VArray slots named) =
     (if slots = [] then Inr [] else Inl (Error TypeError ''str.charCodeAt is not a function'' None))"
| "toUtf8BytesOf (VBytes bs) =
     (if bs = [] then Inr [] else Inl (Error TypeError ''str.charCodeAt is not a function'' None))"
| "toUtf8BytesOf v = Inr []"

section \<open>BooleanCoder (lines 1609--1625) and NumberCoder (lines 2276--2324)\<close>

definition BooleanCoder_encode :: "Writer \<Rightarrow> val \<Rightarrow> error + Writer" where
  "BooleanCoder_encode writer v = writeValue writer (VNumber (if truthy v then 1 else 0))"

definition BooleanCoder_decode :: "val reading" where
  "BooleanCoder_decode = bindR readValue (\<lambda>n. liftR (coerce ''bool'' (VBool (\<not> (n = 0)))))"

definition NumberCoder_name :: "nat \<Rightarrow> bool \<Rightarrow> string" where
  "NumberCoder_name sz sgnd = (if sgnd then ''int'' else ''uint'') @ showNat (sz * 8)"

definition NumberCoder_encode :: "nat \<Rightarrow> bool \<Rightarrow> Writer \<Rightarrow> val \<Rightarrow> error + Writer" where
  "NumberCoder_encode sz sgnd writer v0 =
     bindE (BigNumber_from v0) (\<lambda>v.
     bindE (BigNumber_mask MaxUint256 (int (wordSize * 8))) (\<lambda>maxUintValue.
     bindE (if sgnd then
              bindE (BigNumber_mask maxUintValue (int sz * 8 - 1)) (\<lambda>bounds.
                if v > bounds \<or> v < (bounds + 1) * (- 1)
                  then throwArgumentError ''value out-of-bounds''
                else Inr ())
            else
              (if v < 0 then throwArgumentError ''value out-of-bounds''
               else bindE (BigNumber_mask maxUintValue (int sz * 8)) (\<lambda>m.
                 if v > m then throwArgumentError ''value out-of-bounds'' else Inr ()))) (\<lambda>_.
     bindE (BigNumber_mask (BigNumber_toTwos v (sz * 8)) (int sz * 8)) (\<lambda>v1.
     bindE (if sgnd then
              bindE (BigNumber_fromTwos v1 (sz * 8)) (\<lambda>v2. Inr (BigNumber_toTwos v2 (8 * wordSize)))
            else Inr v1) (\<lambda>v3.
       writeValue writer (VBigNumber v3))))))"

definition NumberCoder_decode :: "nat \<Rightarrow> bool \<Rightarrow> val reading" where
  "NumberCoder_decode sz sgnd =
     bindR readValue (\<lambda>n. liftR (
       bindE (BigNumber_mask n (int sz * 8)) (\<lambda>v.
       bindE (if sgnd then BigNumber_fromTwos v (sz * 8) else Inr v) (\<lambda>v'.
         coerce (NumberCoder_name sz sgnd) (VBigNumber v')))))"

section \<open>The coders (lines 1412--1446, 1587--1645, 1901--2351)\<close>

datatype Coder =
    AddressCoder string
  | BooleanCoder string
  | StringCoder string
  | BytesCoder string
  | ArrayCoder Coder int string
  | TupleCoder "Coder list" string
  | NullCoder string
  | NumberCoder nat bool string
  | FixedBytesCoder nat string
  | AnonymousCoder Coder

text \<open>
  The fields \<open>name\<close>, \<open>type\<close>, \<open>localName\<close> and \<open>dynamic\<close> that the
  constructors compute. A missing \<open>localName\<close> is the empty string: the code only
  tests whether the name is truthy.
\<close>

fun joinWith :: "string \<Rightarrow> string list \<Rightarrow> string" where
  "joinWith sep [] = []"
| "joinWith sep [x] = x"
| "joinWith sep (x # y # ys) = x @ sep @ joinWith sep (y # ys)"

fun coderName :: "Coder \<Rightarrow> string" where
  "coderName (AddressCoder n) = ''address''"
| "coderName (BooleanCoder n) = ''bool''"
| "coderName (StringCoder n) = ''string''"
| "coderName (BytesCoder n) = ''bytes''"
| "coderName (ArrayCoder c len n) = ''array''"
| "coderName (TupleCoder cs n) = ''tuple''"
| "coderName (NullCoder n) = ''null''"
| "coderName (NumberCoder sz sgnd n) = NumberCoder_name sz sgnd"
| "coderName (FixedBytesCoder sz n) = ''bytes'' @ showNat sz"
| "coderName (AnonymousCoder c) = coderName c"

fun coderType :: "Coder \<Rightarrow> string" where
  "coderType (AddressCoder n) = ''address''"
| "coderType (BooleanCoder n) = ''bool''"
| "coderType (StringCoder n) = ''string''"
| "coderType (BytesCoder n) = ''bytes''"
| "coderType (ArrayCoder c len n) = coderType c @ ''['' @ (if len \<ge> 0 then showNat (nat len) else []) @ '']''"
| "coderType (TupleCoder cs n) = ''tuple('' @ joinWith '','' (map coderType cs) @ '')''"
| "coderType (NullCoder n) = []"
| "coderType (NumberCoder sz sgnd n) = NumberCoder_name sz sgnd"
| "coderType (FixedBytesCoder sz n) = ''bytes'' @ showNat sz"
| "coderType (AnonymousCoder c) = coderType c"

fun localName :: "Coder \<Rightarrow> string" where
  "localName (AddressCoder n) = n"
| "localName (BooleanCoder n) = n"
| "localName (StringCoder n) = n"
| "localName (BytesCoder n) = n"
| "localName (ArrayCoder c len n) = n"
| "localName (TupleCoder cs n) = n"
| "localName (NullCoder n) = n"
| "localName (NumberCoder sz sgnd n) = n"
| "localName (FixedBytesCoder sz n) = n"
| "localName (AnonymousCoder c) = []"

fun dynamic :: "Coder \<Rightarrow> bool" where
  "dynamic (StringCoder n) = True"
| "dynamic (BytesCoder n) = True"
| "dynamic (ArrayCoder c len n) = (len = - 1 \<or> dynamic c)"
| "dynamic (TupleCoder cs n) = list_ex dynamic cs"
| "dynamic (AnonymousCoder c) = dynamic c"
| "dynamic c = False"

text \<open>\<open>Logger.checkArgumentCount\<close>, lines 279--299, with a message.\<close>

definition checkArgumentCount :: "int \<Rightarrow> int \<Rightarrow> string \<Rightarrow> error + unit" where
  "checkArgumentCount count expectedCount message =
     (if count < expectedCount then throwError (''missing argument: '' @ message) MISSING_ARGUMENT
      else if count > expectedCount then throwError (''too many arguments: '' @ message) UNEXPECTED_ARGUMENT
      else Inr ())"

subsection \<open>The coders without children\<close>

definition getAddressOf :: "platform \<Rightarrow> val \<Rightarrow> error + string" where
  "getAddressOf P v =
     (case v of
        VString s \<Rightarrow> (case narrow s of None \<Rightarrow> throwArgumentError ''invalid address'' | Some a \<Rightarrow> getAddress P a)
      | _ \<Rightarrow> throwArgumentError ''invalid address'')"

text \<open>
  \<open>JSON.stringify\<close> of a string of 8-bit characters, and the message of an
  argument error (lines 175--206): to the reason \<open>makeError\<close> appends the
  parameters \<open>argument\<close> and \<open>value\<close>, the code and the version
  (line 359).
\<close>

definition jsonChar :: "char \<Rightarrow> string" where
  "jsonChar c =
     (if c = CHR 0x22 then [CHR 0x5c, CHR 0x22]
      else if c = CHR 0x5c then [CHR 0x5c, CHR 0x5c]
      else if charCode c = 8 then [CHR 0x5c, CHR ''b'']
      else if charCode c = 9 then [CHR 0x5c, CHR ''t'']
      else if charCode c = 10 then [CHR 0x5c, CHR ''n'']
      else if charCode c = 12 then [CHR 0x5c, CHR ''f'']
      else if charCode c = 13 then [CHR 0x5c, CHR ''r'']
      else if charCode c < 32 then
        [CHR 0x5c, CHR ''u'', CHR ''0'', CHR ''0'', HexCharacters ! (charCode c div 16), HexCharacters ! (charCode c mod 16)]
      else [c])"

definition jsonString :: "string \<Rightarrow> string" where
  "jsonString s = [CHR 0x22] @ concat (map jsonChar s) @ [CHR 0x22]"

definition argumentMessage :: "string \<Rightarrow> string \<Rightarrow> string \<Rightarrow> string" where
  "argumentMessage message name rendered =
     message @ '' (argument='' @ jsonString name @ '', value='' @ rendered
       @ '', code=INVALID_ARGUMENT, version=abi/5.4.0)''"

text \<open>
  The value that \<open>getAddress\<close> reports when it throws (lines 1536, 1549, 1556,
  1565, and 1453 called from 1563): the address as it is at that point, with the prefix
  that line 1542 has added, or the padded hex digits of an ICAP address.
\<close>

definition getAddressArgument :: "string \<Rightarrow> string" where
  "getAddressArgument address0 =
     (if matchesHexAddress address0 then
        (if take 2 address0 \<noteq> ''0x'' then ''0x'' @ address0 else address0)
      else if matchesIcap address0 \<and> take 2 (drop 2 address0) = ibanChecksum address0 then
        (let result = base36To16 (drop 4 address0) in
         ''0x'' @ replicate (40 - length result) CHR ''0'' @ result)
      else address0)"

text \<open>
  \<open>AddressCoder.encode\<close> (lines 1596--1603) catches the error of
  \<open>getAddress\<close> and throws an argument error whose reason is the whole message
  of the error it caught, details included.
\<close>

definition AddressCoder_encode :: "platform \<Rightarrow> Writer \<Rightarrow> val \<Rightarrow> error + Writer" where
  "AddressCoder_encode P writer v =
     (case getAddressOf P v of
        Inl e \<Rightarrow>
          throwArgumentError
            (argumentMessage (reason e) ''address''
               (case v of
                  VString s \<Rightarrow>
                    (case narrow s of
                       Some a \<Rightarrow> jsonString (getAddressArgument a)
                     | None \<Rightarrow> stringify P v)
                | _ \<Rightarrow> stringify P v))
      | Inr a \<Rightarrow> writeValue writer v)"

definition AddressCoder_decode :: "platform \<Rightarrow> val reading" where
  "AddressCoder_decode P =
     bindR readValue (\<lambda>n. liftR (
       bindE (hexZeroPad (toHexString n) 20) (\<lambda>h.
       bindE (getAddress P h) (\<lambda>a. Inr (VString (widen a))))))"

definition DynamicBytesCoder_encode :: "Writer \<Rightarrow> val \<Rightarrow> error + Writer" where
  "DynamicBytesCoder_encode writer v =
     bindE (arrayify v) (\<lambda>bytes.
     bindE (writeValue writer (VNumber (int (length bytes)))) (\<lambda>w1.
       Inr (writeBytes w1 bytes)))"

definition DynamicBytesCoder_decode :: "(byte list) reading" where
  "DynamicBytesCoder_decode =
     bindR readValue (\<lambda>n.
     bindR (liftR (BigNumber_toNumber n)) (\<lambda>len. readBytes (nat len) True))"

definition StringCoder_encode :: "Writer \<Rightarrow> val \<Rightarrow> error + Writer" where
  "StringCoder_encode writer v =
     bindE (toUtf8BytesOf v) (\<lambda>bytes. DynamicBytesCoder_encode writer (VBytes bytes))"

definition StringCoder_decode :: "val reading" where
  "StringCoder_decode =
     bindR DynamicBytesCoder_decode (\<lambda>bytes.
       liftR (bindE (toUtf8String bytes) (\<lambda>s. Inr (VString s))))"

definition BytesCoder_decode :: "val reading" where
  "BytesCoder_decode =
     bindR DynamicBytesCoder_decode (\<lambda>bytes. liftR (coerce ''bytes'' (VString (widen (hexlify bytes)))))"

definition NullCoder_encode :: "Writer \<Rightarrow> val \<Rightarrow> error + Writer" where
  "NullCoder_encode writer v =
     (if v \<noteq> VNull then throwArgumentError ''not null'' else Inr (writeBytes writer []))"

definition NullCoder_decode :: "val reading" where
  "NullCoder_decode = bindR (readBytes 0 False) (\<lambda>bytes. liftR (coerce ''null'' VNull))"

definition FixedBytesCoder_encode :: "nat \<Rightarrow> Writer \<Rightarrow> val \<Rightarrow> error + Writer" where
  "FixedBytesCoder_encode sz writer v =
     bindE (arrayify v) (\<lambda>bytes.
       if length bytes \<noteq> sz then throwArgumentError ''incorrect data length''
       else Inr (writeBytes writer bytes))"

definition FixedBytesCoder_decode :: "nat \<Rightarrow> val reading" where
  "FixedBytesCoder_decode sz =
     bindR (readBytes sz False) (\<lambda>bytes.
       liftR (coerce (''bytes'' @ showNat sz) (VString (widen (hexlify bytes)))))"

subsection \<open>pack (lines 1924--1994)\<close>

text \<open>
  The values of a tuple given as an object: one property for each coder, looked up by
  the coder's name. The table \<open>unique\<close> is a plain object, so a name every object
  inherits counts as seen. Of an object only its own properties are modelled.
\<close>

fun ownProperties :: "val \<Rightarrow> (string \<times> val) list option" where
  "ownProperties (VObject kvs) = Some kvs"
| "ownProperties (VBigNumber n) = Some [(''_hex'', VString (widen (toHexString n))), (''_isBigNumber'', VBool True)]"
| "ownProperties (VIndexed h) = Some [(''_isIndexed'', VBool True), (''hash'', h)]"
| "ownProperties (VBytes bs) =
     Some ((''length'', VNumber (int (length bs)))
           # map (\<lambda>i. (showNat i, VNumber (int (unat (bs ! i))))) [0 ..< length bs])"
| "ownProperties v = None"

fun objectValues :: "platform \<Rightarrow> (string \<times> val) list \<Rightarrow> string list \<Rightarrow> Coder list \<Rightarrow> error + val slot list" where
  "objectValues P kvs seen [] = Inr []"
| "objectValues P kvs seen (coder # coders) =
     (let name = localName coder in
      if name = [] then
        throwError ''cannot encode object for signature with missing names'' INVALID_ARGUMENT
      else if name \<in> set seen \<or> objectInherited P name then
        throwError ''cannot encode object for signature with duplicate names'' INVALID_ARGUMENT
      else
        bindE (objectValues P kvs (name # seen) coders) (\<lambda>rest.
          Inr (Value (case map_of kvs name of None \<Rightarrow> VNull | Some v \<Rightarrow> v) # rest)))"

definition arrayValues :: "platform \<Rightarrow> Coder list \<Rightarrow> val \<Rightarrow> error + val slot list" where
  "arrayValues P coders values =
     (case values of
        VArray slots named \<Rightarrow> Inr slots
      | _ \<Rightarrow> (case ownProperties values of
                 Some kvs \<Rightarrow> objectValues P kvs [] coders
               | None \<Rightarrow> throwArgumentError ''invalid tuple value''))"

text \<open>
  The loop over the coders (lines 1966--1984): the static writer, the dynamic writer, and
  for each dynamic coder the index of its placeholder among the chunks of the static
  writer together with the offset of its data in the dynamic writer.
\<close>

definition readSlot :: "val slot list \<Rightarrow> error + val" where
  "readSlot slots = (case slots of [] \<Rightarrow> Inr VNull | Value v # _ \<Rightarrow> Inr v | Getter e # _ \<Rightarrow> Inl e)"

fun packLoop ::
  "(Coder \<Rightarrow> Writer \<Rightarrow> val \<Rightarrow> error + Writer) \<Rightarrow> Coder list \<Rightarrow> val slot list
   \<Rightarrow> Writer \<times> Writer \<times> (nat \<times> nat) list \<Rightarrow> error + (Writer \<times> Writer \<times> (nat \<times> nat) list)" where
  "packLoop enc [] slots st = Inr st"
| "packLoop enc (coder # coders) slots (staticWriter, dynamicWriter, updateFuncs) =
     bindE (readSlot slots) (\<lambda>v.
       if dynamic coder then
         bindE (enc coder dynamicWriter v) (\<lambda>dynamicWriter'.
           (case writeUpdatableValue staticWriter of (off, staticWriter') \<Rightarrow>
              packLoop enc coders (tl slots)
                (staticWriter', dynamicWriter', updateFuncs @ [(off, w_dataLength dynamicWriter)])))
       else
         bindE (enc coder staticWriter v) (\<lambda>staticWriter'.
           packLoop enc coders (tl slots) (staticWriter', dynamicWriter, updateFuncs)))"

fun backfill :: "Writer \<Rightarrow> (nat \<times> nat) list \<Rightarrow> error + Writer" where
  "backfill staticWriter [] = Inr staticWriter"
| "backfill staticWriter ((off, dynamicOffset) # rest) =
     bindE (updateValue staticWriter off (VNumber (int (w_dataLength staticWriter + dynamicOffset))))
       (\<lambda>w. backfill w rest)"

definition pack ::
  "platform \<Rightarrow> (Coder \<Rightarrow> Writer \<Rightarrow> val \<Rightarrow> error + Writer) \<Rightarrow> Writer \<Rightarrow> Coder list \<Rightarrow> val \<Rightarrow> error + Writer" where
  "pack P enc writer coders values =
     bindE (arrayValues P coders values) (\<lambda>slots.
       if length coders \<noteq> length slots then throwArgumentError ''types/value length mismatch''
       else
         bindE (packLoop enc coders slots (newWriter, newWriter, [])) (\<lambda>(staticWriter, dynamicWriter, updateFuncs).
         bindE (backfill staticWriter updateFuncs) (\<lambda>staticWriter'.
           Inr (appendWriter (appendWriter writer staticWriter') dynamicWriter))))"

lemma packLoop_cong:
  "(\<And>c w v. c \<in> set coders \<Longrightarrow> f c w v = g c w v) \<Longrightarrow> packLoop f coders slots st = packLoop g coders slots st"
proof (induction coders arbitrary: slots st)
  case Nil
  then show ?case by simp
next
  case (Cons c cs)
  obtain sw dw ufs where st: "st = (sw, dw, ufs)" by (cases st) auto
  have h: "f c w v = g c w v" for w v using Cons.prems by simp
  have r: "packLoop f cs sl s = packLoop g cs sl s" for sl s
    using Cons.IH Cons.prems by simp
  show ?case unfolding st by (simp add: h r cong: if_cong)
qed

lemma pack_cong [fundef_cong]:
  "coders = coders' \<Longrightarrow> writer = writer' \<Longrightarrow> values = values'
   \<Longrightarrow> (\<And>c w v. c \<in> set coders' \<Longrightarrow> f c w v = g c w v)
   \<Longrightarrow> pack P f writer coders values = pack P g writer' coders' values'"
  using packLoop_cong [of coders' f g] by (simp add: pack_def cong: if_cong)

subsection \<open>unpack (lines 2085--2181)\<close>

definition annotate :: "Coder \<Rightarrow> error \<Rightarrow> error" where
  "annotate coder e = Error (kind e) (reason e) (Some (coderName coder, localName coder, coderType coder))"

text \<open>
  What the \<open>try\<close> blocks of lines 2097--2121 make of the outcome of a coder: a
  buffer overrun is thrown on, any other error becomes the value, a \<open>null\<close> value is
  not pushed.
\<close>

definition caught :: "Coder \<Rightarrow> error + val \<Rightarrow> error + (val slot) option" where
  "caught coder res =
     (case res of
        Inl e \<Rightarrow> (if code e = Some BUFFER_OVERRUN then Inl e else Inr (Some (Getter (annotate coder e))))
      | Inr v \<Rightarrow> Inr (if v = VNull then None else Some (Value v)))"

definition decodeField :: "(Coder \<Rightarrow> val reading) \<Rightarrow> Reader \<Rightarrow> Coder \<Rightarrow> ((val slot) option) reading" where
  "decodeField dec baseReader coder reader =
     (if dynamic coder then
        (case readValue reader of
           (Inl e, r1) \<Rightarrow> (Inl e, r1)
         | (Inr off, r1) \<Rightarrow>
             (case BigNumber_toNumber off of
                Inl e \<Rightarrow> (Inl e, r1)
              | Inr k \<Rightarrow> (caught coder (fst (dec coder (subReader baseReader (nat k)))), r1)))
      else
        (case dec coder reader of (res, r1) \<Rightarrow> (caught coder res, r1)))"

fun unpackLoop :: "(Coder \<Rightarrow> val reading) \<Rightarrow> Reader \<Rightarrow> Coder list \<Rightarrow> (val slot list) reading" where
  "unpackLoop dec baseReader [] = liftR (Inr [])"
| "unpackLoop dec baseReader (coder # coders) =
     bindR (decodeField dec baseReader coder) (\<lambda>s.
     bindR (unpackLoop dec baseReader coders) (\<lambda>rest.
       liftR (Inr (case s of None \<Rightarrow> rest | Some x \<Rightarrow> x # rest))))"

text \<open>
  The named properties (lines 2129--2167). \<open>uniqueNames\<close> is a plain object: for a
  name that every object inherits the first \<open>accum[name]++\<close> stores \<open>NaN\<close> and
  the second restarts the count, so such a name has count 1 exactly when two coders
  bear it; an assignment of a number to \<open>__proto__\<close> is ignored.
\<close>

definition isUniqueName :: "platform \<Rightarrow> Coder list \<Rightarrow> string \<Rightarrow> bool" where
  "isUniqueName P coders name =
     (let n = length (filter (\<lambda>c. localName c = name) coders) in
      if objectInherited P name then name \<noteq> ''__proto__'' \<and> n = 2 else n = 1)"

definition isArrayIndex :: "string \<Rightarrow> bool" where
  "isArrayIndex s =
     (s \<noteq> [] \<and> list_all isDigit s \<and> (s = ''0'' \<or> take 1 s \<noteq> ''0'') \<and> parseDecimal s < 2 ^ 32 - 1)"

text \<open>
  \<open>values[name] != null\<close> while the named properties are added: \<open>raw\<close> are the
  values pushed so far (an error among them is still a plain value), \<open>extras\<close> the
  properties added since; reading a property that was added as a throwing getter throws.
\<close>

definition propertyNotNull :: "platform \<Rightarrow> val slot list \<Rightarrow> (string \<times> val slot) list \<Rightarrow> string \<Rightarrow> error + bool" where
  "propertyNotNull P raw extras name =
     (if isArrayIndex name \<and> parseDecimal name < length raw then Inr True
      else
        (case map_of extras name of
           Some (Getter e) \<Rightarrow> Inl e
         | Some (Value v) \<Rightarrow> Inr (v \<noteq> VNull)
         | None \<Rightarrow> Inr (name = ''length'' \<or> inherited P name)))"

definition setProperty :: "(string \<times> val slot) list \<Rightarrow> string \<Rightarrow> val slot \<Rightarrow> (string \<times> val slot) list" where
  "setProperty extras name s = filter (\<lambda>(k, _). k \<noteq> name) extras @ [(name, s)]"

text \<open>
  \<open>values[index]\<close> in line 2156: beyond the pushed values it finds a property
  added under a name that is this array index, if there is one.
\<close>

definition elementAt :: "val slot list \<Rightarrow> (string \<times> val slot) list \<Rightarrow> nat \<Rightarrow> error + val slot" where
  "elementAt raw extras index =
     (if index < length raw then Inr (raw ! index)
      else
        (case map_of extras (showNat index) of
           Some (Getter e) \<Rightarrow> Inl e
         | Some (Value v) \<Rightarrow> Inr (Value v)
         | None \<Rightarrow> Inr (Value VNull)))"

fun namesLoop ::
  "platform \<Rightarrow> Coder list \<Rightarrow> val slot list \<Rightarrow> Coder list \<Rightarrow> nat \<Rightarrow> (string \<times> val slot) list
   \<Rightarrow> error + (string \<times> val slot) list" where
  "namesLoop P allCoders raw [] index extras = Inr extras"
| "namesLoop P allCoders raw (coder # coders) index extras =
     (let name = localName coder in
      if name = [] \<or> \<not> isUniqueName P allCoders name then namesLoop P allCoders raw coders (Suc index) extras
      else
        (let name' = (if name = ''length'' then ''_length'' else name) in
         bindE (propertyNotNull P raw extras name') (\<lambda>notNull.
           if notNull then namesLoop P allCoders raw coders (Suc index) extras
           else
             bindE (elementAt raw extras index) (\<lambda>s.
               namesLoop P allCoders raw coders (Suc index) (setProperty extras name' s)))))"

text \<open>
  The array as it is returned: a property whose name is an array index lies beyond the
  pushed values and lengthens the array (the holes read as \<open>undefined\<close>); the last
  loop (lines 2169--2178) reads every index, so a throwing getter among those throws.
\<close>

definition indexExtras :: "(string \<times> val slot) list \<Rightarrow> (nat \<times> val slot) list" where
  "indexExtras extras = map (\<lambda>(k, s). (parseDecimal k, s)) (filter (\<lambda>(k, s). isArrayIndex k) extras)"

definition assemble :: "val slot list \<Rightarrow> (string \<times> val slot) list \<Rightarrow> error + val" where
  "assemble raw extras =
     (let ix = indexExtras extras;
          newLength = foldl max (length raw) (map (\<lambda>(i, s). Suc i) ix);
          ext = map (\<lambda>i. case map_of ix i of Some s \<Rightarrow> s | None \<Rightarrow> Value VNull) [length raw ..< newLength]
      in case concat (map (\<lambda>s. case s of Getter e \<Rightarrow> [e] | Value v \<Rightarrow> []) ext) of
           e # _ \<Rightarrow> Inl e
         | [] \<Rightarrow> Inr (VArray (raw @ ext) (filter (\<lambda>(k, s). \<not> isArrayIndex k) extras)))"

definition unpack :: "platform \<Rightarrow> (Coder \<Rightarrow> val reading) \<Rightarrow> Coder list \<Rightarrow> val reading" where
  "unpack P dec coders reader =
     bindR (unpackLoop dec (subReader reader 0) coders) (\<lambda>raw.
       liftR (bindE (namesLoop P coders raw coders 0 []) (\<lambda>extras. assemble raw extras))) reader"

lemma unpackLoop_cong:
  "(\<And>c r. c \<in> set coders \<Longrightarrow> f c r = g c r) \<Longrightarrow> unpackLoop f base coders r = unpackLoop g base coders r"
proof (induction coders arbitrary: r)
  case Nil
  then show ?case by simp
next
  case (Cons c cs)
  have h: "f c = g c" using Cons.prems by auto
  have d: "decodeField f base c = decodeField g base c"
    by (rule ext) (simp only: decodeField_def h)
  have r: "unpackLoop f base cs = unpackLoop g base cs"
    using Cons.IH Cons.prems by auto
  show ?case by (simp add: d r)
qed

lemma unpack_cong [fundef_cong]:
  "coders = coders' \<Longrightarrow> reader = reader'
   \<Longrightarrow> (\<And>c r. c \<in> set coders' \<Longrightarrow> f c r = g c r)
   \<Longrightarrow> unpack P f coders reader = unpack P g coders' reader'"
  using unpackLoop_cong [of coders' f g] by (simp add: unpack_def bindR_def)

subsection \<open>encode and decode of every coder\<close>

text \<open>
  The virtual methods \<open>coder.encode(writer, value)\<close> and \<open>coder.decode(reader)\<close>:
  one equation for each class.
\<close>

fun weight :: "Coder \<Rightarrow> nat" where
  "weight (ArrayCoder c len n) = weight c + 2"
| "weight (TupleCoder cs n) = Suc (sum_list (map weight cs))"
| "weight (AnonymousCoder c) = Suc (weight c)"
| "weight c = 0"

lemma weight_member: "c \<in> set cs \<Longrightarrow> weight c < Suc (sum_list (map weight cs))"
  by (induction cs) auto

function encode :: "platform \<Rightarrow> Coder \<Rightarrow> Writer \<Rightarrow> val \<Rightarrow> error + Writer" where
  "encode P (AddressCoder n) writer v = AddressCoder_encode P writer v"
| "encode P (BooleanCoder n) writer v = BooleanCoder_encode writer v"
| "encode P (StringCoder n) writer v = StringCoder_encode writer v"
| "encode P (BytesCoder n) writer v = DynamicBytesCoder_encode writer v"
| "encode P (ArrayCoder coder len n) writer v =
     (case v of
        VArray slots named \<Rightarrow>
          bindE (if len = - 1 then writeValue writer (VNumber (int (length slots))) else Inr writer) (\<lambda>w1.
          bindE (checkArgumentCount (int (length slots)) (if len = - 1 then int (length slots) else len)
                   (''coder array'' @ (if n \<noteq> [] then '' '' @ n else []))) (\<lambda>u.
            pack P (encode P) w1 (replicate (length slots) coder) v))
      | _ \<Rightarrow> throwArgumentError ''expected array value'')"
| "encode P (TupleCoder coders n) writer v = pack P (encode P) writer coders v"
| "encode P (NullCoder n) writer v = NullCoder_encode writer v"
| "encode P (NumberCoder sz sgnd n) writer v = NumberCoder_encode sz sgnd writer v"
| "encode P (FixedBytesCoder sz n) writer v = FixedBytesCoder_encode sz writer v"
| "encode P (AnonymousCoder coder) writer v = encode P coder writer v"
  by pat_completeness auto
termination
  by (relation "measure (\<lambda>(P, c, w, v). weight c)") (auto simp: weight_member)

text \<open>
  \<open>ArrayCoder.decode\<close> (lines 2059--2082) reads the count of a dynamic array and
  compares it with the length of the reader's data before it makes the coders.
\<close>

definition arrayCount :: "int \<Rightarrow> int reading" where
  "arrayCount len =
     (if len = - 1 then
        bindR readValue (\<lambda>n.
        bindR (liftR (BigNumber_toNumber n)) (\<lambda>count reader.
          if count * 32 > int (length (r_data reader))
            then (throwError ''insufficient data length'' BUFFER_OVERRUN, reader)
          else (Inr count, reader)))
      else liftR (Inr len))"

function decode :: "platform \<Rightarrow> Coder \<Rightarrow> val reading" where
  "decode P (AddressCoder n) reader = AddressCoder_decode P reader"
| "decode P (BooleanCoder n) reader = BooleanCoder_decode reader"
| "decode P (StringCoder n) reader = StringCoder_decode reader"
| "decode P (BytesCoder n) reader = BytesCoder_decode reader"
| "decode P (ArrayCoder coder len n) reader =
     bindR (arrayCount len) (\<lambda>count.
     bindR (unpack P (decode P) (replicate (nat count) (AnonymousCoder coder))) (\<lambda>v.
       liftR (coerce ''array'' v))) reader"
| "decode P (TupleCoder coders n) reader =
     bindR (unpack P (decode P) coders) (\<lambda>v. liftR (coerce ''tuple'' v)) reader"
| "decode P (NullCoder n) reader = NullCoder_decode reader"
| "decode P (NumberCoder sz sgnd n) reader = NumberCoder_decode sz sgnd reader"
| "decode P (FixedBytesCoder sz n) reader = FixedBytesCoder_decode sz reader"
| "decode P (AnonymousCoder coder) reader = decode P coder reader"
  by pat_completeness auto
termination
  by (relation "measure (\<lambda>(P, c, r). weight c)") (auto simp: weight_member)

section \<open>ParamType (lines 362, 620--735)\<close>

text \<open>
  An object of class \<open>ParamType\<close>. A \<open>name\<close> that is \<open>null\<close> is the empty
  string: \<open>fromObject\<close> stores \<open>value.name || null\<close>, and the code only tests
  whether the name is truthy.
\<close>

datatype ParamType =
  ParamType (pt_name: string) (pt_type: string) (pt_baseType: string) (pt_indexed: "bool option")
            (pt_components: "ParamType list option") (pt_arrayLength: "int option")
            (pt_arrayChildren: "ParamType option")

text \<open>
  The regular expression \<open>paramTypeArray\<close>, \<open>^(.*)\[([0-9]*)\]$\<close>: the two
  groups of a match. The dot matches no line terminator.
\<close>

definition isLineTerminator :: "char \<Rightarrow> bool" where
  "isLineTerminator c = (charCode c = 10 \<or> charCode c = 13)"

definition matchArray :: "string \<Rightarrow> (string \<times> string) option" where
  "matchArray type =
     (if type = [] \<or> last type \<noteq> CHR '']'' then None
      else
        (let body = butlast type;
             digits = rev (takeWhile isDigit (rev body));
             front = take (length body - length digits) body in
         if front = [] \<or> last front \<noteq> CHR ''['' \<or> list_ex isLineTerminator (butlast front) then None
         else Some (butlast front, digits)))"

definition brackets :: "string \<Rightarrow> nat" where
  "brackets s = length (filter (\<lambda>c. c = CHR ''['') s)"

lemma brackets_append: "brackets (a @ b) = brackets a + brackets b"
  by (simp add: brackets_def)

lemma brackets_take: "brackets (take n s) \<le> brackets s"
proof -
  have "brackets s = brackets (take n s) + brackets (drop n s)"
    using brackets_append [of "take n s" "drop n s"] by simp
  then show ?thesis by simp
qed

lemma brackets_butlast: "brackets (butlast s) \<le> brackets s"
  by (simp add: butlast_conv_take brackets_take)

lemma brackets_matchArray:
  assumes "matchArray type = Some (child, digits)"
  shows "brackets child < brackets type"
proof -
  define body where "body = butlast type"
  define front where "front = take (length body - length (rev (takeWhile isDigit (rev body)))) body"
  from assms have f: "front \<noteq> []" "last front = CHR ''[''" "child = butlast front"
    by (auto simp: matchArray_def Let_def body_def front_def split: if_splits)
  then have "front = child @ ''[''" using append_butlast_last_id [of front] by simp
  then have "brackets front = Suc (brackets child)" by (simp add: brackets_def)
  moreover have "brackets front \<le> brackets body" unfolding front_def by (rule brackets_take)
  moreover have "brackets body \<le> brackets type" unfolding body_def by (rule brackets_butlast)
  ultimately show ?thesis by simp
qed

lemma brackets_verifyType: "brackets (verifyType type) = brackets type"
proof -
  have a: "brackets (''uint256'' @ drop 4 type) = brackets type" if "take 4 type = ''uint''"
  proof -
    have "brackets type = brackets (take 4 type) + brackets (drop 4 type)"
      using brackets_append [of "take 4 type" "drop 4 type"] by simp
    then show ?thesis by (simp add: that brackets_append) (simp add: brackets_def)
  qed
  have b: "brackets (''int256'' @ drop 3 type) = brackets type" if "take 3 type = ''int''"
  proof -
    have "brackets type = brackets (take 3 type) + brackets (drop 3 type)"
      using brackets_append [of "take 3 type" "drop 3 type"] by simp
    then show ?thesis by (simp add: that brackets_append) (simp add: brackets_def)
  qed
  show ?thesis using a b by (simp add: verifyType_def)
qed

text \<open>
  The constructor (lines 629--655), called with the properties \<open>name\<close>,
  \<open>type\<close>, \<open>indexed\<close> and \<open>components\<close> as \<open>fromObject\<close> does. The
  length of an array is read by \<open>parseInt\<close>, which is exact below \<open>2^53\<close>.
\<close>

function newParamType :: "string \<Rightarrow> string \<Rightarrow> bool option \<Rightarrow> ParamType list option \<Rightarrow> ParamType" where
  "newParamType name type indexed components =
     (case matchArray type of
        Some (child, digits) \<Rightarrow>
          ParamType name type ''array'' indexed components
            (Some (if digits = [] then - 1 else int (parseDecimal digits)))
            (Some (newParamType [] (verifyType child) None components))
      | None \<Rightarrow>
          ParamType name type (if components \<noteq> None then ''tuple'' else type) indexed components None None)"
  by pat_completeness auto
termination
  by (relation "measure (\<lambda>(name, type, indexed, components). brackets type)")
     (auto simp: brackets_verifyType brackets_matchArray)

declare newParamType.simps [simp del]

text \<open>
  \<open>ParamType.fromObject\<close> (lines 707--717) on an object that is no
  \<open>ParamType\<close>: the nodes of the parser are such objects.
\<close>

fun ParamType_fromObject :: "ParseNode \<Rightarrow> ParamType" where
  "ParamType_fromObject (ParseNode type name indexed components) =
     newParamType name (verifyType type) indexed
       (case components of None \<Rightarrow> None | Some cs \<Rightarrow> Some (map ParamType_fromObject cs))"

definition ParamType_fromString :: "platform \<Rightarrow> string \<Rightarrow> bool \<Rightarrow> error + ParamType" where
  "ParamType_fromString P v allowIndexed =
     bindE (parseParamType P v allowIndexed) (\<lambda>node. Inr (ParamType_fromObject node))"

text \<open>An argument of type \<open>string | ParamType\<close>, and \<open>ParamType.from\<close>.\<close>

datatype TypeArg = TypeString string | TypeObject ParamType

definition ParamType_from :: "platform \<Rightarrow> TypeArg \<Rightarrow> error + ParamType" where
  "ParamType_from P v =
     (case v of TypeString s \<Rightarrow> ParamType_fromString P s False | TypeObject p \<Rightarrow> Inr p)"

fun mapE :: "('a \<Rightarrow> 'e + 'b) \<Rightarrow> 'a list \<Rightarrow> 'e + 'b list" where
  "mapE f [] = Inr []"
| "mapE f (x # xs) = bindE (f x) (\<lambda>y. bindE (mapE f xs) (\<lambda>ys. Inr (y # ys)))"

lemma mapE_cong [fundef_cong]:
  "xs = ys \<Longrightarrow> (\<And>x. x \<in> set ys \<Longrightarrow> f x = g x) \<Longrightarrow> mapE f xs = mapE g ys"
  by (induction ys arbitrary: xs) auto

text \<open>
  \<open>ParamType.format\<close> (lines 656--700) for the format \<open>sighash\<close>. An object
  made by the constructor has \<open>arrayChildren\<close> when its base type is
  \<open>array\<close> and \<open>components\<close> when it is \<open>tuple\<close>.
\<close>

fun ParamType_format :: "ParamType \<Rightarrow> error + string" where
  "ParamType_format (ParamType name type baseType indexed components arrayLength arrayChildren) =
     (if baseType = ''array'' then
        (case arrayChildren of
           None \<Rightarrow> Inl (Error TypeError ''Cannot read properties of null (reading format)'' None)
         | Some child \<Rightarrow>
             bindE (ParamType_format child) (\<lambda>s.
               Inr (s @ ''['' @ (case arrayLength of
                                    None \<Rightarrow> ''null''
                                  | Some n \<Rightarrow> if n < 0 then [] else showNat (nat n)) @ '']'')))
      else if baseType = ''tuple'' then
        (case components of
           None \<Rightarrow> Inl (Error TypeError ''Cannot read properties of null (reading map)'' None)
         | Some cs \<Rightarrow> bindE (mapE ParamType_format cs) (\<lambda>ss. Inr (''('' @ joinWith '','' ss @ '')'')))
      else Inr type)"

section \<open>AbiCoder (lines 2325--2326, 2353--2446)\<close>

text \<open>
  The regular expressions \<open>paramTypeNumber\<close>, \<open>^(u?int)([0-9]*)$\<close>, and
  \<open>paramTypeBytes\<close>, \<open>^bytes([0-9]*)$\<close>.
\<close>

definition matchNumber :: "string \<Rightarrow> (string \<times> string) option" where
  "matchNumber type =
     (if take 4 type = ''uint'' \<and> list_all isDigit (drop 4 type) then Some (''uint'', drop 4 type)
      else if take 3 type = ''int'' \<and> list_all isDigit (drop 3 type) then Some (''int'', drop 3 type)
      else None)"

definition matchBytes :: "string \<Rightarrow> string option" where
  "matchBytes type =
     (if take 5 type = ''bytes'' \<and> list_all isDigit (drop 5 type) then Some (drop 5 type) else None)"

text \<open>
  \<open>_getCoder\<close>. The type \<open>bytes\<close> itself never reaches the second pattern:
  an object made by the constructor has it as its base type, unless the base type is
  \<open>array\<close> or \<open>tuple\<close>.
\<close>

fun AbiCoder_getCoder :: "ParamType \<Rightarrow> error + Coder" where
  "AbiCoder_getCoder (ParamType name type baseType indexed components arrayLength arrayChildren) =
     (if baseType = ''address'' then Inr (AddressCoder name)
      else if baseType = ''bool'' then Inr (BooleanCoder name)
      else if baseType = ''string'' then Inr (StringCoder name)
      else if baseType = ''bytes'' then Inr (BytesCoder name)
      else if baseType = ''array'' then
        (case arrayChildren of
           None \<Rightarrow> Inl (Error TypeError ''Cannot read properties of null (reading baseType)'' None)
         | Some child \<Rightarrow>
             bindE (AbiCoder_getCoder child) (\<lambda>coder.
               Inr (ArrayCoder coder (case arrayLength of None \<Rightarrow> 0 | Some n \<Rightarrow> n) name)))
      else if baseType = ''tuple'' then
        (case components of
           None \<Rightarrow> Inr (TupleCoder [] name)
         | Some cs \<Rightarrow> bindE (mapE AbiCoder_getCoder cs) (\<lambda>coders. Inr (TupleCoder coders name)))
      else if baseType = [] then Inr (NullCoder name)
      else
        (case matchNumber type of
           Some (base, digits) \<Rightarrow>
             (let sz = (if digits = [] then 256 else parseDecimal digits) in
              if sz = 0 \<or> sz > 256 \<or> sz mod 8 \<noteq> 0
                then throwArgumentError (''invalid '' @ base @ '' bit length'')
              else Inr (NumberCoder (sz div 8) (base = ''int'') name))
         | None \<Rightarrow>
             (case matchBytes type of
                Some digits \<Rightarrow>
                  (let sz = parseDecimal digits in
                   if digits = [] \<or> sz = 0 \<or> sz > 32 then throwArgumentError ''invalid bytes length''
                   else Inr (FixedBytesCoder sz name))
              | None \<Rightarrow> throwArgumentError ''invalid type'')))"

definition AbiCoder_coders :: "platform \<Rightarrow> TypeArg list \<Rightarrow> error + Coder list" where
  "AbiCoder_coders P types = mapE (\<lambda>t. bindE (ParamType_from P t) AbiCoder_getCoder) types"

text \<open>\<open>values.length\<close>, as far as it can be a number.\<close>

definition valuesLength :: "val \<Rightarrow> error + int option" where
  "valuesLength values =
     (case values of
        VNull \<Rightarrow> Inl (Error TypeError ''Cannot read properties of null (reading length)'' None)
      | VArray slots named \<Rightarrow> Inr (Some (int (length slots)))
      | VString s \<Rightarrow> Inr (Some (int (length s)))
      | VBytes bs \<Rightarrow> Inr (Some (int (length bs)))
      | VObject kvs \<Rightarrow> Inr (case map_of kvs ''length'' of Some (VNumber n) \<Rightarrow> Some n | _ \<Rightarrow> None)
      | _ \<Rightarrow> Inr None)"

definition AbiCoder_encode :: "platform \<Rightarrow> TypeArg list \<Rightarrow> val \<Rightarrow> error + string" where
  "AbiCoder_encode P types values =
     bindE (valuesLength values) (\<lambda>n.
       if n \<noteq> Some (int (length types)) then throwError ''types/values length mismatch'' INVALID_ARGUMENT
       else
         bindE (AbiCoder_coders P types) (\<lambda>coders.
         bindE (encode P (TupleCoder coders ''_'') newWriter values) (\<lambda>writer.
           Inr (writerData writer))))"

definition AbiCoder_decode :: "platform \<Rightarrow> TypeArg list \<Rightarrow> val \<Rightarrow> bool \<Rightarrow> error + val" where
  "AbiCoder_decode P types data loose =
     bindE (AbiCoder_coders P types) (\<lambda>coders.
     bindE (arrayify data) (\<lambda>bytes.
       fst (decode P (TupleCoder coders ''_'') (newReader bytes loose))))"

section \<open>Fragments (lines 2746--2785, 2844--2874, 3173--3229)\<close>

text \<open>
  The fragments of an event, an error and a function, with the fields that the format
  \<open>sighash\<close> and the decoders read.
\<close>

datatype Fragment =
    FunctionFragment (fr_name: string) (fr_inputs: "ParamType list") "ParamType list"
  | EventFragment (fr_name: string) (fr_inputs: "ParamType list") bool
  | ErrorFragment (fr_name: string) (fr_inputs: "ParamType list")

text \<open>The properties \<open>outputs\<close> and \<open>anonymous\<close>, which not every fragment has.\<close>

fun fr_outputs :: "Fragment \<Rightarrow> ParamType list option" where
  "fr_outputs (FunctionFragment name inputs outputs) = Some outputs"
| "fr_outputs fragment = None"

fun fr_anonymous :: "Fragment \<Rightarrow> bool" where
  "fr_anonymous (EventFragment name inputs anonymous) = anonymous"
| "fr_anonymous fragment = False"

definition trim :: "string \<Rightarrow> string" where
  "trim s = dropWhile isWhitespace (rev (dropWhile isWhitespace (rev s)))"

definition Fragment_format :: "Fragment \<Rightarrow> error + string" where
  "Fragment_format fragment =
     bindE (mapE ParamType_format (fr_inputs fragment)) (\<lambda>ss.
       Inr (trim (fr_name fragment @ ''('' @ joinWith '','' ss @ '') '')))"

section \<open>Interface (lines 3058--3072, 3318--3346, 3423--4086)\<close>

definition substring :: "string \<Rightarrow> nat \<Rightarrow> nat \<Rightarrow> string" where
  "substring s a b = take (max a b - min a b) (drop (min a b) s)"

text \<open>\<open>hexDataSlice\<close> of a string, with an end offset.\<close>

definition hexDataSlice :: "string \<Rightarrow> nat \<Rightarrow> nat \<Rightarrow> error + string" where
  "hexDataSlice d offset endOffset =
     (if \<not> isHexString d None \<or> length d mod 2 \<noteq> 0 then throwArgumentError ''invalid hexData''
      else Inr (''0x'' @ substring d (2 + 2 * offset) (2 + 2 * endOffset)))"

definition id_hash :: "platform \<Rightarrow> string \<Rightarrow> error + string" where
  "id_hash P text = bindE (toUtf8Bytes (widen text)) (\<lambda>bytes. Inr (keccak256 P bytes))"

definition Interface_getSighash :: "platform \<Rightarrow> Fragment \<Rightarrow> error + string" where
  "Interface_getSighash P fragment =
     bindE (Fragment_format fragment) (\<lambda>signature.
     bindE (id_hash P signature) (\<lambda>h. hexDataSlice h 0 4))"

definition Interface_getEventTopic :: "platform \<Rightarrow> Fragment \<Rightarrow> error + string" where
  "Interface_getEventTopic P eventFragment =
     bindE (Fragment_format eventFragment) (\<lambda>signature. id_hash P signature)"

text \<open>
  \<open>BuiltinErrors\<close>: signature, name, inputs, and whether the first argument is the
  reason.
\<close>

definition BuiltinErrors :: "string \<Rightarrow> (string \<times> string \<times> string list \<times> bool) option" where
  "BuiltinErrors selector =
     (if selector = ''0x08c379a0'' then Some (''Error(string)'', ''Error'', [''string''], True)
      else if selector = ''0x4e487b71'' then Some (''Panic(uint256)'', ''Panic'', [''uint256''], False)
      else None)"

text \<open>
  An object of class \<open>Interface\<close>: the fragments by signature, in the order in
  which the constructor (lines 3437--3514) adds them, given fragments that are objects
  already.
\<close>

record Interface =
  i_functions :: "(string \<times> Fragment) list"
  i_events :: "(string \<times> Fragment) list"
  i_errors :: "(string \<times> Fragment) list"

definition addFragment :: "(string \<times> Fragment) list \<Rightarrow> string \<Rightarrow> Fragment \<Rightarrow> (string \<times> Fragment) list" where
  "addFragment bucket signature fragment =
     (if map_of bucket signature \<noteq> None then bucket else bucket @ [(signature, fragment)])"

fun Interface_add :: "Interface \<Rightarrow> Fragment list \<Rightarrow> error + Interface" where
  "Interface_add this [] = Inr this"
| "Interface_add this (fragment # fragments) =
     bindE (Fragment_format fragment) (\<lambda>signature.
       Interface_add
         (case fragment of
            FunctionFragment n i out \<Rightarrow> this\<lparr>i_functions := addFragment (i_functions this) signature fragment\<rparr>
          | EventFragment n i a \<Rightarrow> this\<lparr>i_events := addFragment (i_events this) signature fragment\<rparr>
          | ErrorFragment n i \<Rightarrow> this\<lparr>i_errors := addFragment (i_errors this) signature fragment\<rparr>)
         fragments)"

definition Interface_new :: "Fragment list \<Rightarrow> error + Interface" where
  "Interface_new fragments = Interface_add \<lparr>i_functions = [], i_events = [], i_errors = []\<rparr> fragments"

text \<open>
  \<open>getError\<close> (lines 3617--3627) on a hex string, which the selector that
  \<open>decodeFunctionResult\<close> passes always is: the first error whose sighash is the
  selector.
\<close>

fun findError :: "platform \<Rightarrow> string \<Rightarrow> (string \<times> Fragment) list \<Rightarrow> error + Fragment" where
  "findError P sighash [] = throwArgumentError ''no matching error''"
| "findError P sighash ((name, error) # rest) =
     bindE (Interface_getSighash P error) (\<lambda>s. if sighash = s then Inr error else findError P sighash rest)"

definition Interface_getError :: "platform \<Rightarrow> Interface \<Rightarrow> string \<Rightarrow> error + Fragment" where
  "Interface_getError P this sighash = findError P sighash (i_errors this)"

text \<open>Reading the element \<open>k\<close> of a \<open>Result\<close>.\<close>

definition resultAt :: "val \<Rightarrow> nat \<Rightarrow> error + val" where
  "resultAt res k =
     (case res of
        VArray slots named \<Rightarrow>
          (if k < length slots then (case slots ! k of Value v \<Rightarrow> Inr v | Getter e \<Rightarrow> Inl e)
           else Inr VNull)
      | _ \<Rightarrow> Inr VNull)"

text \<open>
  \<open>decodeFunctionResult\<close> (lines 3741--3790). The method is declared
  \<open>static\<close>, so \<open>this\<close> is the object it is called on: the class
  \<open>Interface\<close> itself in the call \<open>Interface.decodeFunctionResult(FF, data)\<close> of
  line 4114, which has no property \<open>_abiCoder\<close>; an instance when the method is
  applied to one. What is thrown is an error or the call exception of line 3783, whose
  parameters replace the \<open>reason\<close> of the error.
\<close>

datatype receiver = ClassObject | Instance Interface

datatype CallException =
  CallException (ce_method: string) (ce_errorArgs: "val option") (ce_errorName: "string option")
                (ce_errorSignature: "string option") (ce_reason: val)

datatype thrown = Thrown error | CallRevert CallException

definition userError :: "platform \<Rightarrow> Interface \<Rightarrow> string \<Rightarrow> byte list \<Rightarrow> val option \<times> string option \<times> string option" where
  "userError P this selector bytes =
     (case Interface_getError P this selector of
        Inl e \<Rightarrow> (None, None, None)
      | Inr error \<Rightarrow>
          (case AbiCoder_decode P (map TypeObject (fr_inputs error)) (VBytes (drop 4 bytes)) False of
             Inl e \<Rightarrow> (None, None, None)
           | Inr errorArgs \<Rightarrow>
               (Some errorArgs, Some (fr_name error),
                (case Fragment_format error of Inl e \<Rightarrow> None | Inr s \<Rightarrow> Some s))))"

definition revertInfo ::
    "platform \<Rightarrow> Interface \<Rightarrow> byte list \<Rightarrow> error + (val option \<times> string option \<times> string option \<times> val)" where
  "revertInfo P this bytes =
     (if length bytes mod 32 = 4 then
        (let selector = hexlify (take 4 bytes) in
         case BuiltinErrors selector of
           Some (signature, name, inputs, hasReason) \<Rightarrow>
             bindE (AbiCoder_decode P (map TypeString inputs) (VBytes (drop 4 bytes)) False) (\<lambda>errorArgs.
             bindE (if hasReason then resultAt errorArgs 0 else Inr VNull) (\<lambda>why.
               Inr (Some errorArgs, Some name, Some signature, why)))
         | None \<Rightarrow>
             (case userError P this selector bytes of
                (errorArgs, errorName, errorSignature) \<Rightarrow> Inr (errorArgs, errorName, errorSignature, VNull)))
      else Inr (None, None, None, VNull))"

definition decodeFunctionResult :: "platform \<Rightarrow> receiver \<Rightarrow> Fragment \<Rightarrow> val \<Rightarrow> thrown + val" where
  "decodeFunctionResult P this functionFragment d =
     (case arrayify d of
        Inl e \<Rightarrow> Inl (Thrown e)
      | Inr bytes \<Rightarrow>
          (case this of
             ClassObject \<Rightarrow>
               Inl (Thrown (Error TypeError ''Cannot read properties of undefined (reading _getWordSize)'' None))
           | Instance iface \<Rightarrow>
               (case (if length bytes mod 32 = 0
                        then (case fr_outputs functionFragment of
                                None \<Rightarrow> None
                              | Some outputs \<Rightarrow>
                                  (case AbiCoder_decode P (map TypeObject outputs) (VBytes bytes) False of
                                     Inl e \<Rightarrow> None
                                   | Inr res \<Rightarrow> Some res))
                      else None) of
                  Some res \<Rightarrow> Inr res
                | None \<Rightarrow>
                    (case revertInfo P iface bytes of
                       Inl e \<Rightarrow> Inl (Thrown e)
                     | Inr (errorArgs, errorName, errorSignature, why) \<Rightarrow>
                         (case Fragment_format functionFragment of
                            Inl e \<Rightarrow> Inl (Thrown e)
                          | Inr method \<Rightarrow>
                              Inl (CallRevert (CallException method errorArgs errorName errorSignature why)))))))"

subsection \<open>decodeEventLog (lines 3910--4008)\<close>

text \<open>
  The array \<open>result\<close> while it is built: its properties by key, an index being the
  key that spells it. A property is a value, an error stored as a value (line 3967), or
  a getter that throws. The file is compiled in strict mode, where an assignment to a
  property that has only a getter throws a \<open>TypeError\<close>.
\<close>

datatype cell = Data val | Caught error | Thrower error

definition putProperty :: "(string \<times> cell) list \<Rightarrow> string \<Rightarrow> cell \<Rightarrow> (string \<times> cell) list" where
  "putProperty result key c =
     (if map_of result key = None then result @ [(key, c)]
      else map (\<lambda>(k, x). if k = key then (k, c) else (k, x)) result)"

definition assign :: "(string \<times> cell) list \<Rightarrow> string \<Rightarrow> cell \<Rightarrow> error + (string \<times> cell) list" where
  "assign result key c =
     (case map_of result key of
        Some (Thrower e) \<Rightarrow> Inl (Error TypeError ''Cannot set property which has only a getter'' None)
      | _ \<Rightarrow> Inr (putProperty result key c))"

text \<open>\<open>try { result[index] = ... } catch (error) { result[index] = error }\<close>.\<close>

definition assignTry :: "(string \<times> cell) list \<Rightarrow> string \<Rightarrow> error + val \<Rightarrow> error + (string \<times> cell) list" where
  "assignTry result key m =
     (case m of
        Inl e \<Rightarrow> assign result key (Caught e)
      | Inr v \<Rightarrow>
          (case assign result key (Data v) of
             Inl e \<Rightarrow> assign result key (Caught e)
           | Inr r \<Rightarrow> Inr r))"

definition propertyIsNull :: "platform \<Rightarrow> (string \<times> cell) list \<Rightarrow> string \<Rightarrow> error + bool" where
  "propertyIsNull P result name =
     (case map_of result name of
        Some (Data v) \<Rightarrow> Inr (v = VNull)
      | Some (Caught e) \<Rightarrow> Inr False
      | Some (Thrower e) \<Rightarrow> Inl e
      | None \<Rightarrow> Inr (\<not> (name = ''length'' \<or> inherited P name)))"

text \<open>\<open>wrapAccessError\<close> (lines 3342--3346); the error it wraps is not kept.\<close>

definition wrapAccessError :: "string \<Rightarrow> error \<Rightarrow> error" where
  "wrapAccessError accessed e =
     Error PlainError (''deferred error during ABI decoding triggered accessing '' @ accessed) None"

definition isHashed :: "ParamType \<Rightarrow> bool" where
  "isHashed param =
     (pt_type param = ''string'' \<or> pt_type param = ''bytes''
      \<or> pt_baseType param = ''tuple'' \<or> pt_baseType param = ''array'')"

definition indexedTypes :: "ParamType list \<Rightarrow> ParamType list" where
  "indexedTypes inputs =
     map (\<lambda>param. if isHashed param then ParamType_fromObject (ParseNode ''bytes32'' (pt_name param) None None)
                   else param)
       (filter (\<lambda>param. pt_indexed param = Some True) inputs)"

definition nonIndexedTypes :: "ParamType list \<Rightarrow> ParamType list" where
  "nonIndexedTypes inputs = filter (\<lambda>param. pt_indexed param \<noteq> Some True) inputs"

text \<open>The element of the result for one parameter (lines 3958--3976).\<close>

definition eventElement ::
    "val option \<Rightarrow> val \<Rightarrow> ParamType \<Rightarrow> nat \<Rightarrow> (string \<times> cell) list \<times> nat \<times> nat
     \<Rightarrow> error + ((string \<times> cell) list \<times> nat \<times> nat)" where
  "eventElement resultIndexed resultNonIndexed param index st =
     (case st of (result, nonIndexedIndex, indexedIndex) \<Rightarrow>
        if pt_indexed param = Some True then
          (case resultIndexed of
             None \<Rightarrow>
               bindE (assign result (showNat index) (Data (VIndexed VNull))) (\<lambda>r.
                 Inr (r, nonIndexedIndex, indexedIndex))
           | Some ri \<Rightarrow>
               if isHashed param then
                 bindE (resultAt ri indexedIndex) (\<lambda>h.
                 bindE (assign result (showNat index) (Data (VIndexed h))) (\<lambda>r.
                   Inr (r, nonIndexedIndex, Suc indexedIndex)))
               else
                 bindE (assignTry result (showNat index) (resultAt ri indexedIndex)) (\<lambda>r.
                   Inr (r, nonIndexedIndex, Suc indexedIndex)))
        else
          bindE (assignTry result (showNat index) (resultAt resultNonIndexed nonIndexedIndex)) (\<lambda>r.
            Inr (r, Suc nonIndexedIndex, indexedIndex)))"

text \<open>The keyword argument (lines 3978--3992).\<close>

definition eventKeyword :: "platform \<Rightarrow> ParamType \<Rightarrow> nat \<Rightarrow> (string \<times> cell) list \<Rightarrow> error + (string \<times> cell) list" where
  "eventKeyword P param index result =
     (if pt_name param = [] then Inr result
      else
        bindE (propertyIsNull P result (pt_name param)) (\<lambda>isNull.
          if \<not> isNull then Inr result
          else
            (case map_of result (showNat index) of
               Some (Caught e) \<Rightarrow>
                 Inr (putProperty result (pt_name param)
                        (Thrower (wrapAccessError (''property '' @ jsonString (pt_name param)) e)))
             | Some (Data v) \<Rightarrow> assign result (pt_name param) (Data v)
             | Some (Thrower e) \<Rightarrow> Inl e
             | None \<Rightarrow> assign result (pt_name param) (Data VNull))))"

fun eventLoop ::
    "platform \<Rightarrow> val option \<Rightarrow> val \<Rightarrow> ParamType list \<Rightarrow> nat \<Rightarrow> (string \<times> cell) list \<times> nat \<times> nat
     \<Rightarrow> error + (string \<times> cell) list" where
  "eventLoop P resultIndexed resultNonIndexed [] index st = Inr (fst st)"
| "eventLoop P resultIndexed resultNonIndexed (param # params) index st =
     bindE (eventElement resultIndexed resultNonIndexed param index st) (\<lambda>(result, nonIndexedIndex, indexedIndex).
     bindE (eventKeyword P param index result) (\<lambda>result'.
       eventLoop P resultIndexed resultNonIndexed params (Suc index) (result', nonIndexedIndex, indexedIndex)))"

text \<open>
  The last loop (lines 3996--4005) reads every index below the length of the array, and
  the array as it is returned.
\<close>

definition resultLength :: "(string \<times> cell) list \<Rightarrow> nat" where
  "resultLength result =
     foldl max 0 (map (\<lambda>(k, c). Suc (parseDecimal k)) (filter (\<lambda>(k, c). isArrayIndex k) result))"

definition cellSlot :: "string \<Rightarrow> cell \<Rightarrow> val slot" where
  "cellSlot key c =
     (case c of
        Data v \<Rightarrow> Value v
      | Caught e \<Rightarrow> Getter (wrapAccessError (''index '' @ key) e)
      | Thrower e \<Rightarrow> Getter e)"

definition elementSlot :: "(string \<times> cell) list \<Rightarrow> nat \<Rightarrow> val slot" where
  "elementSlot result i =
     (case map_of result (showNat i) of None \<Rightarrow> Value VNull | Some c \<Rightarrow> cellSlot (showNat i) c)"

definition throwers :: "(string \<times> cell) list \<Rightarrow> nat list \<Rightarrow> error list" where
  "throwers result is =
     concat (map (\<lambda>i. case map_of result (showNat i) of Some (Thrower e) \<Rightarrow> [e] | _ \<Rightarrow> []) is)"

definition finishResult :: "(string \<times> cell) list \<Rightarrow> error + val" where
  "finishResult result =
     (case throwers result [0 ..< resultLength result] of
        e # _ \<Rightarrow> Inl e
      | [] \<Rightarrow>
          Inr (VArray (map (elementSlot result) [0 ..< resultLength result])
                 (map (\<lambda>(k, c). (k, cellSlot k c)) (filter (\<lambda>(k, c). \<not> isArrayIndex k) result))))"

definition concatBytes :: "string list \<Rightarrow> error + byte list" where
  "concatBytes items = bindE (mapE arrayifyString items) (\<lambda>objects. Inr (concat objects))"

text \<open>
  \<open>decodeEventLog\<close> with a fragment object; \<open>topics\<close> is \<open>None\<close> when
  the argument is missing or \<open>null\<close>.
\<close>

definition decodeEventLog :: "platform \<Rightarrow> Fragment \<Rightarrow> val \<Rightarrow> string list option \<Rightarrow> error + val" where
  "decodeEventLog P eventFragment d topics =
     bindE (case topics of
              None \<Rightarrow> Inr None
            | Some ts \<Rightarrow>
                if fr_anonymous eventFragment then Inr (Some ts)
                else
                  bindE (Interface_getEventTopic P eventFragment) (\<lambda>topicHash.
                    if ts = [] \<or> \<not> isHexString (hd ts) (Some 32) \<or> toLowerCase (hd ts) \<noteq> topicHash
                      then throwError ''fragment/topic mismatch'' INVALID_ARGUMENT
                    else Inr (Some (tl ts)))) (\<lambda>topics'.
     bindE (case topics' of
              None \<Rightarrow> Inr None
            | Some ts \<Rightarrow>
                bindE (concatBytes ts) (\<lambda>bytes.
                bindE (AbiCoder_decode P (map TypeObject (indexedTypes (fr_inputs eventFragment))) (VBytes bytes) False)
                  (\<lambda>r. Inr (Some r)))) (\<lambda>resultIndexed.
     bindE (AbiCoder_decode P (map TypeObject (nonIndexedTypes (fr_inputs eventFragment))) d True) (\<lambda>resultNonIndexed.
     bindE (eventLoop P resultIndexed resultNonIndexed (fr_inputs eventFragment) 0 ([], 0, 0)) finishResult)))"

section \<open>Auxiliary notions for the statements\<close>

text \<open>The 32-byte big-endian word that spells a number below \<open>2 ^ 256\<close>.\<close>

definition word32 :: "nat \<Rightarrow> byte list" where
  "word32 n = replicate (32 - length (beBytes n)) 0 @ beBytes n"

text \<open>A platform for the closed examples: an empty digest and no inherited names.\<close>

definition P1 :: platform where
  "P1 = \<lparr>keccak_256 = (\<lambda>_. []), inherited = (\<lambda>_. False), objectInherited = (\<lambda>_. False),
          stringify = (\<lambda>_. [])\<rparr>"

text \<open>
  A name that is a property of its own on the result array: not \<open>length\<close>, not an
  array index, and not a name that arrays or objects inherit.
\<close>

definition ordinaryName :: "platform \<Rightarrow> string \<Rightarrow> bool" where
  "ordinaryName P name =
     (name \<noteq> ''length'' \<and> \<not> isArrayIndex name \<and> \<not> inherited P name \<and> \<not> objectInherited P name)"

text \<open>
  The named properties of a result: for each coder whose name is borne by no other coder
  of \<open>allCoders\<close>, the slot at the coder's position.
\<close>

definition namedProperties ::
    "platform \<Rightarrow> Coder list \<Rightarrow> Coder list \<Rightarrow> val slot list \<Rightarrow> (string \<times> val slot) list" where
  "namedProperties P allCoders coders slots =
     map (\<lambda>(c, s). (localName c, s))
       (filter (\<lambda>(c, s). localName c \<noteq> [] \<and> isUniqueName P allCoders (localName c)) (zip coders slots))"

text \<open>
  The data of a tuple \<open>(bool a, string b, bool c)\<close> whose string is the single byte
  \<open>0xff\<close>, which is not UTF-8, and a reader of it at a given offset.
\<close>

definition tupleData :: "byte list" where
  "tupleData = word32 1 @ word32 96 @ word32 0 @ word32 1 @ (255 # replicate 31 0)"

definition tupleReader :: "nat \<Rightarrow> Reader" where
  "tupleReader off = \<lparr>r_data = tupleData, r_offset = off, r_allowLoose = False\<rparr>"

text \<open>
  An object that the constructor of \<open>ParamType\<close> has made; the position among the
  topics of the parameter at position \<open>i\<close>; the coders that read one word.
\<close>

definition wellFormed :: "ParamType \<Rightarrow> bool" where
  "wellFormed p = (p = newParamType (pt_name p) (pt_type p) (pt_indexed p) (pt_components p))"

definition topicIndex :: "ParamType list \<Rightarrow> nat \<Rightarrow> nat" where
  "topicIndex inputs i = length (filter (\<lambda>p. pt_indexed p = Some True) (take i inputs))"

fun wordCoder :: "Coder \<Rightarrow> bool" where
  "wordCoder (AddressCoder n) = True"
| "wordCoder (BooleanCoder n) = True"
| "wordCoder (NumberCoder sz sgnd n) = True"
| "wordCoder (FixedBytesCoder sz n) = (1 \<le> sz \<and> sz \<le> 32)"
| "wordCoder c = False"

text \<open>
  A platform whose digest is 32 zero bytes, and the event \<open>E(string indexed s)\<close>
  with the topics of one of its logs.
\<close>

definition P2 :: platform where
  "P2 = \<lparr>keccak_256 = (\<lambda>_. replicate 32 0), inherited = (\<lambda>_. False), objectInherited = (\<lambda>_. False),
          stringify = (\<lambda>_. [])\<rparr>"

definition eventE :: Fragment where
  "eventE = EventFragment ''E'' [ParamType ''s'' ''string'' ''string'' (Some True) None None None] False"

definition topicsE :: "string list" where
  "topicsE = [''0x0000000000000000000000000000000000000000000000000000000000000000'',
              ''0xabababababababababababababababababababababababababababababababab'']"

text \<open>
  A reader of given data at a given offset, and the data of two tuples
  \<open>(bool a, string b)\<close>: in the first the string claims 100 bytes that are not
  there, in the second the offset of the string is \<open>2^256 - 1\<close>.
\<close>

definition readerAt :: "byte list \<Rightarrow> nat \<Rightarrow> Reader" where
  "readerAt d off = \<lparr>r_data = d, r_offset = off, r_allowLoose = False\<rparr>"

definition overrunData :: "byte list" where
  "overrunData = word32 1 @ word32 64 @ word32 100"

definition overflowData :: "byte list" where
  "overflowData = word32 1 @ replicate 32 255"

text \<open>
  The value \<open>[[[], []]]\<close> for the types \<open>['uint256[0][]']\<close>: one array of
  two arrays of length 0; and the two words \<open>0x20\<close>, \<open>0x02\<close>.
\<close>

definition nestedEmpty :: val where
  "nestedEmpty = VArray [Value (VArray [Value (VArray [] []), Value (VArray [] [])] [])] []"

definition encodedEmpty :: string where
  "encodedEmpty = ''0x0000000000000000000000000000000000000000000000000000000000000020''
                  @ ''0000000000000000000000000000000000000000000000000000000000000002''"

chapter \<open>Properties\<close>

section \<open>Hexadecimal text, big-endian words\<close>

lemma hex_table:
  "\<forall>k \<in> set [0..<16]. hexDigitValue (HexCharacters ! k) = k \<and> isHexDigit (HexCharacters ! k)"
  by code_simp

lemma hexDigitValue_Hex: "k < 16 \<Longrightarrow> hexDigitValue (HexCharacters ! k) = k"
  using hex_table by simp

lemma isHexDigit_Hex: "k < 16 \<Longrightarrow> isHexDigit (HexCharacters ! k)"
  using hex_table by simp

lemma parseHex_hexlify_aux:
  "foldl (\<lambda>a c. a * 16 + hexDigitValue c) a
     (concat (map (\<lambda>v. [HexCharacters ! (unat v div 16), HexCharacters ! (unat v mod 16)]) bs))
   = foldl (\<lambda>a b. a * 256 + unat b) a (bs :: byte list)"
proof (induction bs arbitrary: a)
  case Nil
  then show ?case by simp
next
  case (Cons v bs)
  have lt: "unat v div 16 < 16"
    using unsigned_less [of v, where 'a = nat] by (simp add: less_mult_imp_div_less)
  have "(a * 16 + unat v div 16) * 16 + unat v mod 16 = a * 256 + unat v"
    by (simp add: algebra_simps)
  then show ?case
    using Cons.IH [of "a * 256 + unat v"] lt by (simp add: hexDigitValue_Hex add.commute mult.commute)
qed

lemma isHex_hexlify_aux:
  "list_all isHexDigit (concat (map (\<lambda>v. [HexCharacters ! (unat v div 16), HexCharacters ! (unat v mod 16)]) (bs :: byte list)))"
proof (induction bs)
  case Nil
  then show ?case by simp
next
  case (Cons v bs)
  have lt: "unat v div 16 < 16"
    using unsigned_less [of v, where 'a = nat] by (simp add: less_mult_imp_div_less)
  then show ?case using Cons by (simp add: isHexDigit_Hex)
qed

lemma bnDigit_hex: "isHexDigit c \<Longrightarrow> bnDigit c = hexDigitValue c"
proof -
  assume h: "isHexDigit c"
  have d: "(charCode c + 208) mod 16 = charCode c - 48" if "48 \<le> charCode c" "charCode c \<le> 57"
    using that by presburger
  show ?thesis
    using h d
    by (auto simp: bnDigit_def hexDigitValue_def isHexDigit_def isDigit_def isLowerHex_def isUpperHex_def)
qed

lemma bnHex_foldl:
  "list_all isHexDigit s \<Longrightarrow>
   foldl (\<lambda>a c. a * 16 + bnDigit c) a s = foldl (\<lambda>a c. a * 16 + hexDigitValue c) a s"
  by (induction s arbitrary: a) (simp_all add: bnDigit_hex)

lemma bnHex_hex: "list_all isHexDigit s \<Longrightarrow> bnHex s = parseHex s"
  by (simp add: bnHex_def parseHex_def bnHex_foldl)

lemma bnHex_hexlify: "bnHex (drop 2 (hexlify bs)) = beNat bs"
proof -
  have "bnHex (drop 2 (hexlify bs)) = parseHex (drop 2 (hexlify bs))"
    by (rule bnHex_hex) (simp add: hexlify_def isHex_hexlify_aux)
  also have "\<dots> = beNat bs"
    by (simp add: hexlify_def parseHex_def beNat_def parseHex_hexlify_aux)
  finally show ?thesis .
qed

lemma bnDigit_zero: "bnDigit CHR ''0'' = 0"
  by code_simp

lemma trimHex_value:
  "take 2 h = ''0x'' \<Longrightarrow> take 2 (trimHex h) = ''0x'' \<and> bnHex (drop 2 (trimHex h)) = bnHex (drop 2 h)"
proof (induction h rule: trimHex.induct)
  case (1 v)
  show ?case
  proof (cases "length v > 4 \<and> take 4 v = ''0x00''")
    case False
    then have "trimHex v = v" by (subst trimHex.simps) auto
    then show ?thesis using 1(2) by simp
  next
    case True
    then have t: "trimHex v = trimHex (''0x'' @ drop 4 v)" by (subst trimHex.simps) simp
    from True have v: "v = ''0x00'' @ drop 4 v" by (metis append_take_drop_id)
    have "drop 2 v = ''00'' @ drop 4 v" by (subst v) simp
    then have "bnHex (drop 2 v) = bnHex (drop 4 v)"
      by (simp add: bnHex_def bnDigit_zero)
    moreover have "take 2 (trimHex (''0x'' @ drop 4 v)) = ''0x''
        \<and> bnHex (drop 2 (trimHex (''0x'' @ drop 4 v))) = bnHex (drop 2 (''0x'' @ drop 4 v))"
      using 1(1) True by simp
    ultimately show ?thesis unfolding t by simp
  qed
qed

lemma BigNumber_fromBytes_beNat:
  assumes "bs \<noteq> []"
  shows "BigNumber_fromBytes bs = Inr (int (beNat bs))"
proof -
  define ds where "ds = concat (map (\<lambda>v. [HexCharacters ! (unat v div 16), HexCharacters ! (unat v mod 16)]) bs)"
  define hh where "hh = hexlify bs"
  have h: "hh = CHR ''0'' # CHR ''x'' # ds"
    by (simp add: hh_def hexlify_def ds_def)
  have ne: "ds \<noteq> []"
    using assms by (cases bs) (simp_all add: ds_def)
  have hx: "list_all isHexDigit ds"
    unfolding ds_def by (rule isHex_hexlify_aux)
  have ev: "length ds mod 2 = 0"
    unfolding ds_def by (induction bs) simp_all
  have t: "take 2 hh = ''0x''" by (simp add: h)
  have u: "toHexUnsigned hh = trimHex hh"
    using ne ev by (simp add: toHexUnsigned_def t) (simp add: h)
  have x1: "toHex hh = Inr (trimHex hh)"
    unfolding toHex_def u by (simp add: h)
  have x: "BigNumber_hexOfString hh = Inr (trimHex hh)"
    unfolding BigNumber_hexOfString_def x1 Let_def using ne hx by (simp add: h)
  from trimHex_value [OF t] have
    p: "take 2 (trimHex hh) = ''0x''"
    and v: "bnHex (drop 2 (trimHex hh)) = bnHex (drop 2 hh)" by simp_all
  have "take 1 (trimHex hh) = take 1 (take 2 (trimHex hh))" by simp
  then have "take 1 (trimHex hh) = ''0''" unfolding p by simp
  then have "toBN (trimHex hh) = int (bnHex (drop 2 hh))"
    by (simp add: toBN_def v)
  moreover have "bnHex (drop 2 hh) = beNat bs"
    unfolding hh_def by (rule bnHex_hexlify)
  ultimately have "bindE (BigNumber_hexOfString hh) (\<lambda>hex. Inr (toBN hex)) = Inr (int (beNat bs))"
    by (simp add: x)
  then show ?thesis
    by (simp add: BigNumber_fromBytes_def hh_def)
qed

lemma beNat_append: "beNat (xs @ ys) = foldl (\<lambda>a b. a * 256 + unat b) (beNat xs) ys"
  by (simp add: beNat_def)

lemma beNat_snoc: "beNat (xs @ [b]) = beNat xs * 256 + unat b"
  by (simp add: beNat_def)

lemma beNat_beBytes: "beNat (beBytes n) = n"
proof (induction n rule: beBytes.induct)
  case (1 n)
  show ?case
  proof (cases "n = 0")
    case True
    then show ?thesis by (simp add: beBytes.simps beNat_def)
  next
    case False
    then show ?thesis
      using "1" by (subst beBytes.simps) (simp add: beNat_snoc unat_of_nat)
  qed
qed

lemma of_char_less: "(of_char c :: nat) < 256"
  by simp

lemma of_char_less16: "(of_char c :: nat) < 65536"
  using of_char_less [of c] by linarith

lemma unat_widen_char: "unat (of_nat (of_char c) :: 16 word) = of_char c"
  using of_char_less16 [of c] by (simp add: unat_of_nat take_bit_eq_mod)

lemma narrow_widen: "narrow (widen s) = Some s"
proof -
  have b: "\<forall>c \<in> set (widen s). unat c < 256"
    using of_char_less by (auto simp: widen_def unat_widen_char)
  have "map (\<lambda>c. char_of (unat c)) (widen s) = s"
    by (simp add: widen_def unat_widen_char comp_def map_idI)
  then show ?thesis using b by (simp add: narrow_def)
qed

lemma toBN_toHexString: "toBN (toHexString n) = n"
proof -
  have z: "toBN ''0x00'' = 0" by code_simp
  have p: "take (Suc 0) (hexlify bs) = ''0''" for bs by (simp add: hexlify_def)
  show ?thesis
    using z by (simp add: toHexString_def toBN_def p bnHex_hexlify beNat_beBytes)
qed

lemma BigNumber_from_BigNumber [simp]: "BigNumber_from (VBigNumber n) = Inr n"
  by (simp add: BigNumber_from_def toBN_toHexString)

lemma BigNumber_from_Number [simp]:
  "BigNumber_from (VNumber v) =
     (if v \<ge> MAX_SAFE \<or> v \<le> - MAX_SAFE then throwFault ''overflow'' ''BigNumber.from'' else Inr v)"
  by (simp add: BigNumber_from_def toBN_toHexString throwFault_def throwError_def)

lemma beNat_zeros: "beNat (replicate k 0 @ bs) = beNat bs"
  by (induction k) (simp_all add: beNat_def)

lemma length_beBytes: "n < 256 ^ k \<Longrightarrow> length (beBytes n) \<le> k"
proof (induction k arbitrary: n)
  case 0
  then show ?case by (simp add: beBytes.simps)
next
  case (Suc k)
  show ?case
  proof (cases "n = 0")
    case True
    then show ?thesis by (simp add: beBytes.simps)
  next
    case False
    have "n div 256 < 256 ^ k"
      using Suc.prems by (simp add: less_mult_imp_div_less mult.commute)
    then show ?thesis
      using Suc.IH [of "n div 256"] False by (subst beBytes.simps) simp
  qed
qed

lemma beBytes_nonempty: "0 < n \<Longrightarrow> beBytes n \<noteq> []"
  by (subst beBytes.simps) simp


lemma length_word32: "n < 2 ^ 256 \<Longrightarrow> length (word32 n) = 32"
proof -
  assume "n < 2 ^ 256"
  then have "n < 256 ^ 32" by simp
  then have "length (beBytes n) \<le> 32" by (rule length_beBytes)
  then show ?thesis by (simp add: word32_def)
qed

lemma beNat_word32: "beNat (word32 n) = n"
  by (simp add: word32_def beNat_zeros beNat_beBytes)

lemma hexPairs_hexlify_aux:
  "hexPairs (concat (map (\<lambda>v. [HexCharacters ! (unat v div 16), HexCharacters ! (unat v mod 16)]) bs)) = (bs :: byte list)"
proof (induction bs)
  case Nil
  then show ?case by simp
next
  case (Cons v bs)
  have lt: "unat v div 16 < 16"
    using unsigned_less [of v, where 'a = nat] by (simp add: less_mult_imp_div_less)
  have "unat v div 16 * 16 + unat v mod 16 = unat v" by simp
  then show ?case using Cons lt by (simp add: hexDigitValue_Hex)
qed

lemma length_hexlify_aux:
  "length (concat (map (\<lambda>v. [f v, g v]) bs)) = 2 * length bs"
  by (induction bs) simp_all

lemma arrayifyString_hexlify: "arrayifyString (hexlify bs) = Inr bs"
  by (simp add: arrayifyString_def hexlify_def isHexString_def isHex_hexlify_aux
      hexPairs_hexlify_aux length_hexlify_aux)

lemma arrayifyString_toHexString:
  "0 \<le> n \<Longrightarrow> arrayifyString (toHexString n) = arrayifyBigNumber n"
proof -
  assume "0 \<le> n"
  have "''0x00'' = hexlify [0]" by (simp add: hexlify_def HexCharacters_def)
  then have "arrayifyString ''0x00'' = Inr [0]" by (simp only: arrayifyString_hexlify)
  then show ?thesis
    using \<open>0 \<le> n\<close> by (simp add: toHexString_def arrayifyBigNumber_def arrayifyString_hexlify)
qed

lemma getValue_BigNumber:
  assumes "0 \<le> n" "n < 2 ^ 256"
  shows "getValue (VBigNumber n) = Inr (word32 (nat n))"
proof (cases "n = 0")
  case True
  have "replicate 32 (0::byte) = replicate 31 0 @ replicate 1 0"
    using replicate_add [of 31 1 "0::byte"] by simp
  then have "drop 1 (replicate 32 (0::byte)) @ [0] = replicate 32 0"
    by (simp add: replicate_append_same)
  then show ?thesis
    using True by (simp add: getValue_def arrayifyString_toHexString arrayifyBigNumber_def wordSize_def padding_def word32_def beBytes.simps)
next
  case False
  have "nat n < 256 ^ 32" using assms by (simp add: nat_less_iff)
  then have le: "length (beBytes (nat n)) \<le> 32" by (rule length_beBytes)
  have ne: "beBytes (nat n) \<noteq> []" using False assms by (simp add: beBytes_nonempty)
  show ?thesis
  proof (cases "length (beBytes (nat n)) = 32")
    case True
    then show ?thesis
      using False assms by (simp add: getValue_def arrayifyString_toHexString arrayifyBigNumber_def wordSize_def padding_def word32_def)
  next
    case F: False
    then have "length (beBytes (nat n)) mod 32 = length (beBytes (nat n))" using le by simp
    then show ?thesis
      using False assms le F ne by (simp add: getValue_def arrayifyString_toHexString arrayifyBigNumber_def wordSize_def padding_def word32_def)
  qed
qed

lemma readValue_ok:
  assumes "r_offset r + 32 \<le> length (r_data r)"
  shows "readValue r = (Inr (int (beNat (take 32 (drop (r_offset r) (r_data r))))), r\<lparr>r_offset := r_offset r + 32\<rparr>)"
proof -
  have len: "length (take 32 (drop (r_offset r) (r_data r))) = 32" using assms by simp
  then have ne: "take 32 (drop (r_offset r) (r_data r)) \<noteq> []" by auto
  show ?thesis
    using assms len
    by (simp add: readValue_def readBytes_def peekBytes_def wordSize_def bindR_def liftR_def
        BigNumber_fromBytes_beNat [OF ne])
qed

lemma showNat_props: "showNat n \<noteq> [] \<and> list_all isDigit (showNat n) \<and> parseDecimal (showNat n) = n"
proof (induction n rule: showNat.induct)
  case (1 n)
  have d: "\<And>k::nat. k < 10 \<Longrightarrow> charCode (char_of (48 + k)) = 48 + k"
    by (simp add: charCode_def)
  have dd: "\<And>k::nat. k < 10 \<Longrightarrow> isDigit (char_of (48 + k))"
    by (simp add: isDigit_def d)
  show ?case
  proof (cases "n < 10")
    case True
    then show ?thesis
      by (subst (1 2 3) showNat.simps) (simp add: parseDecimal_def d dd)
  next
    case False
    have m: "n mod 10 < 10" by simp
    show ?thesis
      using "1" False
      by (subst (1 2 3) showNat.simps) (simp add: parseDecimal_def d [OF m] dd [OF m])
  qed
qed

lemma beNat_zero_iff: "beNat bs = 0 \<longleftrightarrow> (\<forall>b \<in> set bs. b = 0)"
proof (induction bs rule: rev_induct)
  case Nil
  then show ?case by (simp add: beNat_def)
next
  case (snoc b bs)
  then show ?case by (auto simp: beNat_snoc unat_eq_0)
qed

lemma all_zero_replicate: "(\<forall>b \<in> set bs. b = (0::byte)) \<longleftrightarrow> bs = replicate (length bs) 0"
  by (induction bs) auto

lemma coerce_bool: "coerce ''bool'' v = Inr v"
  by (simp add: coerce_def coerceMatch_def)

section \<open>Claim C10: decoding a boolean\<close>

text \<open>
  Claim C10. \<open>BooleanCoder.decode\<close> returns \<open>false\<close> exactly when the
  32-byte word it reads is zero: every other word, not only the canonical encoding 1,
  decodes to \<open>true\<close>. Whenever the reader holds a whole word at its offset the
  decode returns, so it never fails on a non-canonical boolean word.
\<close>

theorem BooleanCoder_decode_nonzero:
  assumes "r_offset r + 32 \<le> length (r_data r)"
  shows "BooleanCoder_decode r =
           (Inr (VBool (take 32 (drop (r_offset r) (r_data r)) \<noteq> replicate 32 0)),
            r\<lparr>r_offset := r_offset r + 32\<rparr>)"
proof -
  let ?w = "take 32 (drop (r_offset r) (r_data r))"
  have len: "length ?w = 32" using assms by simp
  have "(beNat ?w = 0) = (?w = replicate 32 0)"
    using all_zero_replicate [of ?w] len by (simp add: beNat_zero_iff)
  then show ?thesis
    by (simp add: BooleanCoder_decode_def bindR_def liftR_def readValue_ok [OF assms] coerce_bool)
qed

lemma replicate_32_snoc: "replicate 32 x = replicate 31 x @ [x]"
  using replicate_add [of 31 1 x] by simp

theorem BooleanCoder_decode_nonzero_witness:
  "r_offset (newReader (replicate 31 0 @ [2]) False) + 32 \<le> length (r_data (newReader (replicate 31 0 @ [2]) False))
   \<and> BooleanCoder_decode (newReader (replicate 31 0 @ [2]) False) =
       (Inr (VBool True), \<lparr>r_data = replicate 31 0 @ [2], r_offset = 32, r_allowLoose = False\<rparr>)"
  using BooleanCoder_decode_nonzero [of "newReader (replicate 31 0 @ [2]) False"]
  by (simp add: newReader_def replicate_32_snoc)

section \<open>Claim C7: division and modulo by a negative operand\<close>

text \<open>
  A string with the upper-case prefix: \<open>toHex\<close> puts \<open>0x\<close> before it, and
  the library reads the \<open>X\<close> as the digit 8.
\<close>

lemma upper_prefix_eval:
  "BigNumber_hexOfString ''0X0'' = Inr ''0xX0''" "toBN ''0xX0'' = 128"
  "BigNumber_hexOfString ''0X7f'' = Inr ''0x0X7f''" "toBN ''0x0X7f'' = 2175"
  by code_simp+

lemma BigNumber_from_upper_prefix:
  "BigNumber_from (VString (widen ''0X0'')) = Inr 128"
  "BigNumber_from (VString (widen ''0X7f'')) = Inr 2175"
  by (simp_all add: BigNumber_from_def narrow_widen upper_prefix_eval)

text \<open>
  Claim C7, as amended. For a BigNumber \<open>x\<close> and an operand that
  \<open>BigNumber.from\<close> reads as \<open>y\<close>: \<open>x.mod(y)\<close> raises a
  NUMERIC_FAULT error when \<open>y\<close> is negative; \<open>x.div(y)\<close> raises a
  NUMERIC_FAULT error when \<open>y\<close> is zero, and for every other \<open>y\<close>, negative
  ones included, it returns the quotient truncated towards zero.
\<close>

theorem BigNumber_div_mod_faults:
  assumes "BigNumber_from other = Inr y"
  shows "(y < 0 \<longrightarrow> BigNumber_mod x other = Inl (makeError ''cannot modulo negative values'' NUMERIC_FAULT))
       \<and> (y = 0 \<longrightarrow> BigNumber_div x other = Inl (makeError ''division by zero'' NUMERIC_FAULT))
       \<and> (y \<noteq> 0 \<longrightarrow> BigNumber_div x other = Inr (sgn x * sgn y * (\<bar>x\<bar> div \<bar>y\<bar>)))"
  using assms
  by (simp add: BigNumber_mod_def BigNumber_div_def throwFault_def throwError_def bn_div_def)

theorem BigNumber_div_mod_faults_witness:
  "BigNumber_from (VBigNumber (- 3)) = Inr (- 3)
   \<and> BigNumber_mod 7 (VBigNumber (- 3)) = Inl (makeError ''cannot modulo negative values'' NUMERIC_FAULT)
   \<and> BigNumber_div 7 (VBigNumber (- 3)) = Inr (- 2)
   \<and> BigNumber_div 7 (VBigNumber 0) = Inl (makeError ''division by zero'' NUMERIC_FAULT)
   \<and> BigNumber_from (VString (widen ''0X0'')) = Inr 128
   \<and> BigNumber_div 7 (VString (widen ''0X0'')) = Inr 0"
  using BigNumber_div_mod_faults [of "VBigNumber (- 3)" "- 3" 7]
        BigNumber_div_mod_faults [of "VBigNumber 0" 0 7]
        BigNumber_div_mod_faults [of "VString (widen ''0X0'')" 128 7]
  by (simp add: BigNumber_from_upper_prefix)

text \<open>
  The claim as stated fails: \<open>div\<close> only guards against a zero operand (line 1120),
  so 6 divided by -3 returns -2.
\<close>

theorem BigNumber_div_negative_counterexample:
  "BigNumber_div 6 (VBigNumber (- 3)) = Inr (- 2)"
  by (simp add: BigNumber_div_def bn_div_def)

section \<open>Claim C2: the bounds of a signed number\<close>

lemma mask_all_ones: "k \<le> n \<Longrightarrow> ((2::int) ^ n - 1) mod 2 ^ k = 2 ^ k - 1"
proof -
  assume "k \<le> n"
  then have "take_bit k (mask n :: int) = mask k"
    by (simp add: take_bit_of_mask min_def)
  then show ?thesis
    by (simp add: take_bit_eq_mod mask_eq_exp_minus_1)
qed


lemma BigNumber_mask_ones:
  "0 \<le> k \<Longrightarrow> k \<le> 256 \<Longrightarrow> BigNumber_mask (2 ^ 256 - 1) k = Inr (2 ^ nat k - 1)"
  using mask_all_ones [of "nat k" 256]
  by (simp add: BigNumber_mask_def)

lemma coerce_NumberCoder:
  "coerce (NumberCoder_name sz sgnd) (VBigNumber n) =
     (if sz * 8 \<le> 48 then bindE (BigNumber_toNumber n) (\<lambda>k. Inr (VNumber k)) else Inr (VBigNumber n))"
  using showNat_props [of "sz * 8"]
  by (simp add: coerce_def coerceMatch_def NumberCoder_name_def)



lemma readValue_word32:
  assumes "n < 2 ^ 256"
  shows "readValue (newReader (word32 n) loose) =
           (Inr (int n), \<lparr>r_data = word32 n, r_offset = 32, r_allowLoose = loose\<rparr>)"
proof -
  have "r_offset (newReader (word32 n) loose) + 32 \<le> length (r_data (newReader (word32 n) loose))"
    using assms by (simp add: newReader_def length_word32)
  from readValue_ok [OF this] show ?thesis
    using assms by (simp add: newReader_def length_word32 beNat_word32)
qed



section \<open>Claim C3: addresses\<close>

lemma charCode_char_of: "charCode (char_of n) = n mod 256"
  by (simp add: charCode_def)

lemma charCode_less: "charCode c < 256"
  by (simp add: charCode_def)

lemma toLower_toUpper: "toLowerChar (toUpperChar c) = toLowerChar c"
proof (cases "97 \<le> charCode c \<and> charCode c \<le> 122")
  case True
  have u: "toUpperChar c = char_of (charCode c - 32)"
    using True by (simp add: toUpperChar_def)
  have "charCode c - 32 < 256" using True by arith
  then have cu: "charCode (char_of (charCode c - 32)) = charCode c - 32"
    by (simp add: charCode_char_of)
  have b: "65 \<le> charCode c - 32" "charCode c - 32 \<le> 90" "charCode c - 32 + 32 = charCode c"
    using True by arith+
  have "toLowerChar (char_of (charCode c - 32)) = char_of (charCode c - 32 + 32)"
    unfolding toLowerChar_def cu using b by simp
  also have "\<dots> = c" unfolding b(3) by (simp add: charCode_def)
  finally have "toLowerChar (toUpperChar c) = c" by (simp add: u)
  moreover have "toLowerChar c = c"
    using True by (simp add: toLowerChar_def)
  ultimately show ?thesis by simp
next
  case False
  then have "toUpperChar c = c" by (auto simp: toUpperChar_def)
  then show ?thesis by simp
qed

lemma isHexDigit_toUpper: "isHexDigit c \<Longrightarrow> isHexDigit (toUpperChar c)"
  by (auto simp: isHexDigit_def isDigit_def isLowerHex_def isUpperHex_def toUpperChar_def charCode_char_of)

lemma isHexDigit_toLower: "isHexDigit c \<Longrightarrow> isHexDigit (toLowerChar c)"
  by (auto simp: isHexDigit_def isDigit_def isLowerHex_def isUpperHex_def toLowerChar_def charCode_char_of)

lemma checksumChars_props:
  "length (checksumChars cs hs) = length cs
   \<and> map toLowerChar (checksumChars cs hs) = map toLowerChar cs
   \<and> (list_all isHexDigit cs \<longrightarrow> list_all isHexDigit (checksumChars cs hs))"
  by (induction cs hs rule: checksumChars.induct)
     (simp_all add: Let_def toLower_toUpper isHexDigit_toUpper)

lemma toLower_idem: "toLowerChar (toLowerChar c) = toLowerChar c"
  by (auto simp: toLowerChar_def charCode_char_of)

lemma getChecksumAddress_fixed:
  assumes "getChecksumAddress P x = Inr r"
  shows "getAddress P r = Inr r"
proof -
  from assms have hx: "isHexString x (Some 20)"
    by (auto simp: getChecksumAddress_def throwArgumentError_def throwError_def split: if_splits)
  then have x: "take 2 x = ''0x''" "list_all isHexDigit (drop 2 x)" "length x = 42"
    by (auto simp: isHexString_def split: if_splits)
  define cs where "cs = drop 2 (toLowerCase x)"
  define hs where "hs = keccak_256 P (map (\<lambda>c. of_nat (charCode c)) cs)"
  have r: "r = ''0x'' @ checksumChars cs hs"
    using assms hx by (simp add: getChecksumAddress_def keccak256_def arrayifyString_hexlify cs_def hs_def Let_def)
  have cs: "length cs = 40" "list_all isHexDigit cs"
    using x by (simp_all add: cs_def toLowerCase_def drop_map list_all_iff isHexDigit_toLower)
  have lowcs: "map toLowerChar cs = cs"
    by (simp add: cs_def toLowerCase_def drop_map toLower_idem)
  note pr = checksumChars_props [of cs hs]
  have lx: "toLowerChar CHR ''x'' = CHR ''x''" "toLowerChar CHR ''0'' = CHR ''0''"
    by (simp_all add: toLowerChar_def charCode_def)
  have hr: "isHexString r (Some 20)"
    using pr cs by (simp add: r isHexString_def)
  have "drop 2 (toLowerCase r) = cs"
    using pr lowcs by (simp add: r toLowerCase_def)
  then have "getChecksumAddress P r = Inr r"
    using hr by (simp add: getChecksumAddress_def keccak256_def arrayifyString_hexlify Let_def r flip: hs_def)
  moreover have "matchesHexAddress r"
    using pr cs by (simp add: r matchesHexAddress_def)
  moreover have "take 2 r = ''0x''" by (simp add: r)
  ultimately show ?thesis
    by (simp add: getAddress_def)
qed

lemma matchesMixedCase_prefix: "matchesMixedCase (''0x'' @ a) = matchesMixedCase a"
  by (simp add: matchesMixedCase_def isUpperHex_def isLowerHex_def charCode_def)

text \<open>
  Claim C3. \<open>getAddress\<close> is idempotent: whenever it accepts an address
  \<open>a\<close> and returns \<open>r\<close>, it accepts \<open>r\<close> and returns
  \<open>r\<close> again. And an address of 40 hex digits (with or without the prefix
  \<open>0x\<close>) that holds both an upper-case and a lower-case hex letter and differs
  from its checksummed form is refused with the argument error
  \<open>bad address checksum\<close>. Both hold for every hash function.
\<close>

theorem getAddress_idempotent_checksum:
  "(getAddress P a = Inr r \<longrightarrow> getAddress P r = Inr r)
   \<and> (matchesHexAddress a \<and> matchesMixedCase a
        \<and> getChecksumAddress P (if take 2 a \<noteq> ''0x'' then ''0x'' @ a else a)
            \<noteq> Inr (if take 2 a \<noteq> ''0x'' then ''0x'' @ a else a)
       \<longrightarrow> getAddress P a = Inl (makeError ''bad address checksum'' INVALID_ARGUMENT))"
proof (intro conjI impI)
  assume ok: "getAddress P a = Inr r"
  show "getAddress P r = Inr r"
  proof (cases "matchesHexAddress a")
    case True
    with ok obtain x where "getChecksumAddress P x = Inr r"
      by (auto simp: getAddress_def Let_def bindE_eq_Inr throwArgumentError_def throwError_def
          split: if_splits)
    then show ?thesis by (rule getChecksumAddress_fixed)
  next
    case False
    with ok obtain x where "getChecksumAddress P x = Inr r"
      by (auto simp: getAddress_def Let_def throwArgumentError_def throwError_def split: if_splits)
    then show ?thesis by (rule getChecksumAddress_fixed)
  qed
next
  define a' where "a' = (if take 2 a \<noteq> ''0x'' then ''0x'' @ a else a)"
  assume h: "matchesHexAddress a \<and> matchesMixedCase a
     \<and> getChecksumAddress P (if take 2 a \<noteq> ''0x'' then ''0x'' @ a else a)
            \<noteq> Inr (if take 2 a \<noteq> ''0x'' then ''0x'' @ a else a)"
  then have m: "matchesHexAddress a" and mixed: "matchesMixedCase a"
    and ne: "getChecksumAddress P a' \<noteq> Inr a'"
    by (simp_all add: a'_def)
  have hx: "isHexString a' (Some 20)"
    using m by (auto simp: matchesHexAddress_def isHexString_def a'_def Let_def split: if_splits)
  then obtain c where c: "getChecksumAddress P a' = Inr c"
    by (simp add: getChecksumAddress_def keccak256_def arrayifyString_hexlify Let_def)
  have mixed': "matchesMixedCase a'"
    using mixed by (simp add: a'_def matchesMixedCase_prefix del: append.simps)
  show "getAddress P a = Inl (makeError ''bad address checksum'' INVALID_ARGUMENT)"
    using m c ne mixed'
    by (simp add: getAddress_def throwArgumentError_def throwError_def flip: a'_def)
qed

lemma P1_hash: "arrayifyString (keccak256 P1 d) = Inr []"
  by (simp add: keccak256_def arrayifyString_hexlify P1_def)


lemma hexdigits_eval:
  "list_all isHexDigit ''00000000000000000000000000000000000000AB''"
  "list_all isHexDigit ''00000000000000000000000000000000000000ab''"
  "list_all isHexDigit ''00000000000000000000000000000000000000aB''"
  by code_simp+

lemma lower_eval:
  "toLowerCase ''0x00000000000000000000000000000000000000AB'' = ''0x00000000000000000000000000000000000000ab''"
  "toLowerCase ''0x00000000000000000000000000000000000000ab'' = ''0x00000000000000000000000000000000000000ab''"
  "toLowerCase ''0x00000000000000000000000000000000000000aB'' = ''0x00000000000000000000000000000000000000ab''"
  by code_simp+

lemma mixed_eval:
  "\<not> matchesMixedCase ''0x00000000000000000000000000000000000000AB''"
  "matchesMixedCase ''0x00000000000000000000000000000000000000aB''"
  by code_simp+

lemma hexstring_eval:
  "isHexString ''0x00000000000000000000000000000000000000AB'' (Some 20)"
  "isHexString ''0x00000000000000000000000000000000000000aB'' (Some 20)"
  by code_simp+

lemma matches_eval:
  "matchesHexAddress ''00000000000000000000000000000000000000AB''"
  "matchesHexAddress ''0x00000000000000000000000000000000000000aB''"
  by code_simp+

lemma checksum_eval:
  "getChecksumAddress P1 ''0x00000000000000000000000000000000000000AB'' = Inr ''0x00000000000000000000000000000000000000ab''"
  "getChecksumAddress P1 ''0x00000000000000000000000000000000000000aB'' = Inr ''0x00000000000000000000000000000000000000ab''"
  by (simp_all add: getChecksumAddress_def hexstring_eval lower_eval P1_hash)

theorem getAddress_idempotent_checksum_witness:
  "getAddress P1 ''00000000000000000000000000000000000000AB'' = Inr ''0x00000000000000000000000000000000000000ab''
   \<and> getAddress P1 ''0x00000000000000000000000000000000000000ab'' = Inr ''0x00000000000000000000000000000000000000ab''
   \<and> matchesHexAddress ''0x00000000000000000000000000000000000000aB''
   \<and> matchesMixedCase ''0x00000000000000000000000000000000000000aB''
   \<and> getChecksumAddress P1 ''0x00000000000000000000000000000000000000aB''
        = Inr ''0x00000000000000000000000000000000000000ab''
   \<and> getAddress P1 ''0x00000000000000000000000000000000000000aB''
        = Inl (makeError ''bad address checksum'' INVALID_ARGUMENT)"
proof -
  have a: "getAddress P1 ''00000000000000000000000000000000000000AB'' = Inr ''0x00000000000000000000000000000000000000ab''"
    by (simp add: getAddress_def matches_eval checksum_eval mixed_eval)
  have m: "matchesHexAddress ''0x00000000000000000000000000000000000000aB''"
    by (rule matches_eval)
  from getAddress_idempotent_checksum
    [of P1 "''00000000000000000000000000000000000000AB''" "''0x00000000000000000000000000000000000000ab''"]
    a
  have b: "getAddress P1 ''0x00000000000000000000000000000000000000ab'' = Inr ''0x00000000000000000000000000000000000000ab''"
    by blast
  from getAddress_idempotent_checksum [of P1 "''0x00000000000000000000000000000000000000aB''"]
    m mixed_eval(2) checksum_eval(2)
  have c: "getAddress P1 ''0x00000000000000000000000000000000000000aB''
        = Inl (makeError ''bad address checksum'' INVALID_ARGUMENT)"
    by simp
  show ?thesis using a b m mixed_eval(2) checksum_eval(2) c by blast
qed

section \<open>Claim C9: a stray comma at the top level\<close>

lemma verifyType_uint256: "verifyType ''uint256'' = ''uint256''"
  by code_simp

lemma checkModifier_uint256:
  "\<not> objectInherited P [] \<Longrightarrow> checkModifier P ''uint256'' [] = Inr False"
  by (simp add: checkModifier_def ModifiersBytes_def ModifiersNest_def)

text \<open>
  Claim C9 says that parsing \<open>uint256,\<close> raises the positional argument error
  \<open>unexpected character at position i\<close>. The code does not: the case
  \<open>','\<close> (lines 461--481) reads \<open>node.parent.components\<close> without the
  test for a missing parent that the case \<open>')'\<close> makes (line 452), so at the
  top level the runtime raises a TypeError, which carries no position and no error code.
  (The empty name must not be a property every object inherits; it is none.)
\<close>

theorem parseParamType_stray_comma:
  assumes "\<not> objectInherited P []"
  shows "parseParamType P ''uint256,'' allowIndexed
           = Inl (Error TypeError ''Cannot read properties of undefined (reading components)'' None)"
  using assms
  by (simp add: parseParamType_def isWhitespace_def charCode_def parseStep_def rootNode_def
      initialState_def closeNode_def checkModifier_uint256 verifyType_uint256 Let_def)

theorem parseParamType_stray_comma_witness:
  "\<not> objectInherited P1 []
   \<and> parseParamType P1 ''uint256,'' False
        = Inl (Error TypeError ''Cannot read properties of undefined (reading components)'' None)
   \<and> parseParamType P1 ''uint256,'' False \<noteq> Inl (makeError ''unexpected character at position 7'' INVALID_ARGUMENT)"
  using parseParamType_stray_comma [of P1 False]
  by (simp add: P1_def makeError_def)

section \<open>Claim C6: the count of a dynamic array\<close>

lemma readValue_cases:
  "readValue r = (if r_offset r + 32 \<le> length (r_data r)
       then (Inr (int (beNat (take 32 (drop (r_offset r) (r_data r))))), r\<lparr>r_offset := r_offset r + 32\<rparr>)
       else (throwError ''data out-of-bounds'' BUFFER_OVERRUN, r))"
proof (cases "r_offset r + 32 \<le> length (r_data r)")
  case True
  then show ?thesis by (simp add: readValue_ok)
next
  case False
  then show ?thesis
    by (simp add: readValue_def readBytes_def peekBytes_def wordSize_def bindR_def Let_def throwError_def)
qed

lemma readValue_Inr:
  assumes "readValue r = (Inr n, r')"
  shows "0 \<le> n \<and> r' = r\<lparr>r_offset := r_offset r + 32\<rparr> \<and> r_offset r + 32 \<le> length (r_data r)
         \<and> n = int (beNat (take 32 (drop (r_offset r) (r_data r))))"
  using assms by (auto simp: readValue_cases throwError_def split: if_splits)

lemma BigNumber_toNumber_small: "0 \<le> n \<Longrightarrow> n < 2 ^ 53 \<Longrightarrow> BigNumber_toNumber n = Inr n"
  by (simp add: BigNumber_toNumber_def bn_toNumber_def)

lemma BigNumber_toNumber_big: "2 ^ 53 \<le> n \<Longrightarrow> BigNumber_toNumber n = Inl (makeError ''overflow'' NUMERIC_FAULT)"
  by (simp add: BigNumber_toNumber_def bn_toNumber_def throwFault_def throwError_def)

lemma beNat_ff: "beNat (replicate k (255::byte)) = 256 ^ k - 1"
proof (induction k)
  case 0
  then show ?case by (simp add: beNat_def)
next
  case (Suc k)
  have "replicate (Suc k) (255::byte) = replicate k 255 @ [255]"
    by (simp add: replicate_append_same)
  then have "beNat (replicate (Suc k) (255::byte)) = beNat (replicate k 255) * 256 + 255"
    by (simp only: beNat_snoc) simp
  also have "\<dots> = (256 ^ k - 1) * 256 + 255" by (simp add: Suc.IH)
  also have "\<dots> = 256 ^ Suc k - 1"
  proof -
    have "(1::nat) \<le> 256 ^ k" by simp
    then show ?thesis by (simp add: algebra_simps)
  qed
  finally show ?case .
qed

lemma readValue_ff:
  "readValue (newReader (replicate 32 255) loose) =
     (Inr (2 ^ 256 - 1), \<lparr>r_data = replicate 32 255, r_offset = 32, r_allowLoose = loose\<rparr>)"
proof -
  have "int (beNat (replicate 32 (255::byte))) = 2 ^ 256 - 1"
    unfolding beNat_ff by simp
  then show ?thesis
    by (simp add: readValue_cases newReader_def)
qed

text \<open>
  Claim C6, as amended. \<open>ArrayCoder.decode\<close> of a dynamic array reads the count
  from the leading word. When the count is below \<open>2^53\<close> and 32 times the count
  exceeds the length of the reader's data, the decode fails with the buffer-overrun error
  \<open>insufficient data length\<close>. When the count is \<open>2^53\<close> or more,
  \<open>toNumber\<close> fails first and the decode fails with the numeric fault
  \<open>overflow\<close>. In both cases the reader has moved over the length word only, and
  the outcome does not depend on the element coder: no element was decoded.
\<close>

theorem ArrayCoder_decode_count_check:
  assumes "readValue reader = (Inr count, reader')"
  shows "(count < 2 ^ 53 \<and> count * 32 > int (length (r_data reader))
            \<longrightarrow> decode P (ArrayCoder coder (- 1) n) reader
                  = (Inl (makeError ''insufficient data length'' BUFFER_OVERRUN), reader'))
       \<and> (2 ^ 53 \<le> count
            \<longrightarrow> decode P (ArrayCoder coder (- 1) n) reader
                  = (Inl (makeError ''overflow'' NUMERIC_FAULT), reader'))
       \<and> reader' = reader\<lparr>r_offset := r_offset reader + 32\<rparr>"
proof -
  from readValue_Inr [OF assms]
  have c: "0 \<le> count" and r: "reader' = reader\<lparr>r_offset := r_offset reader + 32\<rparr>" by simp_all
  have d: "r_data reader' = r_data reader" by (simp add: r)
  have small: "decode P (ArrayCoder coder (- 1) n) reader
                  = (Inl (makeError ''insufficient data length'' BUFFER_OVERRUN), reader')"
    if "count < 2 ^ 53" "count * 32 > int (length (r_data reader))"
  proof -
    have t: "BigNumber_toNumber count = Inr count"
      using c that(1) by (rule BigNumber_toNumber_small)
    have "arrayCount (- 1) reader = (Inl (makeError ''insufficient data length'' BUFFER_OVERRUN), reader')"
      using that(2) by (simp add: arrayCount_def bindR_def liftR_def assms t d throwError_def)
    then show ?thesis by (simp add: bindR_def)
  qed
  have big: "decode P (ArrayCoder coder (- 1) n) reader = (Inl (makeError ''overflow'' NUMERIC_FAULT), reader')"
    if "2 ^ 53 \<le> count"
  proof -
    have t: "BigNumber_toNumber count = Inl (makeError ''overflow'' NUMERIC_FAULT)"
      using that by (rule BigNumber_toNumber_big)
    have "arrayCount (- 1) reader = (Inl (makeError ''overflow'' NUMERIC_FAULT), reader')"
      by (simp add: arrayCount_def bindR_def liftR_def assms t)
    then show ?thesis by (simp add: bindR_def)
  qed
  from small big r show ?thesis by blast
qed

theorem ArrayCoder_decode_count_check_witness:
  "readValue (newReader (word32 2) False) = (Inr 2, \<lparr>r_data = word32 2, r_offset = 32, r_allowLoose = False\<rparr>)
   \<and> (2::int) < 2 ^ 53
   \<and> (2::int) * 32 > int (length (r_data (newReader (word32 2) False)))
   \<and> decode P1 (ArrayCoder (BooleanCoder []) (- 1) []) (newReader (word32 2) False)
        = (Inl (makeError ''insufficient data length'' BUFFER_OVERRUN),
           \<lparr>r_data = word32 2, r_offset = 32, r_allowLoose = False\<rparr>)
   \<and> readValue (newReader (word32 (2 ^ 53)) False)
        = (Inr (2 ^ 53), \<lparr>r_data = word32 (2 ^ 53), r_offset = 32, r_allowLoose = False\<rparr>)
   \<and> decode P1 (ArrayCoder (BooleanCoder []) (- 1) []) (newReader (word32 (2 ^ 53)) False)
        = (Inl (makeError ''overflow'' NUMERIC_FAULT),
           \<lparr>r_data = word32 (2 ^ 53), r_offset = 32, r_allowLoose = False\<rparr>)"
proof -
  have rv: "readValue (newReader (word32 2) False) = (Inr 2, \<lparr>r_data = word32 2, r_offset = 32, r_allowLoose = False\<rparr>)"
    using readValue_word32 [of 2 False] by simp
  have len: "length (r_data (newReader (word32 2) False)) = 32"
    by (simp add: newReader_def length_word32)
  have gt: "(2::int) * 32 > int (length (r_data (newReader (word32 2) False)))"
    unfolding len by simp
  have rb: "readValue (newReader (word32 (2 ^ 53)) False)
        = (Inr (2 ^ 53), \<lparr>r_data = word32 (2 ^ 53), r_offset = 32, r_allowLoose = False\<rparr>)"
    using readValue_word32 [of "2 ^ 53" False] by simp
  from ArrayCoder_decode_count_check [OF rv, of P1 "BooleanCoder []" "[]"]
       ArrayCoder_decode_count_check [OF rb, of P1 "BooleanCoder []" "[]"] rv rb gt
  show ?thesis by simp
qed

text \<open>
  A length word of 32 bytes \<open>0xff\<close>: 32 times the count exceeds the 32 bytes of
  data, and the error is the numeric fault of \<open>toNumber\<close> (line 2062).
\<close>

theorem ArrayCoder_decode_count_overflow_counterexample:
  "decode P1 (ArrayCoder (BooleanCoder []) (- 1) []) (newReader (replicate 32 255) False)
     = (Inl (makeError ''overflow'' NUMERIC_FAULT),
        \<lparr>r_data = replicate 32 255, r_offset = 32, r_allowLoose = False\<rparr>)"
proof -
  have "BigNumber_toNumber (2 ^ 256 - 1) = Inl (makeError ''overflow'' NUMERIC_FAULT)"
    by (rule BigNumber_toNumber_big) simp
  then have "arrayCount (- 1) (newReader (replicate 32 255) False)
      = (Inl (makeError ''overflow'' NUMERIC_FAULT), \<lparr>r_data = replicate 32 255, r_offset = 32, r_allowLoose = False\<rparr>)"
    by (simp add: arrayCount_def bindR_def liftR_def readValue_ff)
  then show ?thesis by (simp add: bindR_def)
qed


section \<open>Claim C5: errors of the fields of a tuple\<close>

lemma unpackLoop_append:
  assumes "unpackLoop dec base pre r = (Inr xs, r1)"
  shows "unpackLoop dec base (pre @ cs) r =
           (case unpackLoop dec base cs r1 of
              (Inl e, r') \<Rightarrow> (Inl e, r')
            | (Inr ys, r') \<Rightarrow> (Inr (xs @ ys), r'))"
  using assms
proof (induction pre arbitrary: r xs)
  case Nil
  then show ?case
    by (auto simp: liftR_def split: prod.splits sum.splits)
next
  case (Cons c pre)
  from Cons.prems obtain s ra xs' where
    d: "decodeField dec base c r = (Inr s, ra)"
    and l: "unpackLoop dec base pre ra = (Inr xs', r1)"
    and x: "xs = (case s of None \<Rightarrow> xs' | Some v \<Rightarrow> v # xs')"
    by (auto simp: bindR_def liftR_def split: prod.splits sum.splits)
  show ?case
    using Cons.IH [OF l] d x
    by (auto simp: bindR_def liftR_def split: prod.splits sum.splits option.splits)
qed

lemma namedProperties_keys:
  "k \<in> fst ` set (namedProperties P allCoders coders slots) \<Longrightarrow> k \<in> localName ` set coders"
  by (auto simp: namedProperties_def dest: set_zip_leftD)

lemma namedProperties_snoc:
  "length coders = length slots \<Longrightarrow>
   namedProperties P allCoders (coders @ [c]) (slots @ [s]) =
     namedProperties P allCoders coders slots
     @ (if localName c \<noteq> [] \<and> isUniqueName P allCoders (localName c) then [(localName c, s)] else [])"
  by (simp add: namedProperties_def)

lemma unique_not_before:
  assumes "isUniqueName P (front @ c # rest) (localName c)" "\<not> objectInherited P (localName c)"
  shows "localName c \<notin> localName ` set front"
proof
  assume "localName c \<in> localName ` set front"
  then have "filter (\<lambda>d. localName d = localName c) front \<noteq> []"
    by (auto simp: filter_empty_conv)
  then have "0 < length (filter (\<lambda>d. localName d = localName c) front)" by simp
  with assms show False by (simp add: isUniqueName_def)
qed

lemma namesLoop_ordinary:
  assumes ord: "\<forall>d \<in> set allCoders. localName d = [] \<or> ordinaryName P (localName d)"
    and "allCoders = front @ coders" "raw = rd @ rs" "length rd = length front" "length rs = length coders"
  shows "namesLoop P allCoders raw coders (length front) (namedProperties P allCoders front rd)
           = Inr (namedProperties P allCoders allCoders raw)"
  using assms(2-)
proof (induction coders arbitrary: front rd rs)
  case Nil
  then show ?case by simp
next
  case (Cons c coders)
  from Cons.prems obtain s rs' where rs: "rs = s # rs'" "length rs' = length coders"
    by (cases rs) auto
  have a: "allCoders = (front @ [c]) @ coders" "raw = (rd @ [s]) @ rs'" "length (rd @ [s]) = length (front @ [c])"
    using Cons.prems rs by simp_all
  note IH = Cons.IH [OF a rs(2)]
  have snoc: "namedProperties P allCoders (front @ [c]) (rd @ [s]) =
     namedProperties P allCoders front rd
     @ (if localName c \<noteq> [] \<and> isUniqueName P allCoders (localName c) then [(localName c, s)] else [])"
    using Cons.prems by (simp add: namedProperties_snoc)
  show ?case
  proof (cases "localName c \<noteq> [] \<and> isUniqueName P allCoders (localName c)")
    case False
    then show ?thesis using IH snoc by (auto simp: Let_def)
  next
    case True
    have "c \<in> set allCoders" using Cons.prems by simp
    with ord True have o: "ordinaryName P (localName c)" by auto
    then have nl: "localName c \<noteq> ''length''" and ni: "\<not> isArrayIndex (localName c)"
      and nh: "\<not> inherited P (localName c)" and no: "\<not> objectInherited P (localName c)"
      by (simp_all add: ordinaryName_def)
    have "localName c \<notin> localName ` set front"
      using unique_not_before [of P front c coders] True no Cons.prems by simp
    then have nk: "localName c \<notin> fst ` set (namedProperties P allCoders front rd)"
      using namedProperties_keys by blast
    then have m: "map_of (namedProperties P allCoders front rd) (localName c) = None"
      by (simp add: map_of_eq_None_iff)
    have p: "propertyNotNull P raw (namedProperties P allCoders front rd) (localName c) = Inr False"
      by (simp add: propertyNotNull_def ni m nl nh)
    have e: "elementAt raw (namedProperties P allCoders front rd) (length front) = Inr s"
      using Cons.prems rs by (simp add: elementAt_def nth_append)
    have f: "filter (\<lambda>(k, _). k \<noteq> localName c) (namedProperties P allCoders front rd)
               = namedProperties P allCoders front rd"
      using nk by (force simp: filter_id_conv)
    have sp: "setProperty (namedProperties P allCoders front rd) (localName c) s
              = namedProperties P allCoders (front @ [c]) (rd @ [s])"
      by (simp add: setProperty_def f snoc True)
    show ?thesis
      using IH True by (simp add: Let_def nl p e sp)
  qed
qed

lemma namesLoop_result:
  assumes "\<forall>d \<in> set coders. localName d = [] \<or> ordinaryName P (localName d)"
    and "length raw = length coders"
  shows "namesLoop P coders raw coders 0 [] = Inr (namedProperties P coders coders raw)"
  using namesLoop_ordinary [OF assms(1), of "[]" coders raw "[]" raw] assms(2)
  by (simp add: namedProperties_def)

lemma assemble_ordinary:
  assumes "\<forall>d \<in> set coders. localName d = [] \<or> ordinaryName P (localName d)"
  shows "assemble raw (namedProperties P coders coders raw) = Inr (VArray raw (namedProperties P coders coders raw))"
proof -
  have k: "\<not> isArrayIndex k" if "(k, s) \<in> set (namedProperties P coders coders raw)" for k s
  proof -
    from that have "k \<in> fst ` set (namedProperties P coders coders raw)" by force
    then have "k \<in> localName ` set coders" by (rule namedProperties_keys)
    moreover from that have "k \<noteq> []" by (auto simp: namedProperties_def)
    ultimately show ?thesis using assms by (auto simp: ordinaryName_def)
  qed
  have f1: "filter (\<lambda>(k, s). isArrayIndex k) (namedProperties P coders coders raw) = []"
    using k by (auto simp: filter_empty_conv)
  have f2: "filter (\<lambda>(k, s). \<not> isArrayIndex k) (namedProperties P coders coders raw)
              = namedProperties P coders coders raw"
    using k by (auto simp: filter_id_conv)
  show ?thesis
    by (simp add: assemble_def indexExtras_def f1 f2)
qed

lemma unpack_ordinary:
  assumes "unpackLoop dec (subReader reader 0) coders reader = (Inr raw, r')"
    and "\<forall>d \<in> set coders. localName d = [] \<or> ordinaryName P (localName d)"
    and "length raw = length coders"
  shows "unpack P dec coders reader = (Inr (VArray raw (namedProperties P coders coders raw)), r')"
  by (simp add: unpack_def bindR_def liftR_def assms(1) namesLoop_result [OF assms(2,3)]
      assemble_ordinary [OF assms(2)])

lemma unpack_abort:
  assumes "unpackLoop dec (subReader reader 0) coders reader = (Inl e, r')"
  shows "unpack P dec coders reader = (Inl e, r')"
  by (simp add: unpack_def bindR_def assms)

lemma namedProperties_lookup:
  assumes "length xs = length pre" "length ys = length post"
    and "localName c \<noteq> []" "isUniqueName P (pre @ c # post) (localName c)" "\<not> objectInherited P (localName c)"
  shows "map_of (namedProperties P (pre @ c # post) (pre @ c # post) (xs @ s # ys)) (localName c) = Some s"
proof -
  have "localName c \<notin> localName ` set pre"
    using unique_not_before [OF assms(4,5)] .
  then have "localName c \<notin> fst ` set (namedProperties P (pre @ c # post) pre xs)"
    using namedProperties_keys by blast
  then have m: "map_of (namedProperties P (pre @ c # post) pre xs) (localName c) = None"
    by (simp add: map_of_eq_None_iff)
  have "namedProperties P (pre @ c # post) (pre @ c # post) (xs @ s # ys)
        = namedProperties P (pre @ c # post) pre xs @ (localName c, s) # namedProperties P (pre @ c # post) post ys"
    using assms by (simp add: namedProperties_def)
  then show ?thesis by (simp add: map_add_def m)
qed

lemma readValue_at:
  assumes "r_data r = a @ word32 n @ b" "r_offset r = length a" "n < 2 ^ 256"
  shows "readValue r = (Inr (int n), r\<lparr>r_offset := length a + 32\<rparr>)"
proof -
  have l: "length (word32 n) = 32" using assms(3) by (rule length_word32)
  have "r_offset r + 32 \<le> length (r_data r)" by (simp add: assms(1,2) l)
  from readValue_ok [OF this] show ?thesis
    by (simp add: assms(1,2) l beNat_word32)
qed

lemma showNat_0: "showNat 0 = ''0''"
  by (subst showNat.simps) (simp add: char_of_def bit_0)

lemma toUtf8String_ff:
  "toUtf8String [255] = Inl (makeError ''invalid codepoint at offset 0; bad codepoint prefix'' INVALID_ARGUMENT)"
  by (simp add: toUtf8String_def codePointAt_def utf8Error_def throwArgumentError_def throwError_def showNat_0)

lemma tuple_lengths:
  "length (word32 1) = 32" "length (word32 (Suc 0)) = 32" "length (word32 96) = 32" "length (word32 0) = 32"
  by (simp_all add: length_word32)

lemma tuple_bool_a:
  "decode P1 (BooleanCoder ''a'') (tupleReader 0) = (Inr (VBool True), tupleReader 32)"
  using readValue_at [of "tupleReader 0" "[]" 1 "word32 96 @ word32 0 @ word32 1 @ (255 # replicate 31 0)"]
  by (simp add: tupleReader_def tupleData_def BooleanCoder_decode_def bindR_def liftR_def coerce_bool)

lemma tuple_offset_b:
  "readValue (tupleReader 32) = (Inr 96, tupleReader 64)"
  using readValue_at [of "tupleReader 32" "word32 1" 96 "word32 0 @ word32 1 @ (255 # replicate 31 0)"]
  by (simp add: tupleReader_def tupleData_def tuple_lengths)

lemma tuple_bool_c:
  "decode P1 (BooleanCoder ''c'') (tupleReader 64) = (Inr (VBool False), tupleReader 96)"
  using readValue_at [of "tupleReader 64" "word32 1 @ word32 96" 0 "word32 1 @ (255 # replicate 31 0)"]
  by (simp add: tupleReader_def tupleData_def tuple_lengths BooleanCoder_decode_def bindR_def liftR_def coerce_bool)

lemma tuple_string_b:
  "fst (decode P1 (StringCoder ''b'') (subReader (subReader (tupleReader 0) 0) 96))
     = Inl (makeError ''invalid codepoint at offset 0; bad codepoint prefix'' INVALID_ARGUMENT)"
proof -
  let ?r = "\<lparr>r_data = word32 1 @ (255 # replicate 31 0), r_offset = 0, r_allowLoose = False\<rparr>"
  have s: "subReader (subReader (tupleReader 0) 0) 96 = ?r"
    by (simp add: subReader_def newReader_def tupleReader_def tupleData_def tuple_lengths)
  have v: "readValue ?r = (Inr 1, ?r\<lparr>r_offset := 32\<rparr>)"
    using readValue_at [of ?r "[]" 1 "255 # replicate 31 0"] by simp
  have n: "BigNumber_toNumber 1 = Inr 1"
    by (simp add: BigNumber_toNumber_def bn_toNumber_def)
  have b: "readBytes (Suc 0) True (?r\<lparr>r_offset := 32\<rparr>) = (Inr [255], ?r\<lparr>r_offset := 64\<rparr>)"
    by (simp add: readBytes_def peekBytes_def wordSize_def Let_def tuple_lengths)
  have d: "DynamicBytesCoder_decode ?r = (Inr [255], ?r\<lparr>r_offset := 64\<rparr>)"
    using b by (simp add: DynamicBytesCoder_decode_def bindR_def liftR_def v n del: One_nat_def)
  show ?thesis
    unfolding s
    by (simp add: StringCoder_decode_def bindR_def liftR_def d toUtf8String_ff del: One_nat_def)
qed

lemma pair_lengths:
  "length (word32 1) = 32" "length (word32 (Suc 0)) = 32" "length (word32 64) = 32" "length (word32 100) = 32"
  by (simp_all add: length_word32)

lemma overrun_bool_a:
  "unpackLoop (decode P1) (subReader (readerAt overrunData 0) 0) [BooleanCoder ''a''] (readerAt overrunData 0)
     = (Inr [Value (VBool True)], readerAt overrunData 32)"
proof -
  have "readValue (readerAt overrunData 0) = (Inr 1, readerAt overrunData 32)"
    using readValue_at [of "readerAt overrunData 0" "[]" 1 "word32 64 @ word32 100"]
    by (simp add: readerAt_def overrunData_def)
  then show ?thesis
    by (simp add: bindR_def liftR_def decodeField_def caught_def BooleanCoder_decode_def coerce_bool)
qed

lemma overrun_offset_b:
  "readValue (readerAt overrunData 32) = (Inr 64, readerAt overrunData 64)"
  using readValue_at [of "readerAt overrunData 32" "word32 1" 64 "word32 100"]
  by (simp add: readerAt_def overrunData_def pair_lengths)

lemma overrun_string_b:
  "fst (decode P1 (StringCoder ''b'') (subReader (subReader (readerAt overrunData 0) 0) 64))
     = Inl (makeError ''data out-of-bounds'' BUFFER_OVERRUN)"
proof -
  let ?r = "\<lparr>r_data = word32 100, r_offset = 0, r_allowLoose = False\<rparr>"
  have s: "subReader (subReader (readerAt overrunData 0) 0) 64 = ?r"
    by (simp add: subReader_def newReader_def readerAt_def overrunData_def pair_lengths)
  have v: "readValue ?r = (Inr 100, ?r\<lparr>r_offset := 32\<rparr>)"
    using readValue_at [of ?r "[]" 100 "[]"] by simp
  have n: "BigNumber_toNumber 100 = Inr 100"
    by (simp add: BigNumber_toNumber_def bn_toNumber_def)
  have b: "readBytes 100 True (?r\<lparr>r_offset := 32\<rparr>)
             = (Inl (makeError ''data out-of-bounds'' BUFFER_OVERRUN), ?r\<lparr>r_offset := 32\<rparr>)"
    by (simp add: readBytes_def peekBytes_def wordSize_def Let_def pair_lengths throwError_def)
  have d: "DynamicBytesCoder_decode ?r
             = (Inl (makeError ''data out-of-bounds'' BUFFER_OVERRUN), ?r\<lparr>r_offset := 32\<rparr>)"
    using b by (simp add: DynamicBytesCoder_decode_def bindR_def liftR_def v n)
  show ?thesis
    unfolding s by (simp add: StringCoder_decode_def bindR_def d)
qed

lemma overflow_bool_a:
  "unpackLoop (decode P1) (subReader (readerAt overflowData 0) 0) [BooleanCoder ''a''] (readerAt overflowData 0)
     = (Inr [Value (VBool True)], readerAt overflowData 32)"
proof -
  have "readValue (readerAt overflowData 0) = (Inr 1, readerAt overflowData 32)"
    using readValue_at [of "readerAt overflowData 0" "[]" 1 "replicate 32 255"]
    by (simp add: readerAt_def overflowData_def)
  then show ?thesis
    by (simp add: bindR_def liftR_def decodeField_def caught_def BooleanCoder_decode_def coerce_bool)
qed

lemma overflow_offset_b:
  "readValue (readerAt overflowData 32) = (Inr (2 ^ 256 - 1), readerAt overflowData 64)"
proof -
  have "int (beNat (replicate 32 (255::byte))) = 2 ^ 256 - 1"
    unfolding beNat_ff by simp
  then show ?thesis
    by (simp add: readValue_cases readerAt_def overflowData_def pair_lengths)
qed

text \<open>
  Claim C5, as amended. In \<open>unpack\<close>, let the coders before \<open>c\<close> have given the
  slots \<open>xs\<close>.
  \<^item> When \<open>c\<close> is dynamic and reading its offset word, or converting it to a number,
    fails with \<open>e\<close> (lines 2095--2096, outside the \<open>try\<close>), \<open>unpack\<close> throws
    \<open>e\<close> at once, whatever its code.
  \<^item> When the call \<open>c.decode\<close> (on the reader itself for a static coder, on a reader
    at the offset for a dynamic one) throws a buffer overrun \<open>e\<close>, \<open>unpack\<close>
    throws \<open>e\<close> at once: the coders after \<open>c\<close> play no part.
  \<^item> When it throws any other \<open>e\<close>, the coders after \<open>c\<close> give the slots
    \<open>ys\<close>, no value was dropped as \<open>null\<close>, and every name is empty or
    ordinary (not \<open>length\<close>, not an array index, not inherited), \<open>unpack\<close>
    returns the array of \<open>xs\<close>, a getter that throws \<open>e\<close> (with \<open>baseType\<close>,
    \<open>name\<close> and \<open>type\<close> of the coder), and \<open>ys\<close>; under the name of
    \<open>c\<close>, if no other coder bears it, the same getter is found.
\<close>

theorem unpack_field_errors:
  assumes pre: "unpackLoop dec (subReader reader 0) pre reader = (Inr xs, r1)"
  shows "(dynamic c
            \<and> (readValue r1 = (Inl e, r2)
                 \<or> (\<exists>off. readValue r1 = (Inr off, r2) \<and> BigNumber_toNumber off = Inl e))
          \<longrightarrow> unpack P dec (pre @ c # post) reader = (Inl e, r2))
       \<and> (((\<not> dynamic c \<and> dec c r1 = (Inl e, r2))
             \<or> (dynamic c \<and> (\<exists>off k. readValue r1 = (Inr off, r2) \<and> BigNumber_toNumber off = Inr k
                   \<and> fst (dec c (subReader (subReader reader 0) (nat k))) = Inl e)))
            \<and> code e = Some BUFFER_OVERRUN
          \<longrightarrow> unpack P dec (pre @ c # post) reader = (Inl e, r2))
       \<and> (((\<not> dynamic c \<and> dec c r1 = (Inl e, r2))
             \<or> (dynamic c \<and> (\<exists>off k. readValue r1 = (Inr off, r2) \<and> BigNumber_toNumber off = Inr k
                   \<and> fst (dec c (subReader (subReader reader 0) (nat k))) = Inl e)))
            \<and> code e \<noteq> Some BUFFER_OVERRUN
            \<and> unpackLoop dec (subReader reader 0) post r2 = (Inr ys, r3)
            \<and> length xs = length pre \<and> length ys = length post
            \<and> (\<forall>d \<in> set (pre @ c # post). localName d = [] \<or> ordinaryName P (localName d))
          \<longrightarrow> unpack P dec (pre @ c # post) reader
                 = (Inr (VArray (xs @ Getter (annotate c e) # ys)
                      (namedProperties P (pre @ c # post) (pre @ c # post) (xs @ Getter (annotate c e) # ys))), r3)
              \<and> (localName c \<noteq> [] \<and> isUniqueName P (pre @ c # post) (localName c)
                  \<longrightarrow> map_of (namedProperties P (pre @ c # post) (pre @ c # post) (xs @ Getter (annotate c e) # ys))
                        (localName c) = Some (Getter (annotate c e))))"
proof (intro conjI impI)
  assume a: "dynamic c
            \<and> (readValue r1 = (Inl e, r2)
                 \<or> (\<exists>off. readValue r1 = (Inr off, r2) \<and> BigNumber_toNumber off = Inl e))"
  then have "decodeField dec (subReader reader 0) c r1 = (Inl e, r2)"
    by (auto simp: decodeField_def)
  then have "unpackLoop dec (subReader reader 0) (c # post) r1 = (Inl e, r2)"
    by (simp add: bindR_def)
  then have "unpackLoop dec (subReader reader 0) (pre @ c # post) reader = (Inl e, r2)"
    using unpackLoop_append [OF pre, of "c # post"] by simp
  then show "unpack P dec (pre @ c # post) reader = (Inl e, r2)"
    by (rule unpack_abort)
next
  assume b: "((\<not> dynamic c \<and> dec c r1 = (Inl e, r2))
             \<or> (dynamic c \<and> (\<exists>off k. readValue r1 = (Inr off, r2) \<and> BigNumber_toNumber off = Inr k
                   \<and> fst (dec c (subReader (subReader reader 0) (nat k))) = Inl e)))
            \<and> code e = Some BUFFER_OVERRUN"
  then have d: "decodeField dec (subReader reader 0) c r1 = (caught c (Inl e), r2)"
    by (auto simp: decodeField_def)
  have "unpackLoop dec (subReader reader 0) (c # post) r1 = (Inl e, r2)"
    using b by (simp add: bindR_def d caught_def)
  then have "unpackLoop dec (subReader reader 0) (pre @ c # post) reader = (Inl e, r2)"
    using unpackLoop_append [OF pre, of "c # post"] by simp
  then show "unpack P dec (pre @ c # post) reader = (Inl e, r2)"
    by (rule unpack_abort)
next
  assume h: "((\<not> dynamic c \<and> dec c r1 = (Inl e, r2))
             \<or> (dynamic c \<and> (\<exists>off k. readValue r1 = (Inr off, r2) \<and> BigNumber_toNumber off = Inr k
                   \<and> fst (dec c (subReader (subReader reader 0) (nat k))) = Inl e)))
            \<and> code e \<noteq> Some BUFFER_OVERRUN
            \<and> unpackLoop dec (subReader reader 0) post r2 = (Inr ys, r3)
            \<and> length xs = length pre \<and> length ys = length post
            \<and> (\<forall>d \<in> set (pre @ c # post). localName d = [] \<or> ordinaryName P (localName d))"
  then have d: "decodeField dec (subReader reader 0) c r1 = (caught c (Inl e), r2)"
    by (auto simp: decodeField_def)
  have "unpackLoop dec (subReader reader 0) (c # post) r1 = (Inr (Getter (annotate c e) # ys), r3)"
    using h by (simp add: bindR_def liftR_def d caught_def)
  then have "unpackLoop dec (subReader reader 0) (pre @ c # post) reader
                 = (Inr (xs @ Getter (annotate c e) # ys), r3)"
    using unpackLoop_append [OF pre, of "c # post"] by simp
  then show "unpack P dec (pre @ c # post) reader
                 = (Inr (VArray (xs @ Getter (annotate c e) # ys)
                      (namedProperties P (pre @ c # post) (pre @ c # post) (xs @ Getter (annotate c e) # ys))), r3)"
    using h by (intro unpack_ordinary) simp_all
next
  assume h: "((\<not> dynamic c \<and> dec c r1 = (Inl e, r2))
             \<or> (dynamic c \<and> (\<exists>off k. readValue r1 = (Inr off, r2) \<and> BigNumber_toNumber off = Inr k
                   \<and> fst (dec c (subReader (subReader reader 0) (nat k))) = Inl e)))
            \<and> code e \<noteq> Some BUFFER_OVERRUN
            \<and> unpackLoop dec (subReader reader 0) post r2 = (Inr ys, r3)
            \<and> length xs = length pre \<and> length ys = length post
            \<and> (\<forall>d \<in> set (pre @ c # post). localName d = [] \<or> ordinaryName P (localName d))"
    and u: "localName c \<noteq> [] \<and> isUniqueName P (pre @ c # post) (localName c)"
  from h u have "ordinaryName P (localName c)" by auto
  then have "\<not> objectInherited P (localName c)" by (simp add: ordinaryName_def)
  then show "map_of (namedProperties P (pre @ c # post) (pre @ c # post) (xs @ Getter (annotate c e) # ys))
                        (localName c) = Some (Getter (annotate c e))"
    using h u by (intro namedProperties_lookup) simp_all
qed

theorem unpack_field_errors_witness:
  "unpackLoop (decode P1) (subReader (tupleReader 0) 0) [BooleanCoder ''a''] (tupleReader 0)
     = (Inr [Value (VBool True)], tupleReader 32)
   \<and> dynamic (StringCoder ''b'')
   \<and> readValue (tupleReader 32) = (Inr 96, tupleReader 64)
   \<and> BigNumber_toNumber 96 = Inr 96
   \<and> fst (decode P1 (StringCoder ''b'') (subReader (subReader (tupleReader 0) 0) (nat 96)))
        = Inl (makeError ''invalid codepoint at offset 0; bad codepoint prefix'' INVALID_ARGUMENT)
   \<and> unpackLoop (decode P1) (subReader (tupleReader 0) 0) [BooleanCoder ''c''] (tupleReader 64)
        = (Inr [Value (VBool False)], tupleReader 96)
   \<and> unpack P1 (decode P1) [BooleanCoder ''a'', StringCoder ''b'', BooleanCoder ''c''] (tupleReader 0)
        = (Inr (VArray
             [Value (VBool True),
              Getter (Error (Logged INVALID_ARGUMENT) ''invalid codepoint at offset 0; bad codepoint prefix''
                        (Some (''string'', ''b'', ''string''))),
              Value (VBool False)]
             [(''a'', Value (VBool True)),
              (''b'', Getter (Error (Logged INVALID_ARGUMENT) ''invalid codepoint at offset 0; bad codepoint prefix''
                        (Some (''string'', ''b'', ''string'')))),
              (''c'', Value (VBool False))]),
           tupleReader 96)
   \<and> readValue (readerAt overrunData 32) = (Inr 64, readerAt overrunData 64)
   \<and> fst (decode P1 (StringCoder ''b'') (subReader (subReader (readerAt overrunData 0) 0) (nat 64)))
        = Inl (makeError ''data out-of-bounds'' BUFFER_OVERRUN)
   \<and> unpack P1 (decode P1) [BooleanCoder ''a'', StringCoder ''b'', BooleanCoder ''c''] (readerAt overrunData 0)
        = (Inl (makeError ''data out-of-bounds'' BUFFER_OVERRUN), readerAt overrunData 64)
   \<and> readValue (readerAt overflowData 32) = (Inr (2 ^ 256 - 1), readerAt overflowData 64)
   \<and> BigNumber_toNumber (2 ^ 256 - 1) = Inl (makeError ''overflow'' NUMERIC_FAULT)
   \<and> unpack P1 (decode P1) [BooleanCoder ''a'', StringCoder ''b'', BooleanCoder ''c''] (readerAt overflowData 0)
        = (Inl (makeError ''overflow'' NUMERIC_FAULT), readerAt overflowData 64)"
proof -
  let ?e = "makeError ''invalid codepoint at offset 0; bad codepoint prefix'' INVALID_ARGUMENT"
  let ?o = "makeError ''data out-of-bounds'' BUFFER_OVERRUN"
  let ?f = "makeError ''overflow'' NUMERIC_FAULT"
  have pre: "unpackLoop (decode P1) (subReader (tupleReader 0) 0) [BooleanCoder ''a''] (tupleReader 0)
     = (Inr [Value (VBool True)], tupleReader 32)"
    by (simp add: bindR_def liftR_def decodeField_def caught_def tuple_bool_a del: decode.simps)
  have post: "unpackLoop (decode P1) (subReader (tupleReader 0) 0) [BooleanCoder ''c''] (tupleReader 64)
        = (Inr [Value (VBool False)], tupleReader 96)"
    by (simp add: bindR_def liftR_def decodeField_def caught_def tuple_bool_c del: decode.simps)
  have n: "BigNumber_toNumber 96 = Inr 96"
    by (simp add: BigNumber_toNumber_def bn_toNumber_def)
  have fld: "(\<not> dynamic (StringCoder ''b'') \<and> decode P1 (StringCoder ''b'') (tupleReader 32) = (Inl ?e, tupleReader 64))
            \<or> (dynamic (StringCoder ''b'') \<and> (\<exists>off k. readValue (tupleReader 32) = (Inr off, tupleReader 64) \<and> BigNumber_toNumber off = Inr k
                   \<and> fst (decode P1 (StringCoder ''b'') (subReader (subReader (tupleReader 0) 0) (nat k))) = Inl ?e))"
    using tuple_offset_b n tuple_string_b by (intro disjI2 conjI exI [of _ 96]) simp_all
  have ord: "ordinaryName P1 ''a''" "ordinaryName P1 ''b''" "ordinaryName P1 ''c''"
    by (simp_all add: ordinaryName_def P1_def isArrayIndex_def isDigit_def charCode_def)
  have uniq: "isUniqueName P1 [BooleanCoder ''a'', StringCoder ''b'', BooleanCoder ''c''] ''a''"
     "isUniqueName P1 [BooleanCoder ''a'', StringCoder ''b'', BooleanCoder ''c''] ''b''"
     "isUniqueName P1 [BooleanCoder ''a'', StringCoder ''b'', BooleanCoder ''c''] ''c''"
    by (simp_all add: isUniqueName_def P1_def)
  have c: "code ?e \<noteq> Some BUFFER_OVERRUN" by (simp add: code_def makeError_def)
  from unpack_field_errors [OF pre, of "StringCoder ''b''" ?e "tupleReader 64" P1 "[BooleanCoder ''c'']"
      "[Value (VBool False)]" "tupleReader 96"]
    fld c post ord uniq
  have "unpack P1 (decode P1) [BooleanCoder ''a'', StringCoder ''b'', BooleanCoder ''c''] (tupleReader 0)
        = (Inr (VArray [Value (VBool True), Getter (annotate (StringCoder ''b'') ?e), Value (VBool False)]
             (namedProperties P1 [BooleanCoder ''a'', StringCoder ''b'', BooleanCoder ''c'']
                [BooleanCoder ''a'', StringCoder ''b'', BooleanCoder ''c'']
                [Value (VBool True), Getter (annotate (StringCoder ''b'') ?e), Value (VBool False)])),
           tupleReader 96)"
    by simp
  then have deferred: "unpack P1 (decode P1) [BooleanCoder ''a'', StringCoder ''b'', BooleanCoder ''c''] (tupleReader 0)
        = (Inr (VArray
             [Value (VBool True),
              Getter (Error (Logged INVALID_ARGUMENT) ''invalid codepoint at offset 0; bad codepoint prefix''
                        (Some (''string'', ''b'', ''string''))),
              Value (VBool False)]
             [(''a'', Value (VBool True)),
              (''b'', Getter (Error (Logged INVALID_ARGUMENT) ''invalid codepoint at offset 0; bad codepoint prefix''
                        (Some (''string'', ''b'', ''string'')))),
              (''c'', Value (VBool False))]),
           tupleReader 96)"
    by (simp add: namedProperties_def uniq annotate_def makeError_def del: decode.simps unpackLoop.simps)
  have n64: "BigNumber_toNumber 64 = Inr 64"
    by (simp add: BigNumber_toNumber_def bn_toNumber_def)
  have fldo: "(\<not> dynamic (StringCoder ''b'') \<and> decode P1 (StringCoder ''b'') (readerAt overrunData 32) = (Inl ?o, readerAt overrunData 64))
            \<or> (dynamic (StringCoder ''b'') \<and> (\<exists>off k. readValue (readerAt overrunData 32) = (Inr off, readerAt overrunData 64)
                   \<and> BigNumber_toNumber off = Inr k
                   \<and> fst (decode P1 (StringCoder ''b'') (subReader (subReader (readerAt overrunData 0) 0) (nat k))) = Inl ?o))"
    using overrun_offset_b n64 overrun_string_b by (intro disjI2 conjI exI [of _ 64]) simp_all
  have co: "code ?o = Some BUFFER_OVERRUN" by (simp add: code_def makeError_def)
  from unpack_field_errors [OF overrun_bool_a, of "StringCoder ''b''" ?o "readerAt overrunData 64" P1 "[BooleanCoder ''c'']"]
    fldo co
  have overrun: "unpack P1 (decode P1) [BooleanCoder ''a'', StringCoder ''b'', BooleanCoder ''c''] (readerAt overrunData 0)
        = (Inl ?o, readerAt overrunData 64)"
    by simp
  have big: "BigNumber_toNumber (2 ^ 256 - 1) = Inl ?f"
    by (rule BigNumber_toNumber_big) simp
  have "dynamic (StringCoder ''b'')
            \<and> (readValue (readerAt overflowData 32) = (Inl ?f, readerAt overflowData 64)
                 \<or> (\<exists>off. readValue (readerAt overflowData 32) = (Inr off, readerAt overflowData 64)
                        \<and> BigNumber_toNumber off = Inl ?f))"
    using overflow_offset_b big by auto
  with unpack_field_errors [OF overflow_bool_a, of "StringCoder ''b''" ?f "readerAt overflowData 64" P1 "[BooleanCoder ''c'']"]
  have overflow: "unpack P1 (decode P1) [BooleanCoder ''a'', StringCoder ''b'', BooleanCoder ''c''] (readerAt overflowData 0)
        = (Inl ?f, readerAt overflowData 64)"
    by simp
  show ?thesis
    using pre post tuple_offset_b n tuple_string_b deferred overrun_offset_b overrun_string_b overrun
      overflow_offset_b big overflow
    by (simp del: decode.simps unpackLoop.simps)
qed

text \<open>
  The offset of a dynamic field is read and converted outside the \<open>try\<close> (lines
  2095--2096). For a tuple \<open>(string s)\<close> and the 32 bytes \<open>0xff\<close> the
  conversion fails with the numeric fault \<open>overflow\<close>, which is no buffer overrun,
  and the decode of the tuple throws it.
\<close>

theorem unpack_offset_overflow_counterexample:
  "decode P1 (TupleCoder [StringCoder ''s''] ''_'') (newReader (replicate 32 255) False)
     = (Inl (makeError ''overflow'' NUMERIC_FAULT),
        \<lparr>r_data = replicate 32 255, r_offset = 32, r_allowLoose = False\<rparr>)"
proof -
  have "BigNumber_toNumber (2 ^ 256 - 1) = Inl (makeError ''overflow'' NUMERIC_FAULT)"
    by (rule BigNumber_toNumber_big) simp
  then have "decodeField (decode P1) (subReader (newReader (replicate 32 255) False) 0) (StringCoder ''s'')
          (newReader (replicate 32 255) False)
      = (Inl (makeError ''overflow'' NUMERIC_FAULT), \<lparr>r_data = replicate 32 255, r_offset = 32, r_allowLoose = False\<rparr>)"
    by (simp add: decodeField_def readValue_ff)
  then show ?thesis
    by (simp add: unpack_def bindR_def)
qed


section \<open>Claim C4: decoding the result of a call\<close>

lemma hexlify_Nil: "hexlify [] = ''0x''"
  by (simp add: hexlify_def)

lemma hexlify_append: "hexlify (a @ b) = hexlify a @ drop 2 (hexlify b)"
  by (simp add: hexlify_def)

lemma hexlify_zeros: "hexlify (replicate n 0) = ''0x'' @ replicate (2 * n) CHR ''0''"
  by (induction n) (simp_all add: hexlify_def HexCharacters_def)


lemma hexlify_one: "hexlify [1] = ''0x01''"
  by (simp add: hexlify_def HexCharacters_def)

lemma payload_text:
  "''0x'' @ replicate (2 * 31) CHR ''0'' @ ''01'' = ''0x0000000000000000000000000000000000000000000000000000000000000001''"
  by code_simp

lemma payload_hex:
  "hexlify (replicate 31 0 @ [1]) = ''0x0000000000000000000000000000000000000000000000000000000000000001''"
  unfolding hexlify_append hexlify_zeros hexlify_one using payload_text by simp

lemma arrayify_payload:
  "arrayify (VString (widen ''0x0000000000000000000000000000000000000000000000000000000000000001''))
     = Inr (replicate 31 0 @ [1])"
  unfolding payload_hex [symmetric] by (simp add: narrow_widen arrayifyString_hexlify)

text \<open>
  Claim C4. \<open>decodeFunctionResult\<close> is a static method, and line 4114 calls it on
  the class: \<open>Interface.decodeFunctionResult(FF, data)\<close>. There \<open>this\<close> is the
  class, \<open>this._abiCoder\<close> is \<open>undefined\<close>, and line 3752 throws a
  \<open>TypeError\<close> for every payload that \<open>arrayify\<close> accepts: for a fragment
  with the single output \<open>uint256\<close> and the 32 bytes \<open>0x00...01\<close> no result
  is returned, and for no payload a call exception is raised.
\<close>

theorem decodeFunctionResult_static_call:
  "decodeFunctionResult P ClassObject functionFragment (VBytes bytes)
     = Inl (Thrown (Error TypeError ''Cannot read properties of undefined (reading _getWordSize)'' None))
   \<and> decodeFunctionResult P ClassObject
         (FunctionFragment name [] [newParamType [] ''uint256'' None None])
         (VString (widen ''0x0000000000000000000000000000000000000000000000000000000000000001''))
     = Inl (Thrown (Error TypeError ''Cannot read properties of undefined (reading _getWordSize)'' None))
   \<and> (\<exists>e. decodeFunctionResult P ClassObject functionFragment d = Inl (Thrown e))"
proof (intro conjI)
  show "decodeFunctionResult P ClassObject functionFragment (VBytes bytes)
     = Inl (Thrown (Error TypeError ''Cannot read properties of undefined (reading _getWordSize)'' None))"
    by (simp add: decodeFunctionResult_def truthy_def)
  show "decodeFunctionResult P ClassObject
         (FunctionFragment name [] [newParamType [] ''uint256'' None None])
         (VString (widen ''0x0000000000000000000000000000000000000000000000000000000000000001''))
     = Inl (Thrown (Error TypeError ''Cannot read properties of undefined (reading _getWordSize)'' None))"
    unfolding decodeFunctionResult_def arrayify_payload by simp
  show "\<exists>e. decodeFunctionResult P ClassObject functionFragment d = Inl (Thrown e)"
    by (cases "arrayify d") (simp_all add: decodeFunctionResult_def)
qed


section \<open>Claim C8: indexed parameters of dynamic type in an event log\<close>

lemma showNat_inj: "showNat a = showNat b \<Longrightarrow> a = b"
  using showNat_props [of a] showNat_props [of b] by metis

lemma putProperty_lookup:
  "map_of (putProperty r k c) k' = (if k' = k then Some c else map_of r k')"
proof (cases "map_of r k = None")
  case True
  then show ?thesis by (simp add: putProperty_def map_add_def split: option.splits)
next
  case False
  have "map_of (map (\<lambda>(a, x). if a = k then (a, c) else (a, x)) r) k'
        = (if k' = k then (case map_of r k of None \<Rightarrow> None | Some x \<Rightarrow> Some c) else map_of r k')"
    by (induction r) (auto split: option.splits)
  with False show ?thesis by (auto simp: putProperty_def)
qed

lemma assign_lookup:
  "assign r k c = Inr r' \<Longrightarrow> map_of r' = (map_of r)(k \<mapsto> c)"
  by (rule ext) (auto simp: assign_def putProperty_lookup split: option.splits cell.splits)

lemma assignTry_other:
  "assignTry r k m = Inr r' \<Longrightarrow> \<exists>c. map_of r' = (map_of r)(k \<mapsto> c)"
  by (auto simp: assignTry_def dest: assign_lookup split: sum.splits)

lemma eventElement_other:
  assumes "eventElement ri rn param index (result, ni, ii) = Inr (result', ni', ii')"
    and "key \<noteq> showNat index"
  shows "map_of result' key = map_of result key"
  using assms
  by (auto simp: eventElement_def bindE_eq_Inr dest!: assign_lookup assignTry_other
      split: if_splits option.splits)

lemma eventKeyword_keep:
  assumes "eventKeyword P param index result = Inr result'"
    and "map_of result key = Some (Data v)" "v \<noteq> VNull"
  shows "map_of result' key = Some (Data v)"
proof (cases "pt_name param = key")
  case True
  then show ?thesis using assms
    by (auto simp: eventKeyword_def propertyIsNull_def split: if_splits)
next
  case False
  then show ?thesis using assms
    by (auto simp: eventKeyword_def bindE_eq_Inr putProperty_lookup dest!: assign_lookup
        split: if_splits option.splits cell.splits)
qed

lemma eventLoop_keep:
  assumes "eventLoop P ri rn params j (result, ni, ii) = Inr final"
    and "map_of result (showNat i) = Some (Data v)" "v \<noteq> VNull" "i < j"
  shows "map_of final (showNat i) = Some (Data v)"
  using assms
proof (induction params arbitrary: j result ni ii)
  case Nil
  then show ?case by simp
next
  case (Cons param params)
  from Cons.prems(1) obtain result1 ni1 ii1 result2 where
    e: "eventElement ri rn param j (result, ni, ii) = Inr (result1, ni1, ii1)"
    and k: "eventKeyword P param j result1 = Inr result2"
    and l: "eventLoop P ri rn params (Suc j) (result2, ni1, ii1) = Inr final"
    by (auto simp: bindE_eq_Inr)
  have "showNat i \<noteq> showNat j" using Cons.prems(4) showNat_inj by auto
  then have "map_of result1 (showNat i) = Some (Data v)"
    using eventElement_other [OF e] Cons.prems(2) by simp
  then have "map_of result2 (showNat i) = Some (Data v)"
    using eventKeyword_keep [OF k] Cons.prems(3) by simp
  then show ?case using Cons.IH [OF l] Cons.prems(3,4) by simp
qed

lemma eventElement_counts:
  assumes "eventElement ri rn param index (result, ni, ii) = Inr (result', ni', ii')"
  shows "ii' = ii + (if pt_indexed param = Some True \<and> ri \<noteq> None then 1 else 0)"
  using assms by (auto simp: eventElement_def bindE_eq_Inr split: if_splits option.splits)

lemma eventElement_hashed:
  assumes "eventElement ri rn param index (result, ni, ii) = Inr (result', ni', ii')"
    and "pt_indexed param = Some True" "isHashed param"
  shows "\<exists>h. (case ri of None \<Rightarrow> h = VNull | Some r \<Rightarrow> resultAt r ii = Inr h)
             \<and> map_of result' (showNat index) = Some (Data (VIndexed h))"
  using assms
  by (auto simp: eventElement_def bindE_eq_Inr dest!: assign_lookup split: if_splits option.splits)

lemma eventLoop_hashed:
  assumes "eventLoop P ri rn params j (result, ni, ii) = Inr final"
    and "i < length params" "pt_indexed (params ! i) = Some True" "isHashed (params ! i)"
  shows "\<exists>h. (case ri of None \<Rightarrow> h = VNull
               | Some r \<Rightarrow> resultAt r (ii + length (filter (\<lambda>p. pt_indexed p = Some True) (take i params))) = Inr h)
             \<and> map_of final (showNat (j + i)) = Some (Data (VIndexed h))"
  using assms
proof (induction params arbitrary: j result ni ii i)
  case Nil
  then show ?case by simp
next
  case (Cons param params)
  from Cons.prems(1) obtain result1 ni1 ii1 result2 where
    e: "eventElement ri rn param j (result, ni, ii) = Inr (result1, ni1, ii1)"
    and k: "eventKeyword P param j result1 = Inr result2"
    and l: "eventLoop P ri rn params (Suc j) (result2, ni1, ii1) = Inr final"
    by (auto simp: bindE_eq_Inr)
  show ?case
  proof (cases i)
    case 0
    with Cons.prems have p: "pt_indexed param = Some True" "isHashed param" by simp_all
    from eventElement_hashed [OF e p] obtain h where
      h: "(case ri of None \<Rightarrow> h = VNull | Some r \<Rightarrow> resultAt r ii = Inr h)"
      and m: "map_of result1 (showNat j) = Some (Data (VIndexed h))" by blast
    have "map_of result2 (showNat j) = Some (Data (VIndexed h))"
      using eventKeyword_keep [OF k m] by simp
    then have "map_of final (showNat j) = Some (Data (VIndexed h))"
      using eventLoop_keep [OF l] by simp
    with h 0 show ?thesis by (cases ri) auto
  next
    case (Suc i')
    with Cons.prems have p: "i' < length params" "pt_indexed (params ! i') = Some True" "isHashed (params ! i')"
      by simp_all
    from Cons.IH [OF l p] obtain h where
      h: "(case ri of None \<Rightarrow> h = VNull
               | Some r \<Rightarrow> resultAt r (ii1 + length (filter (\<lambda>p. pt_indexed p = Some True) (take i' params))) = Inr h)"
      and m: "map_of final (showNat (Suc j + i')) = Some (Data (VIndexed h))" by blast
    have c: "ii1 = ii + (if pt_indexed param = Some True \<and> ri \<noteq> None then 1 else 0)"
      using eventElement_counts [OF e] .
    show ?thesis
    proof (cases ri)
      case None
      with h m Suc show ?thesis by auto
    next
      case (Some r)
      with h m c Suc show ?thesis by (auto simp: add.commute add.left_commute)
    qed
  qed
qed

lemma foldl_max_ge: "(x::nat) \<in> set xs \<Longrightarrow> x \<le> foldl max a xs"
proof (induction xs arbitrary: a)
  case Nil
  then show ?case by simp
next
  case (Cons y ys)
  have mono: "b \<le> foldl max b zs" for b :: nat and zs
    by (induction zs arbitrary: b) (auto intro: order_trans [OF max.cobounded1])
  show ?case
  proof (cases "x = y")
    case True
    then show ?thesis using mono [of "max a y" ys] by simp
  next
    case False
    then show ?thesis using Cons by simp
  qed
qed

lemma showNat_no_leading_zero: "0 < n \<Longrightarrow> take 1 (showNat n) \<noteq> ''0''"
proof (induction n rule: showNat.induct)
  case (1 n)
  show ?case
  proof (cases "n < 10")
    case True
    have "char_of (48 + n) \<noteq> CHR ''0''"
    proof
      assume "char_of (48 + n) = CHR ''0''"
      then have "charCode (char_of (48 + n)) = charCode CHR ''0''" by simp
      then show False using True 1(2) by (simp add: charCode_char_of) (simp add: charCode_def)
    qed
    then show ?thesis using True by (subst showNat.simps) simp
  next
    case False
    then have "0 < n div 10" by simp
    with 1(1) False have "take 1 (showNat (n div 10)) \<noteq> ''0''" by simp
    moreover have "showNat (n div 10) \<noteq> []" using showNat_props by blast
    ultimately show ?thesis using False
      by (subst showNat.simps) (cases "showNat (n div 10)", simp_all)
  qed
qed

lemma isArrayIndex_showNat: "i < 2 ^ 32 - 1 \<Longrightarrow> isArrayIndex (showNat i)"
proof -
  assume a: "i < 2 ^ 32 - 1"
  have z: "showNat 0 = ''0''" by (rule showNat_0)
  have "showNat i = ''0'' \<or> take 1 (showNat i) \<noteq> ''0''"
    using showNat_no_leading_zero [of i] z by (cases "i = 0") auto
  then show ?thesis
    using showNat_props [of i] a by (simp add: isArrayIndex_def)
qed

lemma finishResult_lookup:
  assumes "finishResult final = Inr res" "map_of final (showNat i) = Some (Data v)" "i < 2 ^ 32 - 1"
  shows "resultAt res i = Inr v"
proof -
  have ix: "isArrayIndex (showNat i)" using assms(3) by (rule isArrayIndex_showNat)
  have "(showNat i, Data v) \<in> set final" using assms(2) by (rule map_of_SomeD)
  then have "Suc (parseDecimal (showNat i)) \<in> set (map (\<lambda>(k, c). Suc (parseDecimal k)) (filter (\<lambda>(k, c). isArrayIndex k) final))"
    using ix by force
  then have "Suc (parseDecimal (showNat i)) \<le> resultLength final"
    unfolding resultLength_def by (rule foldl_max_ge)
  then have len: "i < resultLength final" using showNat_props [of i] by simp
  from assms(1) have res: "res = VArray (map (elementSlot final) [0 ..< resultLength final])
                 (map (\<lambda>(k, c). (k, cellSlot k c)) (filter (\<lambda>(k, c). \<not> isArrayIndex k) final))"
    by (auto simp: finishResult_def split: list.splits)
  show ?thesis
    using len by (simp add: res resultAt_def elementSlot_def assms(2) cellSlot_def)
qed


lemma coerce_plain:
  "coerce ''tuple'' v = Inr v" "coerce ''array'' v = Inr v" "coerce ''bytes'' v = Inr v"
  "coerce ''null'' v = Inr v" "coerce (''bytes'' @ x) v = Inr v"
  "coerce (CHR ''b'' # CHR ''y'' # CHR ''t'' # CHR ''e'' # CHR ''s'' # x) v = Inr v"
  by (simp_all add: coerce_def coerceMatch_def)

lemma readBytes_word:
  assumes "1 \<le> sz" "sz \<le> 32"
  shows "readBytes sz False r =
     (if r_offset r + 32 \<le> length (r_data r)
        then (Inr (take sz (drop (r_offset r) (r_data r))), r\<lparr>r_offset := r_offset r + 32\<rparr>)
      else (throwError ''data out-of-bounds'' BUFFER_OVERRUN, r))"
proof -
  have "(sz + 31) div 32 = 1" using assms by simp
  then have a: "(sz + wordSize - 1) div wordSize * wordSize = 32" by (simp add: wordSize_def)
  have p: "peekBytes r 0 sz False =
     (if r_offset r + 32 \<le> length (r_data r) then Inr (take 32 (drop (r_offset r) (r_data r)))
      else throwError ''data out-of-bounds'' BUFFER_OVERRUN)"
    unfolding peekBytes_def a Let_def by auto
  show ?thesis
    using assms by (auto simp: readBytes_def p throwError_def min_def)
qed

lemma word_decode:
  assumes "wordCoder c"
  shows "if r_offset r + 32 \<le> length (r_data r)
         then snd (decode P c r) = r\<lparr>r_offset := r_offset r + 32\<rparr> \<and> fst (decode P c r) \<noteq> Inr VNull
              \<and> (\<forall>n. c = FixedBytesCoder 32 n \<longrightarrow>
                    fst (decode P c r) = Inr (VString (widen (hexlify (take 32 (drop (r_offset r) (r_data r)))))))
         else decode P c r = (throwError ''data out-of-bounds'' BUFFER_OVERRUN, r)"
proof (cases "r_offset r + 32 \<le> length (r_data r)")
  case False
  show ?thesis
  proof (cases c)
    case (FixedBytesCoder sz n)
    with assms have "1 \<le> sz" "sz \<le> 32" by simp_all
    then show ?thesis using FixedBytesCoder False
      by (simp add: FixedBytesCoder_decode_def bindR_def readBytes_word throwError_def)
  qed (use assms False in \<open>simp_all add: AddressCoder_decode_def BooleanCoder_decode_def
        NumberCoder_decode_def bindR_def readValue_cases throwError_def\<close>)
next
  case True
  show ?thesis
  proof (cases c)
    case (AddressCoder n)
    then show ?thesis using True
      by (auto simp: AddressCoder_decode_def bindR_def liftR_def readValue_cases bindE_eq_Inr)
  next
    case (BooleanCoder n)
    then show ?thesis using True
      by (simp add: BooleanCoder_decode_def bindR_def liftR_def readValue_cases coerce_bool)
  next
    case (NumberCoder sz sgnd n)
    then show ?thesis using True
      by (auto simp: NumberCoder_decode_def bindR_def liftR_def readValue_cases coerce_NumberCoder
          bindE_eq_Inr split: if_splits)
  next
    case (FixedBytesCoder sz n)
    with assms have "1 \<le> sz" "sz \<le> 32" by simp_all
    then show ?thesis using FixedBytesCoder True
      by (simp add: FixedBytesCoder_decode_def bindR_def liftR_def readBytes_word coerce_plain)
  qed (use assms in simp_all)
qed

lemma code_overrun: "code (makeError m BUFFER_OVERRUN) = Some BUFFER_OVERRUN"
  by (simp add: code_def makeError_def)

lemma decodeField_word:
  assumes "wordCoder c" "decodeField (decode P) base c r = (Inr s, r')"
  shows "r_offset r + 32 \<le> length (r_data r) \<and> r' = r\<lparr>r_offset := r_offset r + 32\<rparr> \<and> s \<noteq> None
         \<and> (\<forall>n. c = FixedBytesCoder 32 n \<longrightarrow>
               s = Some (Value (VString (widen (hexlify (take 32 (drop (r_offset r) (r_data r))))))))"
proof -
  have nd: "\<not> dynamic c" using assms(1) by (cases c) simp_all
  obtain res r1 where d: "decode P c r = (res, r1)" by (cases "decode P c r")
  from assms(2) nd d have c: "caught c res = Inr s" "r' = r1" by (simp_all add: decodeField_def)
  show ?thesis
  proof (cases "r_offset r + 32 \<le> length (r_data r)")
    case False
    with word_decode [OF assms(1), of r P] d have "res = throwError ''data out-of-bounds'' BUFFER_OVERRUN"
      by simp
    with c(1) show ?thesis by (simp add: caught_def throwError_def code_overrun)
  next
    case True
    with word_decode [OF assms(1), of r P] d
    have w: "r1 = r\<lparr>r_offset := r_offset r + 32\<rparr>" "res \<noteq> Inr VNull"
      "\<forall>n. c = FixedBytesCoder 32 n \<longrightarrow> res = Inr (VString (widen (hexlify (take 32 (drop (r_offset r) (r_data r))))))"
      by auto
    from c(1) w(2) have "s \<noteq> None" by (auto simp: caught_def split: sum.splits if_splits)
    moreover from c(1) w(3) have "\<forall>n. c = FixedBytesCoder 32 n \<longrightarrow>
               s = Some (Value (VString (widen (hexlify (take 32 (drop (r_offset r) (r_data r)))))))"
      by (auto simp: caught_def)
    ultimately show ?thesis using True c(2) w(1) by simp
  qed
qed

lemma unpackLoop_words:
  assumes "list_all wordCoder coders" "unpackLoop (decode P) base coders r = (Inr raw, r')"
  shows "length raw = length coders \<and> r' = r\<lparr>r_offset := r_offset r + 32 * length coders\<rparr>
         \<and> (\<forall>k<length coders. \<forall>n. coders ! k = FixedBytesCoder 32 n \<longrightarrow>
               raw ! k = Value (VString (widen (hexlify (take 32 (drop (r_offset r + 32 * k) (r_data r)))))))"
  using assms
proof (induction coders arbitrary: r raw)
  case Nil
  then show ?case by (simp add: liftR_def)
next
  case (Cons c coders)
  from Cons.prems(2) obtain s r1 rest where
    d: "decodeField (decode P) base c r = (Inr s, r1)"
    and l: "unpackLoop (decode P) base coders r1 = (Inr rest, r')"
    and raw: "raw = (case s of None \<Rightarrow> rest | Some x \<Rightarrow> x # rest)"
    by (auto simp: bindR_def liftR_def split: prod.splits sum.splits)
  from Cons.prems(1) have wc: "wordCoder c" and ws: "list_all wordCoder coders" by simp_all
  from decodeField_word [OF wc d] obtain x where
    r1: "r1 = r\<lparr>r_offset := r_offset r + 32\<rparr>" and s: "s = Some x"
    and f: "\<forall>n. c = FixedBytesCoder 32 n \<longrightarrow>
               x = Value (VString (widen (hexlify (take 32 (drop (r_offset r) (r_data r))))))"
    by auto
  from Cons.IH [OF ws l] have
    len: "length rest = length coders"
    and r': "r' = r1\<lparr>r_offset := r_offset r1 + 32 * length coders\<rparr>"
    and g: "\<forall>k<length coders. \<forall>n. coders ! k = FixedBytesCoder 32 n \<longrightarrow>
               rest ! k = Value (VString (widen (hexlify (take 32 (drop (r_offset r1 + 32 * k) (r_data r1))))))"
    by simp_all
  have "raw = x # rest" using raw s by simp
  moreover have "\<forall>k<length (c # coders). \<forall>n. (c # coders) ! k = FixedBytesCoder 32 n \<longrightarrow>
               (x # rest) ! k = Value (VString (widen (hexlify (take 32 (drop (r_offset r + 32 * k) (r_data r))))))"
  proof (intro allI impI)
    fix k n
    assume k: "k < length (c # coders)" and e: "(c # coders) ! k = FixedBytesCoder 32 n"
    show "(x # rest) ! k = Value (VString (widen (hexlify (take 32 (drop (r_offset r + 32 * k) (r_data r))))))"
    proof (cases k)
      case 0
      with e f show ?thesis by simp
    next
      case (Suc k')
      with k e g have "rest ! k' = Value (VString (widen (hexlify (take 32 (drop (r_offset r1 + 32 * k') (r_data r1))))))"
        by simp
      then show ?thesis using Suc by (simp add: r1 add.assoc)
    qed
  qed
  ultimately show ?case using len r' r1 by simp
qed

lemma assemble_slots:
  "assemble raw extras = Inr (VArray slots named) \<Longrightarrow> take (length raw) slots = raw"
  by (auto simp: assemble_def Let_def split: list.splits)

lemma unpack_slots:
  assumes "unpack P dec coders reader = (Inr (VArray slots named), r')"
  shows "\<exists>raw. unpackLoop dec (subReader reader 0) coders reader = (Inr raw, r') \<and> take (length raw) slots = raw"
proof -
  from assms obtain raw extras where
    l: "unpackLoop dec (subReader reader 0) coders reader = (Inr raw, r')"
    and a: "assemble raw extras = Inr (VArray slots named)"
    by (auto simp: unpack_def bindR_def liftR_def bindE_eq_Inr split: prod.splits sum.splits)
  from assemble_slots [OF a] l show ?thesis by blast
qed


lemma arrayify_VBytes: "arrayify (VBytes bs) = Inr bs"
  by (simp add: truthy_def)

lemma bytes32_eval:
  "verifyType ''bytes32'' = ''bytes32''" "matchArray ''bytes32'' = None"
  "matchNumber ''bytes32'' = None" "matchBytes ''bytes32'' = Some ''32''" "parseDecimal ''32'' = 32"
  by code_simp+

lemma bytes32_param:
  "ParamType_fromObject (ParseNode ''bytes32'' name None None)
     = ParamType name ''bytes32'' ''bytes32'' None None None None"
  by (simp add: newParamType.simps bytes32_eval)

lemma getCoder_bytes32:
  "AbiCoder_getCoder (ParamType name ''bytes32'' ''bytes32'' None None None None) = Inr (FixedBytesCoder 32 name)"
  by (simp add: bytes32_eval)

lemma wellFormed_plain:
  assumes "wellFormed p" "\<not> isHashed p"
  shows "pt_baseType p = pt_type p"
proof -
  from assms(1) have p: "p = newParamType (pt_name p) (pt_type p) (pt_indexed p) (pt_components p)"
    by (simp add: wellFormed_def)
  show ?thesis
  proof (cases "matchArray (pt_type p)")
    case None
    with p have "pt_baseType p = (if pt_components p \<noteq> None then ''tuple'' else pt_type p)"
      by (subst p, subst newParamType.simps) simp
    with assms(2) show ?thesis by (auto simp: isHashed_def split: if_splits)
  next
    case (Some m)
    with p have "pt_baseType p = ''array''"
      by (subst p, subst newParamType.simps) (simp split: prod.splits)
    with assms(2) show ?thesis by (simp add: isHashed_def)
  qed
qed

lemma getCoder_plain:
  assumes "pt_baseType p = pt_type p" "\<not> isHashed p" "pt_baseType p \<noteq> []" "AbiCoder_getCoder p = Inr c"
  shows "wordCoder c"
proof -
  obtain n t b ix comps al ac where p: "p = ParamType n t b ix comps al ac" by (cases p)
  from assms(1,2,3) p have b: "b = t" "t \<noteq> ''string''" "t \<noteq> ''bytes''" "t \<noteq> ''tuple''" "t \<noteq> ''array''" "t \<noteq> []"
    by (auto simp: isHashed_def)
  from assms(4) show ?thesis
    unfolding p using b
    by (auto simp: Let_def throwArgumentError_def throwError_def split: if_splits option.splits prod.splits)
qed

lemma mapE_Inr:
  "mapE f xs = Inr ys \<Longrightarrow> length ys = length xs \<and> (\<forall>k<length xs. f (xs ! k) = Inr (ys ! k))"
proof (induction xs arbitrary: ys)
  case Nil
  then show ?case by simp
next
  case (Cons x xs)
  from Cons.prems obtain y ys' where y: "f x = Inr y" "mapE f xs = Inr ys'" "ys = y # ys'"
    by (auto simp: bindE_eq_Inr)
  from Cons.IH [OF y(2)] y show ?case by (auto simp: nth_Cons split: nat.splits)
qed

lemma AbiCoder_coders_objects: "AbiCoder_coders P (map TypeObject ps) = mapE AbiCoder_getCoder ps"
  by (induction ps) (simp_all add: AbiCoder_coders_def ParamType_from_def)

lemma filter_nth_count:
  "i < length xs \<Longrightarrow> Q (xs ! i) \<Longrightarrow>
   length (filter Q (take i xs)) < length (filter Q xs) \<and> filter Q xs ! length (filter Q (take i xs)) = xs ! i"
proof -
  assume a: "i < length xs" "Q (xs ! i)"
  have "xs = take i xs @ xs ! i # drop (Suc i) xs" using a(1) by (simp add: id_take_nth_drop)
  then have "filter Q xs = filter Q (take i xs) @ xs ! i # filter Q (drop (Suc i) xs)"
    using a(2) by (metis filter.simps(2) filter_append)
  then show ?thesis by (simp add: nth_append)
qed

lemma assemble_VArray:
  "assemble raw extras = Inr v \<Longrightarrow> \<exists>slots named. v = VArray slots named"
  by (auto simp: assemble_def Let_def split: list.splits)

lemma unpack_VArray:
  assumes "unpack P dec coders reader = (Inr v, r')"
  shows "\<exists>slots named. v = VArray slots named"
proof -
  from assms obtain raw extras where "assemble raw extras = Inr v"
    by (auto simp: unpack_def bindR_def liftR_def bindE_eq_Inr split: prod.splits sum.splits)
  then show ?thesis by (rule assemble_VArray)
qed

lemma indexed_topic:
  assumes dec: "AbiCoder_decode P (map TypeObject (indexedTypes inputs)) (VBytes bytes) False = Inr r"
    and wf: "list_all (\<lambda>p. pt_indexed p = Some True \<longrightarrow> wellFormed p \<and> pt_baseType p \<noteq> []) inputs"
    and i: "i < length inputs" "pt_indexed (inputs ! i) = Some True" "isHashed (inputs ! i)"
  shows "resultAt r (topicIndex inputs i)
           = Inr (VString (widen (hexlify (take 32 (drop (32 * topicIndex inputs i) bytes)))))"
proof -
  let ?ix = "filter (\<lambda>p. pt_indexed p = Some True) inputs"
  let ?k = "topicIndex inputs i"
  from dec obtain coders where
    cs: "mapE AbiCoder_getCoder (indexedTypes inputs) = Inr coders"
    and d: "fst (decode P (TupleCoder coders ''_'') (newReader bytes False)) = Inr r"
    by (auto simp: AbiCoder_decode_def AbiCoder_coders_objects bindE_eq_Inr arrayify_VBytes simp del: arrayify.simps)
  from mapE_Inr [OF cs] have len: "length coders = length ?ix"
    and each: "\<forall>k<length ?ix. AbiCoder_getCoder (indexedTypes inputs ! k) = Inr (coders ! k)"
    by (simp_all add: indexedTypes_def)
  have words: "list_all wordCoder coders"
    unfolding list_all_length
  proof (intro allI impI)
    fix k assume k: "k < length coders"
    let ?p = "?ix ! k"
    have mem: "?p \<in> set ?ix" by (rule nth_mem) (use k len in simp)
    then have ip: "pt_indexed ?p = Some True" and pin: "?p \<in> set inputs" by simp_all
    with wf have w: "wellFormed ?p" "pt_baseType ?p \<noteq> []" by (auto simp: list_all_iff)
    have g: "AbiCoder_getCoder (indexedTypes inputs ! k) = Inr (coders ! k)" using each k len by simp
    show "wordCoder (coders ! k)"
    proof (cases "isHashed ?p")
      case True
      then have "indexedTypes inputs ! k = ParamType (pt_name ?p) ''bytes32'' ''bytes32'' None None None None"
        using k len by (simp add: indexedTypes_def bytes32_param del: ParamType_fromObject.simps)
      with g have "coders ! k = FixedBytesCoder 32 (pt_name ?p)" by (simp only: getCoder_bytes32) simp
      then show ?thesis by simp
    next
      case False
      then have "indexedTypes inputs ! k = ?p" using k len by (simp add: indexedTypes_def)
      with g have "AbiCoder_getCoder ?p = Inr (coders ! k)" by simp
      then show ?thesis using getCoder_plain [OF wellFormed_plain [OF w(1) False] False w(2)] by simp
    qed
  qed
  from filter_nth_count [of i inputs "\<lambda>p. pt_indexed p = Some True"] i
  have k: "?k < length ?ix" and kp: "?ix ! ?k = inputs ! i" by (simp_all add: topicIndex_def)
  have e2: "indexedTypes inputs ! ?k = ParamType (pt_name (inputs ! i)) ''bytes32'' ''bytes32'' None None None None"
    using k kp i(3) by (simp add: indexedTypes_def bytes32_param del: ParamType_fromObject.simps)
  have "AbiCoder_getCoder (indexedTypes inputs ! ?k) = Inr (coders ! ?k)" using each k by blast
  then have fixed: "coders ! ?k = FixedBytesCoder 32 (pt_name (inputs ! i))"
    unfolding e2 getCoder_bytes32 by simp
  obtain v r' where u: "unpack P (decode P) coders (newReader bytes False) = (v, r')"
    by (cases "unpack P (decode P) coders (newReader bytes False)")
  with d have v: "v = Inr r"
    by (auto simp: bindR_def liftR_def coerce_plain split: sum.splits)
  from unpack_VArray [OF u [unfolded v]] obtain slots named where r: "r = VArray slots named" by blast
  from unpack_slots [OF u [unfolded v r]] obtain raw where
    l: "unpackLoop (decode P) (subReader (newReader bytes False) 0) coders (newReader bytes False) = (Inr raw, r')"
    and t: "take (length raw) slots = raw" by blast
  from unpackLoop_words [OF words l] have
    lr: "length raw = length coders"
    and f: "\<forall>k<length coders. \<forall>n. coders ! k = FixedBytesCoder 32 n \<longrightarrow>
               raw ! k = Value (VString (widen (hexlify (take 32 (drop (r_offset (newReader bytes False) + 32 * k)
                   (r_data (newReader bytes False)))))))"
    by simp_all
  have kr: "?k < length raw" using k len lr by simp
  then have "raw ! ?k = Value (VString (widen (hexlify (take 32 (drop (32 * ?k) bytes)))))"
    using f fixed lr by (simp add: newReader_def)
  moreover have "slots ! ?k = raw ! ?k" using t kr by (metis nth_take)
  moreover have "?k < length slots" using t kr by (metis length_take min_less_iff_conj)
  ultimately show ?thesis by (simp add: r resultAt_def)
qed

text \<open>
  Claim C8. Let \<open>decodeEventLog\<close> return a result for a fragment whose input at
  position \<open>i\<close> is indexed and of type \<open>string\<close> or \<open>bytes\<close>, or is a
  tuple or an array. Then the element \<open>i\<close> of the result is an \<open>Indexed\<close>
  marker. Without topics its hash is \<open>null\<close>. With topics, when every indexed
  input is an object that the constructor of \<open>ParamType\<close> has made and none has
  the empty type, its hash is the hex string of the 32 bytes of the topic of that input:
  the topics after the first (all of them for an anonymous event) are concatenated, and
  the input at position \<open>i\<close> has the topic whose number is the count of indexed
  inputs before it. The value that was logged is nowhere in the result.
\<close>

theorem decodeEventLog_indexed_dynamic:
  assumes "decodeEventLog P eventFragment d topics = Inr res"
    and "i < length (fr_inputs eventFragment)" and "i < 2 ^ 32 - 1"
    and "pt_indexed (fr_inputs eventFragment ! i) = Some True"
    and "isHashed (fr_inputs eventFragment ! i)"
  shows "\<exists>h. resultAt res i = Inr (VIndexed h)
           \<and> (topics = None \<longrightarrow> h = VNull)
           \<and> (\<forall>ts bytes. topics = Some ts
                  \<and> concatBytes (if fr_anonymous eventFragment then ts else tl ts) = Inr bytes
                  \<and> list_all (\<lambda>p. pt_indexed p = Some True \<longrightarrow> wellFormed p \<and> pt_baseType p \<noteq> [])
                       (fr_inputs eventFragment)
                \<longrightarrow> h = VString (widen (hexlify (take 32 (drop (32 * topicIndex (fr_inputs eventFragment) i) bytes)))))"
proof -
  let ?inputs = "fr_inputs eventFragment"
  from assms(1) obtain topics' resultIndexed rn final where
    t: "(case topics of
              None \<Rightarrow> Inr None
            | Some ts \<Rightarrow>
                if fr_anonymous eventFragment then Inr (Some ts)
                else
                  bindE (Interface_getEventTopic P eventFragment) (\<lambda>topicHash.
                    if ts = [] \<or> \<not> isHexString (hd ts) (Some 32) \<or> toLowerCase (hd ts) \<noteq> topicHash
                      then throwError ''fragment/topic mismatch'' INVALID_ARGUMENT
                    else Inr (Some (tl ts)))) = Inr topics'"
    and ri: "(case topics' of
              None \<Rightarrow> Inr None
            | Some ts \<Rightarrow>
                bindE (concatBytes ts) (\<lambda>bytes.
                bindE (AbiCoder_decode P (map TypeObject (indexedTypes ?inputs)) (VBytes bytes) False)
                  (\<lambda>r. Inr (Some r)))) = Inr resultIndexed"
    and loop: "eventLoop P resultIndexed rn ?inputs 0 ([], 0, 0) = Inr final"
    and fin: "finishResult final = Inr res"
    unfolding decodeEventLog_def bindE_eq_Inr by blast
  from eventLoop_hashed [OF loop assms(2,4,5)] obtain h where
    h: "(case resultIndexed of None \<Rightarrow> h = VNull
         | Some r \<Rightarrow> resultAt r (0 + length (filter (\<lambda>p. pt_indexed p = Some True) (take i ?inputs))) = Inr h)"
    and m: "map_of final (showNat (0 + i)) = Some (Data (VIndexed h))" by blast
  have r: "resultAt res i = Inr (VIndexed h)"
    using finishResult_lookup [OF fin _ assms(3)] m by simp
  have n: "h = VNull" if "topics = None"
  proof -
    from that t have "topics' = None" by simp
    with ri have "resultIndexed = None" by simp
    with h show ?thesis by simp
  qed
  have s: "h = VString (widen (hexlify (take 32 (drop (32 * topicIndex ?inputs i) bytes))))"
    if a: "topics = Some ts" "concatBytes (if fr_anonymous eventFragment then ts else tl ts) = Inr bytes"
      "list_all (\<lambda>p. pt_indexed p = Some True \<longrightarrow> wellFormed p \<and> pt_baseType p \<noteq> []) ?inputs"
    for ts bytes
  proof -
    from a(1) t have "topics' = Some (if fr_anonymous eventFragment then ts else tl ts)"
      by (auto simp: bindE_eq_Inr throwError_def split: if_splits)
    with ri a(2) obtain rr where
      d: "AbiCoder_decode P (map TypeObject (indexedTypes ?inputs)) (VBytes bytes) False = Inr rr"
      and "resultIndexed = Some rr"
      by (auto simp: bindE_eq_Inr)
    with h have "resultAt rr (topicIndex ?inputs i) = Inr h" by (simp add: topicIndex_def)
    with indexed_topic [OF d a(3) assms(2,4,5)] show ?thesis by simp
  qed
  from r n s show ?thesis by blast
qed

lemma toUtf8Bytes_widen: "\<exists>bs. toUtf8Bytes (widen s) = Inr bs"
proof (induction s)
  case Nil
  then show ?case by (simp add: widen_def)
next
  case (Cons c s)
  then obtain bs where bs: "toUtf8Bytes (widen s) = Inr bs" by blast
  have w: "widen (c # s) = of_nat (of_char c) # widen s" by (simp add: widen_def)
  have u: "unat (of_nat (of_char c) :: 16 word) < 256"
    using of_char_less [of c] by (simp only: unat_widen_char)
  have "toUtf8Bytes (of_nat (of_char c) # widen s) =
      (if unat (of_nat (of_char c) :: 16 word) < 0x80
       then Inr (of_nat (unat (of_nat (of_char c) :: 16 word)) # bs)
       else Inr (of_nat (unat (of_nat (of_char c) :: 16 word) div 64 + 0xc0)
                 # of_nat (unat (of_nat (of_char c) :: 16 word) mod 64 + 0x80) # bs))"
    using u by (simp only: toUtf8Bytes.simps Let_def bs bindE_Inr) (simp add: bs)
  then show ?case unfolding w by auto
qed


lemma P2_hash: "keccak256 P2 d = ''0x0000000000000000000000000000000000000000000000000000000000000000''"
proof -
  have "''0x'' @ replicate (2 * 32) CHR ''0'' = ''0x0000000000000000000000000000000000000000000000000000000000000000''"
    by code_simp
  then show ?thesis by (simp add: keccak256_def P2_def hexlify_zeros)
qed

lemma hexlify_ab: "hexlify (replicate n 0xab) = ''0x'' @ concat (replicate n ''ab'')"
proof (induction n)
  case 0
  then show ?case by (simp add: hexlify_def)
next
  case (Suc n)
  have "unat (0xab :: byte) = 171" by simp
  then have "hexlify [0xab] = ''0xab''" by (simp add: hexlify_def HexCharacters_def)
  moreover have "hexlify (replicate (Suc n) 0xab) = hexlify [0xab] @ drop 2 (hexlify (replicate n 0xab))"
    using hexlify_append [of "[0xab]" "replicate n 0xab"] by simp
  ultimately show ?case using Suc by simp
qed

lemma topic1_hex:
  "hexlify (replicate 32 0xab) = ''0xabababababababababababababababababababababababababababababababab''"
proof -
  have "''0x'' @ concat (replicate 32 ''ab'') = ''0xabababababababababababababababababababababababababababababababab''"
    by code_simp
  then show ?thesis by (simp only: hexlify_ab)
qed


lemma eventE_eval:
  "trim ''E(string) '' = ''E(string)''"
  "isHexString ''0x0000000000000000000000000000000000000000000000000000000000000000'' (Some 32)"
  "toLowerCase ''0x0000000000000000000000000000000000000000000000000000000000000000''
     = ''0x0000000000000000000000000000000000000000000000000000000000000000''"
  "parseDecimal ''0'' = 0"
  by code_simp+

lemma eventE_index: "isArrayIndex ''0''" "\<not> isArrayIndex ''s''"
  by (simp_all add: isArrayIndex_def isDigit_def parseDecimal_def charCode_def)


lemma eventE_topic:
  "Interface_getEventTopic P2 eventE = Inr ''0x0000000000000000000000000000000000000000000000000000000000000000''"
proof -
  obtain bs where "toUtf8Bytes (widen ''E(string)'') = Inr bs" using toUtf8Bytes_widen by blast
  then show ?thesis
    by (simp add: Interface_getEventTopic_def Fragment_format_def eventE_def eventE_eval id_hash_def P2_hash)
qed

lemma eventE_concat:
  "concatBytes [''0xabababababababababababababababababababababababababababababababab''] = Inr (replicate 32 0xab)"
  unfolding topic1_hex [symmetric] by (simp add: concatBytes_def arrayifyString_hexlify)

lemma eventE_topics:
  "(if fr_anonymous eventE then Inr (Some topicsE)
    else bindE (Interface_getEventTopic P2 eventE) (\<lambda>topicHash.
           if topicsE = [] \<or> \<not> isHexString (hd topicsE) (Some 32) \<or> toLowerCase (hd topicsE) \<noteq> topicHash
             then throwError ''fragment/topic mismatch'' INVALID_ARGUMENT
           else Inr (Some (tl topicsE))))
     = Inr (Some [''0xabababababababababababababababababababababababababababababababab''])"
proof -
  have a: "fr_anonymous eventE = False" by (simp add: eventE_def)
  have h: "hd topicsE = ''0x0000000000000000000000000000000000000000000000000000000000000000''" "tl topicsE = [''0xabababababababababababababababababababababababababababababababab'']" "topicsE \<noteq> []" by (simp_all add: topicsE_def)
  show ?thesis unfolding a eventE_topic h(1,2) by (simp add: eventE_eval h(3))
qed

lemma eventE_indexed:
  "AbiCoder_decode P2 (map TypeObject (indexedTypes (fr_inputs eventE))) (VBytes (replicate 32 0xab)) False
     = Inr (VArray [Value (VString (widen ''0xabababababababababababababababababababababababababababababababab''))] [(''s'', Value (VString (widen ''0xabababababababababababababababababababababababababababababababab'')))])"
proof -
  let ?d = "replicate 32 (0xab::byte)"
  let ?r = "newReader ?d False"
  let ?c = "FixedBytesCoder 32 ''s''"
  have it: "indexedTypes (fr_inputs eventE) = [ParamType ''s'' ''bytes32'' ''bytes32'' None None None None]"
    by (simp add: indexedTypes_def eventE_def isHashed_def bytes32_param del: ParamType_fromObject.simps)
  have cs: "AbiCoder_coders P2 (map TypeObject (indexedTypes (fr_inputs eventE))) = Inr [?c]"
    unfolding AbiCoder_coders_objects it by (simp only: mapE.simps getCoder_bytes32 bindE_Inr)
  have rb: "readBytes 32 False ?r = (Inr ?d, ?r\<lparr>r_offset := 32\<rparr>)"
    using readBytes_word [of 32 ?r] by (simp add: newReader_def)
  have dec: "FixedBytesCoder_decode 32 ?r = (Inr (VString (widen ''0xabababababababababababababababababababababababababababababababab'')), ?r\<lparr>r_offset := 32\<rparr>)"
    by (simp add: FixedBytesCoder_decode_def bindR_def liftR_def rb coerce_plain topic1_hex)
  have loop: "unpackLoop (decode P2) (subReader ?r 0) [?c] ?r
                = (Inr [Value (VString (widen ''0xabababababababababababababababababababababababababababababababab''))], ?r\<lparr>r_offset := 32\<rparr>)"
    by (simp add: bindR_def liftR_def decodeField_def caught_def dec)
  have ord: "\<forall>d \<in> set [?c]. localName d = [] \<or> ordinaryName P2 (localName d)"
    by (simp add: ordinaryName_def eventE_index P2_def)
  have np: "namedProperties P2 [?c] [?c] [Value (VString (widen ''0xabababababababababababababababababababababababababababababababab''))] = [(''s'', Value (VString (widen ''0xabababababababababababababababababababababababababababababababab'')))]"
    by (simp add: namedProperties_def isUniqueName_def P2_def)
  have u: "unpack P2 (decode P2) [?c] ?r
             = (Inr (VArray [Value (VString (widen ''0xabababababababababababababababababababababababababababababababab''))] [(''s'', Value (VString (widen ''0xabababababababababababababababababababababababababababababababab'')))]), ?r\<lparr>r_offset := 32\<rparr>)"
    using unpack_ordinary [OF loop ord] by (simp only: np) simp
  show ?thesis
    unfolding AbiCoder_decode_def cs arrayify_VBytes bindE_Inr
    by (simp add: bindR_def liftR_def u coerce_plain)
qed

lemma eventE_nonIndexed:
  "AbiCoder_decode P2 (map TypeObject (nonIndexedTypes (fr_inputs eventE))) (VString (widen ''0x'')) True
     = Inr (VArray [] [])"
proof -
  let ?r = "newReader [] True"
  have it: "nonIndexedTypes (fr_inputs eventE) = []" by (simp add: nonIndexedTypes_def eventE_def)
  have a: "arrayify (VString (widen ''0x'')) = Inr []"
    by (simp add: narrow_widen arrayifyString_def isHexString_def)
  have loop: "unpackLoop (decode P2) (subReader ?r 0) [] ?r = (Inr [], ?r)" by (simp add: liftR_def)
  have u: "unpack P2 (decode P2) [] ?r = (Inr (VArray [] []), ?r)"
    using unpack_ordinary [OF loop, of P2] by (simp add: namedProperties_def)
  show ?thesis
    unfolding AbiCoder_decode_def it by (simp add: AbiCoder_coders_def a bindR_def liftR_def u coerce_plain del: arrayify.simps)
qed

lemma eventE_loop:
  "eventLoop P2 (Some (VArray [Value (VString (widen ''0xabababababababababababababababababababababababababababababababab''))] [(''s'', Value (VString (widen ''0xabababababababababababababababababababababababababababababababab'')))])) (VArray [] [])
     (fr_inputs eventE) 0 ([], 0, 0)
     = Inr [(''0'', Data (VIndexed (VString (widen ''0xabababababababababababababababababababababababababababababababab'')))), (''s'', Data (VIndexed (VString (widen ''0xabababababababababababababababababababababababababababababababab''))))]"
  by (simp add: eventE_def eventElement_def eventKeyword_def isHashed_def resultAt_def assign_def putProperty_def
      propertyIsNull_def showNat_0 P2_def)

lemma eventE_finish:
  "finishResult [(''0'', Data (VIndexed (VString (widen ''0xabababababababababababababababababababababababababababababababab'')))), (''s'', Data (VIndexed (VString (widen ''0xabababababababababababababababababababababababababababababababab''))))]
     = Inr (VArray [Value (VIndexed (VString (widen ''0xabababababababababababababababababababababababababababababababab'')))] [(''s'', Value (VIndexed (VString (widen ''0xabababababababababababababababababababababababababababababababab''))))])"
  by (simp add: finishResult_def throwers_def resultLength_def eventE_index eventE_eval elementSlot_def cellSlot_def showNat_0)

lemma eventE_run:
  "decodeEventLog P2 eventE (VString (widen ''0x'')) (Some topicsE)
     = Inr (VArray [Value (VIndexed (VString (widen ''0xabababababababababababababababababababababababababababababababab'')))] [(''s'', Value (VIndexed (VString (widen ''0xabababababababababababababababababababababababababababababababab''))))])"
  unfolding decodeEventLog_def option.case eventE_topics bindE_Inr eventE_concat eventE_indexed eventE_nonIndexed
    eventE_loop eventE_finish ..

lemma eventE_wellFormed:
  "list_all (\<lambda>p. pt_indexed p = Some True \<longrightarrow> wellFormed p \<and> pt_baseType p \<noteq> []) (fr_inputs eventE)"
proof -
  have "matchArray ''string'' = None" by code_simp
  then show ?thesis by (simp add: eventE_def wellFormed_def newParamType.simps)
qed

text \<open>
  The log of the event \<open>E(string indexed s)\<close> with the topic
  \<open>0xabab...ab\<close> for \<open>s\<close> and no data, on a platform whose digest is 32 zero
  bytes: the result has the topic as the hash of its only element.
\<close>

theorem decodeEventLog_indexed_dynamic_witness:
  "decodeEventLog P2 eventE (VString (widen ''0x'')) (Some topicsE)
     = Inr (VArray [Value (VIndexed (VString (widen ''0xabababababababababababababababababababababababababababababababab'')))] [(''s'', Value (VIndexed (VString (widen ''0xabababababababababababababababababababababababababababababababab''))))])
   \<and> 0 < length (fr_inputs eventE)
   \<and> pt_indexed (fr_inputs eventE ! 0) = Some True
   \<and> isHashed (fr_inputs eventE ! 0)
   \<and> concatBytes (if fr_anonymous eventE then topicsE else tl topicsE) = Inr (replicate 32 0xab)
   \<and> list_all (\<lambda>p. pt_indexed p = Some True \<longrightarrow> wellFormed p \<and> pt_baseType p \<noteq> []) (fr_inputs eventE)
   \<and> resultAt (VArray [Value (VIndexed (VString (widen ''0xabababababababababababababababababababababababababababababababab'')))] [(''s'', Value (VIndexed (VString (widen ''0xabababababababababababababababababababababababababababababababab''))))]) 0
       = Inr (VIndexed (VString (widen ''0xabababababababababababababababababababababababababababababababab'')))"
proof -
  have i: "0 < length (fr_inputs eventE)" "(0::nat) < 2 ^ 32 - 1"
    "pt_indexed (fr_inputs eventE ! 0) = Some True" "isHashed (fr_inputs eventE ! 0)"
    by (simp_all add: eventE_def isHashed_def)
  have c: "concatBytes (if fr_anonymous eventE then topicsE else tl topicsE) = Inr (replicate 32 0xab)"
    using eventE_concat by (simp add: eventE_def topicsE_def)
  have t: "topicIndex (fr_inputs eventE) 0 = 0" by (simp add: topicIndex_def)
  from decodeEventLog_indexed_dynamic [OF eventE_run i] obtain h where
    r: "resultAt (VArray [Value (VIndexed (VString (widen ''0xabababababababababababababababababababababababababababababababab'')))] [(''s'', Value (VIndexed (VString (widen ''0xabababababababababababababababababababababababababababababababab''))))]) 0
          = Inr (VIndexed h)"
    and s: "\<forall>ts bytes. Some topicsE = Some ts
                  \<and> concatBytes (if fr_anonymous eventE then ts else tl ts) = Inr bytes
                  \<and> list_all (\<lambda>p. pt_indexed p = Some True \<longrightarrow> wellFormed p \<and> pt_baseType p \<noteq> [])
                       (fr_inputs eventE)
                \<longrightarrow> h = VString (widen (hexlify (take 32 (drop (32 * topicIndex (fr_inputs eventE) 0) bytes))))"
    by blast
  from s c eventE_wellFormed have "h = VString (widen (hexlify (take 32 (drop (32 * topicIndex (fr_inputs eventE) 0) (replicate 32 0xab)))))"
    by blast
  then have "h = VString (widen ''0xabababababababababababababababababababababababababababababababab'')" by (simp add: t topic1_hex)
  with r eventE_run i c eventE_wellFormed show ?thesis by simp
qed

section \<open>Claim C1: decoding what encode has written\<close>

lemma zero_parse: "ParamType_from P1 (TypeString ''uint256[0][]'') =
  Inr (ParamType [] ''uint256[0][]'' ''array'' None None (Some (- 1))
        (Some (ParamType [] ''uint256[0]'' ''array'' None None (Some 0)
           (Some (ParamType [] ''uint256'' ''uint256'' None None None None)))))"
  by code_simp

lemma zero_number: "matchNumber ''uint256'' = Some (''uint'', ''256'')" "parseDecimal ''256'' = 256"
  by code_simp+

lemma zero_coders:
  "AbiCoder_coders P1 [TypeString ''uint256[0][]'']
     = Inr [ArrayCoder (ArrayCoder (NumberCoder 32 False []) 0 []) (- 1) []]"
  by (simp add: AbiCoder_coders_def zero_parse zero_number)

lemma getValue_Number:
  assumes "0 \<le> n" "n < MAX_SAFE"
  shows "getValue (VNumber n) = Inr (word32 (nat n))"
proof -
  have "n < 2 ^ 256" using assms(2) by (simp add: MAX_SAFE_def)
  from getValue_BigNumber [OF assms(1) this] show ?thesis
    using assms by (simp add: getValue_def)
qed

lemma word32_text:
  "word32 32 = replicate 31 0 @ [32]" "word32 2 = replicate 31 0 @ [2]"
proof -
  have "beBytes 32 = [32]" by (subst beBytes.simps, subst beBytes.simps) simp
  then show "word32 32 = replicate 31 0 @ [32]" by (simp add: word32_def)
  have "beBytes 2 = [2]" by (subst beBytes.simps, subst beBytes.simps) simp
  then show "word32 2 = replicate 31 0 @ [2]" by (simp add: word32_def)
qed

lemma encodedEmpty_text:
  "''0x'' @ replicate (2 * 31) CHR ''0'' @ ''20'' @ replicate (2 * 31) CHR ''0'' @ ''02'' = encodedEmpty"
  unfolding encodedEmpty_def by code_simp

lemma encodedEmpty_hex: "hexlify (word32 32 @ word32 2) = encodedEmpty"
proof -
  have a: "hexlify [32] = ''0x20''" "hexlify [2] = ''0x02''" by (simp_all add: hexlify_def HexCharacters_def)
  show ?thesis
    unfolding word32_text hexlify_append hexlify_zeros a using encodedEmpty_text by simp
qed

lemma zero_inner:
  "encode P (ArrayCoder (NumberCoder 32 False []) 0 []) w (VArray [] [])
     = Inr (writeData (writeData w []) [])"
  by (simp add: checkArgumentCount_def pack_def arrayValues_def appendWriter_def newWriter_def)

lemma zero_outer:
  "encode P (ArrayCoder (ArrayCoder (NumberCoder 32 False []) 0 []) (- 1) []) newWriter
       (VArray [Value (VArray [] []), Value (VArray [] [])] [])
     = Inr \<lparr>w_data = [word32 2, [], []], w_dataLength = 32\<rparr>"
proof -
  have l: "length (word32 2) = 32" by (simp add: length_word32)
  have w: "writeValue \<lparr>w_data = [], w_dataLength = 0\<rparr> (VNumber 2) = Inr \<lparr>w_data = [word32 2], w_dataLength = 32\<rparr>"
    using getValue_Number [of 2] by (simp add: writeValue_def MAX_SAFE_def writeData_def l)
  have two: "replicate 2 c = [c, c]" for c :: Coder by (simp add: numeral_2_eq_2)
  show ?thesis
    by (simp add: w checkArgumentCount_def pack_def arrayValues_def two readSlot_def zero_inner
        appendWriter_def newWriter_def writeData_def l)
qed

lemma zero_encode: "AbiCoder_encode P1 [TypeString ''uint256[0][]''] nestedEmpty = Inr encodedEmpty"
proof -
  let ?A = "ArrayCoder (ArrayCoder (NumberCoder 32 False []) 0 []) (- 1) []"
  have l: "length (word32 2) = 32" "length (word32 32) = 32" by (simp_all add: length_word32)
  have g: "getValue (VNumber 32) = Inr (word32 32)"
    using getValue_Number [of 32] by (simp add: MAX_SAFE_def)
  have p: "pack P1 (encode P1) newWriter [?A] nestedEmpty
             = Inr \<lparr>w_data = [word32 32, word32 2], w_dataLength = 64\<rparr>"
    by (simp add: pack_def arrayValues_def nestedEmpty_def readSlot_def zero_outer [unfolded newWriter_def] writeUpdatableValue_def
        updateValue_def g appendWriter_def newWriter_def writeData_def padding_def wordSize_def l
        del: encode.simps)
  have e: "encode P1 (TupleCoder [?A] ''_'') newWriter nestedEmpty
             = Inr \<lparr>w_data = [word32 32, word32 2], w_dataLength = 64\<rparr>"
    by (simp only: encode.simps p)
  have v: "valuesLength nestedEmpty = Inr (Some 1)" by (simp add: valuesLength_def nestedEmpty_def)
  show ?thesis
    unfolding AbiCoder_encode_def v bindE_Inr zero_coders e
    by (simp add: writerData_def encodedEmpty_hex)
qed

lemma zero_decode:
  "AbiCoder_decode P1 [TypeString ''uint256[0][]''] (VString (widen encodedEmpty)) False
     = Inl (makeError ''insufficient data length'' BUFFER_OVERRUN)"
proof -
  let ?A = "ArrayCoder (ArrayCoder (NumberCoder 32 False []) 0 []) (- 1) []"
  let ?d = "word32 32 @ word32 2"
  let ?r = "newReader ?d False"
  have l: "length (word32 2) = 32" "length (word32 32) = 32" by (simp_all add: length_word32)
  have a: "arrayify (VString (widen encodedEmpty)) = Inr ?d"
    unfolding encodedEmpty_hex [symmetric] by (simp add: narrow_widen arrayifyString_hexlify)
  have off: "readValue ?r = (Inr 32, ?r\<lparr>r_offset := 32\<rparr>)"
    using readValue_at [of ?r "[]" 32 "word32 2"] by (simp add: newReader_def)
  have sub: "subReader (subReader ?r 0) 32 = newReader (word32 2) False"
    by (simp add: subReader_def newReader_def l)
  have cnt: "readValue (newReader (word32 2) False)
               = (Inr 2, \<lparr>r_data = word32 2, r_offset = 32, r_allowLoose = False\<rparr>)"
    using readValue_word32 [of 2 False] by simp
  have n: "BigNumber_toNumber 32 = Inr 32" "BigNumber_toNumber 2 = Inr 2"
    by (simp_all add: BigNumber_toNumber_small)
  have d: "fst (decode P1 ?A (newReader (word32 2) False)) = Inl (makeError ''insufficient data length'' BUFFER_OVERRUN)"
    by (simp add: arrayCount_def bindR_def liftR_def cnt n l throwError_def)
  have f: "decodeField (decode P1) (subReader ?r 0) ?A ?r
             = (Inl (makeError ''insufficient data length'' BUFFER_OVERRUN), ?r\<lparr>r_offset := 32\<rparr>)"
    unfolding decodeField_def by (simp add: off n sub d caught_def code_overrun del: decode.simps)
  have u: "unpackLoop (decode P1) (subReader ?r 0) [?A] ?r
             = (Inl (makeError ''insufficient data length'' BUFFER_OVERRUN), ?r\<lparr>r_offset := 32\<rparr>)"
    by (simp add: bindR_def f del: decode.simps)
  show ?thesis
    unfolding AbiCoder_decode_def zero_coders a bindE_Inr
    by (simp add: bindR_def unpack_abort [OF u] del: decode.simps(5))
qed

text \<open>
  Claim C1, at an input where it fails. For the type \<open>uint256[0][]\<close>, an array of
  arrays of length 0, and the value of two empty arrays, \<open>AbiCoder.encode\<close>
  returns the offset word and the count 2: an array of length 0 writes no byte.
  \<open>AbiCoder.decode\<close> of that data throws \<open>insufficient data length\<close>
  with the code \<open>BUFFER_OVERRUN\<close>: \<open>ArrayCoder.decode\<close> (line 2069) asks
  for 32 bytes of data for each element, and here 64 is more than the 32 bytes that the
  reader of the array holds. So decode does not return the value that was encoded.
\<close>

theorem AbiCoder_decode_encode_zero_length:
  "AbiCoder_encode P1 [TypeString ''uint256[0][]''] nestedEmpty = Inr encodedEmpty
   \<and> AbiCoder_decode P1 [TypeString ''uint256[0][]''] (VString (widen encodedEmpty)) False
       = Inl (makeError ''insufficient data length'' BUFFER_OVERRUN)"
  using zero_encode zero_decode by simp

end
